theory Spec2Isabelle
  imports Main "HOL-Library.Log_Nat"
begin

section \<open>JavaScript numbers\<close>

text \<open>
  The routers compute every counter, amount and percentage with JavaScript numbers, that
  is with IEEE-754 binary64 values and round-to-nearest, ties-to-even arithmetic. A finite
  binary64 value is modelled by the rational it denotes, and each arithmetic operation
  by the exact rational operation followed by \<open>fl\<close>, the rounding to the nearest
  binary64 value. Subnormal values are covered (the exponent is clamped at \<open>-1022\<close>);
  overflow to \<open>Infinity\<close> and \<open>NaN\<close> are not: they are out of reach for counters
  and two-decimal amounts of the size a row can hold.
\<close>

type_synonym number = rat

definition pow2 :: "int \<Rightarrow> rat" where
  "pow2 e = (if 0 \<le> e then 2 ^ nat e else 1 / 2 ^ nat (- e))"

definition ilog2 :: "rat \<Rightarrow> int" where
  \<comment> \<open>the binary exponent of a non-zero value: the floor of its base-2 logarithm\<close>
  "ilog2 x = (if 1 \<le> \<bar>x\<bar> then bitlen \<lfloor>\<bar>x\<bar>\<rfloor> - 1 else - bitlen (\<lceil>1 / \<bar>x\<bar>\<rceil> - 1))"

definition roundTiesToEven :: "rat \<Rightarrow> int" where
  "roundTiesToEven x =
     (let f = \<lfloor>x\<rfloor>; d = x - of_int f
      in if d < 1 / 2 then f else if 1 / 2 < d then f + 1 else if even f then f else f + 1)"

definition fl :: "rat \<Rightarrow> number" where
  \<comment> \<open>53 significant bits: the unit in the last place of \<open>x\<close> is \<open>2 ^ (exponent - 52)\<close>\<close>
  "fl x = (if x = 0 then 0
           else let u = pow2 (max (ilog2 x) (- 1022) - 52)
                in of_int (roundTiesToEven (x / u)) * u)"

definition num_add :: "number \<Rightarrow> number \<Rightarrow> number" where
  "num_add a b = fl (a + b)"

definition num_mul :: "number \<Rightarrow> number \<Rightarrow> number" where
  "num_mul a b = fl (a * b)"

definition num_div :: "number \<Rightarrow> number \<Rightarrow> number" where
  \<comment> \<open>only called with a non-zero divisor: the source guards the one division it makes\<close>
  "num_div a b = fl (a / b)"

definition num_sub :: "number \<Rightarrow> number \<Rightarrow> number" where
  "num_sub a b = fl (a - b)"

definition num_of_int :: "int \<Rightarrow> number" where
  \<comment> \<open>the value of an integer column as the number the code computes with\<close>
  "num_of_int n = fl (of_int n)"

definition int_of_num :: "number \<Rightarrow> int" where
  \<comment> \<open>a number written to an integer column; the numbers written are whole\<close>
  "int_of_num x = \<lfloor>x\<rfloor>"

definition Math_round :: "number \<Rightarrow> int" where
  \<comment> \<open>\<open>Math.round\<close>: the nearest integer, a tie going towards plus infinity\<close>
  "Math_round x = \<lfloor>x + 1 / 2\<rfloor>"

text \<open>
  Amounts are stored in decimal columns and written with \<open>toFixed(2)\<close>, so a stored
  amount is a decimal string with two fraction digits. Such a string is modelled by its
  number of hundredths: \<open>"0.10"\<close> is \<open>10\<close>, \<open>"25.00"\<close> is \<open>2500\<close>.
  \<open>parseFloat\<close> of it is the binary64 value nearest to the decimal, and
  \<open>x.toFixed(2)\<close> is the number of hundredths nearest to the exact value of \<open>x\<close>,
  the larger one on a tie (ECMA-262, Number.prototype.toFixed; magnitudes below
  \<open>10^21\<close>).
\<close>

type_synonym decimal2 = int

definition parseFloat :: "decimal2 \<Rightarrow> number" where
  "parseFloat s = fl (of_int s / 100)"

definition toFixed2 :: "number \<Rightarrow> decimal2" where
  "toFixed2 x = (if x < 0 then - \<lfloor>- x * 100 + 1 / 2\<rfloor> else \<lfloor>x * 100 + 1 / 2\<rfloor>)"

definition round_half_up :: "rat \<Rightarrow> int" where
  \<comment> \<open>the rounding the specification names, on exact values\<close>
  "round_half_up x = \<lfloor>x + 1 / 2\<rfloor>"

definition unit_roundoff :: rat where
  \<comment> \<open>half the distance between 1 and the next binary64 value\<close>
  "unit_roundoff = 1 / 2 ^ 53"

section \<open>Dates\<close>

text \<open>
  A \<open>Date\<close> is used through its local calendar fields only; \<open>getMonth\<close> is the
  zero-based month index. A \<open>Date\<close> built from a string or from epoch milliseconds and
  stored without being inspected is kept symbolically.
\<close>

record js_date =
  getFullYear :: int
  getMonth :: nat
  getDate :: nat

datatype js_instant = DateFromString string | DateFromMillis int

section \<open>Tables\<close>

text \<open>
  Modelled from the spec: the table declarations the routers import (\<open>drizzle/schema\<close>:
  \<open>tenants\<close>, \<open>emailOverageInvoices\<close>, \<open>smsOverageInvoices\<close>, \<open>emailUsageLogs\<close>)
  are not among the sources. The rows below have the columns the routers read and write,
  with the types the data model of the specification gives them: integer counters and
  limits, decimal amounts and rates, the four invoice states, and \<open>null\<close> allowed where the
  code supplies a default or tests for absence. Integer columns are taken as unbounded;
  what the code computes from them it computes in binary64.
\<close>

datatype invoice_status = pending | paid | failed | cancelled

record tenant =
  tenant_id :: string
  tenant_name :: string
  tenant_email :: "string option"
  emailMonthlyLimit :: "int option"
  emailsSentThisMonth :: "int option"
  emailOverageCharge :: "decimal2 option"
  emailOverageRate :: "decimal2 option"
  currentMonthStart :: "js_date option"
  subscriptionPlan :: "string option"
  vatRate :: "decimal2 option"
  currency :: "string option"
  stripeCustomerId :: "string option"

record email_invoice =
  inv_id :: nat
  inv_tenantId :: string
  invoiceNumber :: string
  billingPeriodStart :: string
  billingPeriodEnd :: string
  emailsOverLimit :: int
  inv_overageRate :: decimal2
  subtotal :: decimal2
  inv_vatRate :: decimal2
  vatAmount :: decimal2
  totalAmount :: decimal2
  inv_currency :: string
  status :: invoice_status
  dueDate :: string
  stripeInvoiceId :: "string option"
  stripePaymentIntentId :: "string option"
  paidAt :: "js_instant option"

record sms_invoice =
  sms_id :: nat
  sms_invoiceNumber :: string
  sms_stripeInvoiceId :: "string option"
  sms_status :: invoice_status
  sms_paidAt :: "js_instant option"

record email_usage_log =
  log_tenantId :: string
  emailType :: string
  recipientEmail :: string
  subject :: string
  log_status :: string
  isOverage :: bool
  overageCost :: decimal2

text \<open>
  The database: \<open>connected\<close> tells whether \<open>getDb()\<close> yields an instance; a table is
  the list of its rows; \<open>invoiceSeq\<close> is the last value of the invoices' serial key.
\<close>

record db =
  connected :: bool
  tenants :: "tenant list"
  emailOverageInvoices :: "email_invoice list"
  smsOverageInvoices :: "sms_invoice list"
  emailUsageLogs :: "email_usage_log list"
  invoiceSeq :: nat

datatype trpc_code = INTERNAL_SERVER_ERROR | NOT_FOUND | CONFLICT | BAD_REQUEST

datatype error = TRPCError trpc_code string | Error string | TypeError | RangeError

definition findTenant :: "string \<Rightarrow> db \<Rightarrow> tenant option" where
  \<comment> \<open>\<open>query.tenants.findFirst({ where: eq(tenants.id, tenantId) })\<close>\<close>
  "findTenant tenantId d = find (\<lambda>t. tenant_id t = tenantId) (tenants d)"

definition updateTenants :: "(tenant \<Rightarrow> tenant) \<Rightarrow> string \<Rightarrow> db \<Rightarrow> db" where
  \<comment> \<open>\<open>update(tenants).set(...).where(eq(tenants.id, tenantId))\<close>\<close>
  "updateTenants f tenantId d =
     d\<lparr>tenants := map (\<lambda>t. if tenant_id t = tenantId then f t else t) (tenants d)\<rparr>"

text \<open>
  \<open>x || dflt\<close>: \<open>null\<close>, \<open>0\<close> and the empty string are falsy. A decimal column never
  holds the empty string, so only \<open>null\<close> takes the default there.
\<close>

definition or_int :: "int option \<Rightarrow> int \<Rightarrow> int" where
  "or_int x dflt = (case x of None \<Rightarrow> dflt | Some v \<Rightarrow> if v = 0 then dflt else v)"

definition or_dec :: "decimal2 option \<Rightarrow> decimal2 \<Rightarrow> decimal2" where
  "or_dec x dflt = (case x of None \<Rightarrow> dflt | Some v \<Rightarrow> v)"

definition or_str :: "string option \<Rightarrow> string \<Rightarrow> string" where
  "or_str x dflt = (case x of None \<Rightarrow> dflt | Some v \<Rightarrow> if v = [] then dflt else v)"

section \<open>emailLimits: getUsage\<close>

record usage_view =
  limit :: number
  used :: number
  remaining :: number
  overageCount :: number
  overageCharge :: number
  overageRate :: number
  view_subscriptionPlan :: string
  percentUsed :: int

definition monthsDiff :: "js_date \<Rightarrow> js_date \<Rightarrow> int" where
  "monthsDiff now start =
     (getFullYear now - getFullYear start) * 12 + (int (getMonth now) - int (getMonth start))"

definition needsReset :: "js_date \<Rightarrow> js_date option \<Rightarrow> bool" where
  "needsReset now stored = (case stored of None \<Rightarrow> True | Some start \<Rightarrow> 1 \<le> monthsDiff now start)"

definition firstOfMonth :: "js_date \<Rightarrow> js_date" where
  \<comment> \<open>\<open>new Date(now.getFullYear(), now.getMonth(), 1)\<close>\<close>
  "firstOfMonth now = \<lparr>getFullYear = getFullYear now, getMonth = getMonth now, getDate = 1\<rparr>"

definition limitOf :: "tenant \<Rightarrow> number" where
  \<comment> \<open>\<open>tenant.emailMonthlyLimit || 500\<close>\<close>
  "limitOf t = num_of_int (or_int (emailMonthlyLimit t) 500)"

definition sentOf :: "tenant \<Rightarrow> number" where
  \<comment> \<open>\<open>tenant.emailsSentThisMonth || 0\<close>\<close>
  "sentOf t = num_of_int (or_int (emailsSentThisMonth t) 0)"

definition percentOf :: "number \<Rightarrow> number \<Rightarrow> int" where
  \<comment> \<open>\<open>limit > 0 ? Math.round((used / limit) * 100) : 0\<close>\<close>
  "percentOf u l = (if 0 < l then Math_round (num_mul (num_div u l) 100) else 0)"

definition resetView :: "tenant \<Rightarrow> usage_view" where
  \<comment> \<open>the object returned after a reset\<close>
  "resetView t =
     \<lparr>limit = limitOf t,
      used = 0,
      remaining = limitOf t,
      overageCount = 0,
      overageCharge = 0,
      overageRate = parseFloat (or_dec (emailOverageRate t) 10),
      view_subscriptionPlan = or_str (subscriptionPlan t) ''basic'',
      percentUsed = 0\<rparr>"

definition currentView :: "tenant \<Rightarrow> usage_view" where
  \<comment> \<open>the object returned otherwise, from \<open>used\<close> and \<open>limit\<close>\<close>
  "currentView t =
     (let u = sentOf t;
          l = limitOf t
      in \<lparr>limit = l,
          used = u,
          remaining = max 0 (num_sub l u),
          overageCount = max 0 (num_sub u l),
          overageCharge = parseFloat (or_dec (emailOverageCharge t) 0),
          overageRate = parseFloat (or_dec (emailOverageRate t) 10),
          view_subscriptionPlan = or_str (subscriptionPlan t) ''basic'',
          percentUsed = percentOf u l\<rparr>)"

definition resetCounters :: "js_date \<Rightarrow> tenant \<Rightarrow> tenant" where
  \<comment> \<open>the \<open>set\<close> clause of the reset\<close>
  "resetCounters now t =
     t\<lparr>emailsSentThisMonth := Some 0,
       emailOverageCharge := Some 0,
       currentMonthStart := Some (firstOfMonth now)\<rparr>"

definition getUsage :: "string \<Rightarrow> js_date \<Rightarrow> db \<Rightarrow> (error + usage_view) \<times> db" where
  "getUsage tenantId now d =
     (if \<not> connected d then (Inl (TRPCError INTERNAL_SERVER_ERROR ''Database not available''), d)
      else case findTenant tenantId d of
        None \<Rightarrow> (Inl (TRPCError NOT_FOUND ''Tenant not found''), d)
      | Some t \<Rightarrow>
          if needsReset now (currentMonthStart t)
          then (Inr (resetView t), updateTenants (resetCounters now) tenantId d)
          else (Inr (currentView t), d))"

definition adminPercentUsed :: "tenant \<Rightarrow> int" where
  \<comment> \<open>\<open>getAllTenantsUsage\<close>: the limit is tested for truthiness, with no default\<close>
  "adminPercentUsed t =
     (case emailMonthlyLimit t of
        None \<Rightarrow> 0
      | Some l \<Rightarrow>
          if l = 0 then 0
          else Math_round (num_mul (num_div (sentOf t) (num_of_int l)) 100))"

record tenant_usage =
  u_id :: string
  u_name :: string
  u_subscriptionPlan :: "string option"
  u_emailMonthlyLimit :: "int option"
  u_emailsSentThisMonth :: "int option"
  u_emailOverageCharge :: number
  u_currentMonthStart :: "js_date option"
  u_percentUsed :: int

definition tenantUsage :: "tenant \<Rightarrow> tenant_usage" where
  \<comment> \<open>the selected columns of a tenant, the charge parsed, and \<open>percentUsed\<close> added\<close>
  "tenantUsage t =
     \<lparr>u_id = tenant_id t,
      u_name = tenant_name t,
      u_subscriptionPlan = subscriptionPlan t,
      u_emailMonthlyLimit = emailMonthlyLimit t,
      u_emailsSentThisMonth = emailsSentThisMonth t,
      u_emailOverageCharge = parseFloat (or_dec (emailOverageCharge t) 0),
      u_currentMonthStart = currentMonthStart t,
      u_percentUsed = adminPercentUsed t\<rparr>"

definition getAllTenantsUsage :: "db \<Rightarrow> (error + tenant_usage list) \<times> db" where
  "getAllTenantsUsage d =
     (if \<not> connected d then (Inl (TRPCError INTERNAL_SERVER_ERROR ''Database not available''), d)
      else (Inr (map tenantUsage (tenants d)), d))"

section \<open>emailLimits: trackEmailSend\<close>

record track_input =
  in_emailType :: string
  in_recipientEmail :: string
  in_subject :: "string option"

record track_result =
  res_isOverage :: bool
  res_overageCost :: number
  totalUsed :: number
  res_remaining :: number

definition usedAfterSend :: "tenant \<Rightarrow> number" where
  \<comment> \<open>\<open>used = (tenant.emailsSentThisMonth || 0) + 1\<close>\<close>
  "usedAfterSend t = num_add (sentOf t) 1"

definition sendIsOverage :: "tenant \<Rightarrow> bool" where
  \<comment> \<open>\<open>isOverage = used > limit\<close>\<close>
  "sendIsOverage t = (limitOf t < usedAfterSend t)"

definition sendOverageCost :: "tenant \<Rightarrow> number" where
  \<comment> \<open>\<open>overageCost = isOverage ? overageRate : 0\<close>\<close>
  "sendOverageCost t = (if sendIsOverage t then parseFloat (or_dec (emailOverageRate t) 10) else 0)"

definition countSend :: "tenant \<Rightarrow> tenant \<Rightarrow> tenant" where
  \<comment> \<open>the \<open>set\<close> clause of the update: both values come from the row \<open>t\<close> read before\<close>
  "countSend t row =
     row\<lparr>emailsSentThisMonth := Some (int_of_num (usedAfterSend t)),
         emailOverageCharge :=
           Some (toFixed2 (num_add (parseFloat (or_dec (emailOverageCharge t) 0)) (sendOverageCost t)))\<rparr>"

definition sendLog :: "string \<Rightarrow> track_input \<Rightarrow> tenant \<Rightarrow> email_usage_log" where
  \<comment> \<open>the row inserted into \<open>emailUsageLogs\<close>\<close>
  "sendLog tenantId inp t =
     \<lparr>log_tenantId = tenantId,
      emailType = in_emailType inp,
      recipientEmail = in_recipientEmail inp,
      subject = or_str (in_subject inp) [],
      log_status = ''sent'',
      isOverage = sendIsOverage t,
      overageCost = toFixed2 (sendOverageCost t)\<rparr>"

definition sendResult :: "tenant \<Rightarrow> track_result" where
  \<comment> \<open>the object returned (its constant \<open>success: true\<close> left out)\<close>
  "sendResult t =
     \<lparr>res_isOverage = sendIsOverage t,
      res_overageCost = sendOverageCost t,
      totalUsed = usedAfterSend t,
      res_remaining = max 0 (num_sub (limitOf t) (usedAfterSend t))\<rparr>"

definition insertLog :: "email_usage_log \<Rightarrow> db \<Rightarrow> db" where
  "insertLog l d = d\<lparr>emailUsageLogs := emailUsageLogs d @ [l]\<rparr>"

text \<open>
  The procedure's input schema asks that \<open>recipientEmail\<close> be an email address
  (\<open>z.string().email()\<close>); an input that fails is rejected with \<open>BAD_REQUEST\<close> before
  the procedure body runs. The check itself belongs to the validation library and is
  the parameter \<open>isEmail\<close>; the error's message is the library's.
\<close>

definition invalidInput :: error where
  "invalidInput = TRPCError BAD_REQUEST ''Invalid email''"

definition trackEmailSend ::
  "(string \<Rightarrow> bool) \<Rightarrow> string \<Rightarrow> track_input \<Rightarrow> db \<Rightarrow> (error + track_result) \<times> db" where
  "trackEmailSend isEmail tenantId inp d =
     (if \<not> isEmail (in_recipientEmail inp) then (Inl invalidInput, d)
      else if \<not> connected d then (Inl (TRPCError INTERNAL_SERVER_ERROR ''Database not available''), d)
      else case findTenant tenantId d of
        None \<Rightarrow> (Inl (TRPCError NOT_FOUND ''Tenant not found''), d)
      | Some t \<Rightarrow>
          (Inr (sendResult t),
           insertLog (sendLog tenantId inp t) (updateTenants (countSend t) tenantId d)))"

text \<open>
  The three database statements of one \<open>trackEmailSend\<close> call are separate awaited
  round trips, with no transaction around them. A call in flight is therefore at one of
  four points, and a step takes it to the next one; the first step begins with the check
  of the input. Calls in flight at the same time are
  interleaved by a schedule, the list of the indices of the calls that move next.
\<close>

datatype track_call =
    Called
  | TenantRead tenant
  | CounterWritten tenant
  | Returned "error + track_result"

fun track_step ::
  "(string \<Rightarrow> bool) \<Rightarrow> string \<Rightarrow> track_input \<Rightarrow> track_call \<Rightarrow> db \<Rightarrow> track_call \<times> db" where
  "track_step isEmail tenantId inp Called d =
     (if \<not> isEmail (in_recipientEmail inp) then (Returned (Inl invalidInput), d)
      else if \<not> connected d
      then (Returned (Inl (TRPCError INTERNAL_SERVER_ERROR ''Database not available'')), d)
      else case findTenant tenantId d of
        None \<Rightarrow> (Returned (Inl (TRPCError NOT_FOUND ''Tenant not found'')), d)
      | Some t \<Rightarrow> (TenantRead t, d))"
| "track_step isEmail tenantId inp (TenantRead t) d =
     (CounterWritten t, updateTenants (countSend t) tenantId d)"
| "track_step isEmail tenantId inp (CounterWritten t) d =
     (Returned (Inr (sendResult t)), insertLog (sendLog tenantId inp t) d)"
| "track_step isEmail tenantId inp (Returned r) d = (Returned r, d)"

record request =
  req_tenantId :: string
  req_input :: track_input
  req_at :: track_call

fun sched_step :: "(string \<Rightarrow> bool) \<Rightarrow> nat \<Rightarrow> request list \<times> db \<Rightarrow> request list \<times> db" where
  "sched_step isEmail i (rs, d) =
     (if i < length rs
      then (case track_step isEmail (req_tenantId (rs ! i)) (req_input (rs ! i)) (req_at (rs ! i)) d of
              (next, d') \<Rightarrow> (rs[i := (rs ! i)\<lparr>req_at := next\<rparr>], d'))
      else (rs, d))"

definition run_schedule ::
  "(string \<Rightarrow> bool) \<Rightarrow> nat list \<Rightarrow> request list \<times> db \<Rightarrow> request list \<times> db" where
  "run_schedule isEmail sched c = fold (sched_step isEmail) sched c"

definition completed :: "request \<Rightarrow> bool" where
  "completed r = (case req_at r of Returned (Inr _) \<Rightarrow> True | _ \<Rightarrow> False)"

definition sendsInTurn :: "(string \<Rightarrow> bool) \<Rightarrow> string \<Rightarrow> track_input list \<Rightarrow> db \<Rightarrow> db" where
  \<comment> \<open>the calls one after the other, each one returning before the next starts\<close>
  "sendsInTurn isEmail tenantId inps d =
     fold (\<lambda>inp d'. snd (trackEmailSend isEmail tenantId inp d')) inps d"

fun turns :: "nat \<Rightarrow> nat \<Rightarrow> nat list" where
  \<comment> \<open>the schedule on which \<open>n\<close> calls, from index \<open>p\<close> on, run one after the other\<close>
  "turns p 0 = []"
| "turns p (Suc n) = [p, p, p] @ turns (Suc p) n"

definition called :: "string \<Rightarrow> track_input \<Rightarrow> request" where
  "called tenantId inp = \<lparr>req_tenantId = tenantId, req_input = inp, req_at = Called\<rparr>"

fun returnedInTurn ::
  "(string \<Rightarrow> bool) \<Rightarrow> string \<Rightarrow> track_input list \<Rightarrow> db \<Rightarrow> request list" where
  \<comment> \<open>the calls with what each returns when they run in turn\<close>
  "returnedInTurn isEmail tenantId [] d = []"
| "returnedInTurn isEmail tenantId (inp # inps) d =
     \<lparr>req_tenantId = tenantId, req_input = inp,
      req_at = Returned (fst (trackEmailSend isEmail tenantId inp d))\<rparr>
     # returnedInTurn isEmail tenantId inps (snd (trackEmailSend isEmail tenantId inp d))"

definition sentThisMonth :: "string \<Rightarrow> db \<Rightarrow> int" where
  \<comment> \<open>the stored counter, \<open>null\<close> counting as \<open>0\<close>\<close>
  "sentThisMonth tenantId d =
     (case findTenant tenantId d of None \<Rightarrow> 0 | Some t \<Rightarrow> or_int (emailsSentThisMonth t) 0)"

section \<open>emailOverageBilling: generateMonthlyInvoice\<close>

text \<open>
  The runtime's \<open>Date\<close> is a parameter of the model: \<open>newDate s\<close> is \<open>new Date(s)\<close>,
  \<open>None\<close> when the string gives an Invalid Date, and \<open>dueDateISO dt\<close> is the day that
  \<open>dt.setDate(dt.getDate() + 30); dt.toISOString().split('T')[0]\<close> yields. On an
  Invalid Date \<open>toISOString\<close> throws a \<open>RangeError\<close>, while the row to insert is
  being built.
\<close>

record js_runtime =
  newDate :: "string \<Rightarrow> js_date option"
  dueDateISO :: "js_date \<Rightarrow> string"

definition digit :: "nat \<Rightarrow> char" where
  "digit n = char_of (48 + n)"

fun show_nat :: "nat \<Rightarrow> string" where
  "show_nat n = (if n < 10 then [digit n] else show_nat (n div 10) @ [digit (n mod 10)])"

definition show_int :: "int \<Rightarrow> string" where
  "show_int i = (if i < 0 then CHR ''-'' # show_nat (nat (- i)) else show_nat (nat i))"

definition padStart2 :: "string \<Rightarrow> string" where
  \<comment> \<open>\<open>s.padStart(2, '0')\<close>\<close>
  "padStart2 s = replicate (2 - length s) CHR ''0'' @ s"

definition toUpperCase :: "string \<Rightarrow> string" where
  \<comment> \<open>on the ASCII letters\<close>
  "toUpperCase s =
     map (\<lambda>c. if (97 :: nat) \<le> of_char c \<and> of_char c \<le> (122 :: nat)
              then char_of (of_char c - (32 :: nat)) else c) s"

definition generateInvoiceNumber :: "string \<Rightarrow> js_date \<Rightarrow> string" where
  "generateInvoiceNumber tenantId date =
     ''INV-'' @ show_int (getFullYear date) @ padStart2 (show_nat (getMonth date + 1))
       @ ''-'' @ toUpperCase (take 8 tenantId)"

record invoice_input =
  in_tenantId :: string
  in_billingPeriodStart :: string
  in_billingPeriodEnd :: string

record invoice_result =
  res_invoiceId :: nat
  res_invoiceNumber :: string
  res_totalAmount :: decimal2

definition existingInvoice :: "invoice_input \<Rightarrow> db \<Rightarrow> email_invoice option" where
  "existingInvoice inp d =
     find (\<lambda>i. inv_tenantId i = in_tenantId inp
              \<and> billingPeriodStart i = in_billingPeriodStart inp
              \<and> billingPeriodEnd i = in_billingPeriodEnd inp)
          (emailOverageInvoices d)"

definition overLimit :: "tenant \<Rightarrow> number" where
  \<comment> \<open>\<open>emailsOverLimit\<close>\<close>
  "overLimit t = max 0 (num_sub (sentOf t) (limitOf t))"

definition subtotalOf :: "tenant \<Rightarrow> number" where
  \<comment> \<open>\<open>subtotal = emailsOverLimit * overageRate\<close>\<close>
  "subtotalOf t = num_mul (overLimit t) (parseFloat (or_dec (emailOverageRate t) 10))"

definition vatAmountOf :: "tenant \<Rightarrow> number" where
  \<comment> \<open>\<open>vatAmount = (subtotal * vatRate) / 100\<close>\<close>
  "vatAmountOf t = num_div (num_mul (subtotalOf t) (parseFloat (or_dec (vatRate t) 2500))) 100"

definition totalAmountOf :: "tenant \<Rightarrow> number" where
  \<comment> \<open>\<open>totalAmount = subtotal + vatAmount\<close>\<close>
  "totalAmountOf t = num_add (subtotalOf t) (vatAmountOf t)"

definition newInvoice :: "js_runtime \<Rightarrow> invoice_input \<Rightarrow> tenant \<Rightarrow> js_date \<Rightarrow> nat \<Rightarrow> email_invoice" where
  "newInvoice rt inp t date key =
     \<lparr>inv_id = key,
      inv_tenantId = in_tenantId inp,
      invoiceNumber = generateInvoiceNumber (in_tenantId inp) date,
      billingPeriodStart = in_billingPeriodStart inp,
      billingPeriodEnd = in_billingPeriodEnd inp,
      emailsOverLimit = int_of_num (overLimit t),
      inv_overageRate = toFixed2 (parseFloat (or_dec (emailOverageRate t) 10)),
      subtotal = toFixed2 (subtotalOf t),
      inv_vatRate = toFixed2 (parseFloat (or_dec (vatRate t) 2500)),
      vatAmount = toFixed2 (vatAmountOf t),
      totalAmount = toFixed2 (totalAmountOf t),
      inv_currency = or_str (currency t) ''NOK'',
      status = pending,
      dueDate = dueDateISO rt date,
      stripeInvoiceId = None,
      stripePaymentIntentId = None,
      paidAt = None\<rparr>"

definition insertInvoice :: "email_invoice \<Rightarrow> db \<Rightarrow> db" where
  "insertInvoice i d =
     d\<lparr>emailOverageInvoices := emailOverageInvoices d @ [i], invoiceSeq := inv_id i\<rparr>"

definition generateMonthlyInvoice ::
  "js_runtime \<Rightarrow> invoice_input \<Rightarrow> db \<Rightarrow> (error + invoice_result) \<times> db" where
  "generateMonthlyInvoice rt inp d =
     (if \<not> connected d then (Inl (TRPCError INTERNAL_SERVER_ERROR ''Database not available''), d)
      else case findTenant (in_tenantId inp) d of
        None \<Rightarrow> (Inl (TRPCError NOT_FOUND ''Tenant not found''), d)
      | Some t \<Rightarrow>
          (case existingInvoice inp d of
             Some _ \<Rightarrow> (Inl (TRPCError CONFLICT ''Invoice already exists for this period''), d)
           | None \<Rightarrow>
               if overLimit t = 0 then (Inl (TRPCError BAD_REQUEST ''No overage to bill''), d)
               else (case newDate rt (in_billingPeriodEnd inp) of
                       None \<Rightarrow> (Inl RangeError, d)
                     | Some date \<Rightarrow>
                         (Inr \<lparr>res_invoiceId = Suc (invoiceSeq d),
                               res_invoiceNumber = generateInvoiceNumber (in_tenantId inp) date,
                               res_totalAmount = toFixed2 (totalAmountOf t)\<rparr>,
                          insertInvoice (newInvoice rt inp t date (Suc (invoiceSeq d))) d))))"

section \<open>emailOverageBilling: handleStripeWebhook\<close>

text \<open>The input's \<open>status\<close> is validated as one of \<open>"paid"\<close> and \<open>"failed"\<close>.\<close>

datatype event_status = ev_paid | ev_failed

fun statusOf :: "event_status \<Rightarrow> invoice_status" where
  "statusOf ev_paid = paid"
| "statusOf ev_failed = failed"

record webhook_input =
  in_stripeInvoiceId :: string
  in_status :: event_status
  in_paidAt :: "string option"

definition findByStripeId :: "string \<Rightarrow> db \<Rightarrow> email_invoice option" where
  "findByStripeId sid d = find (\<lambda>i. stripeInvoiceId i = Some sid) (emailOverageInvoices d)"

definition updateInvoices :: "(email_invoice \<Rightarrow> email_invoice) \<Rightarrow> nat \<Rightarrow> db \<Rightarrow> db" where
  \<comment> \<open>\<open>update(emailOverageInvoices).set(...).where(eq(emailOverageInvoices.id, key))\<close>\<close>
  "updateInvoices f key d =
     d\<lparr>emailOverageInvoices := map (\<lambda>i. if inv_id i = key then f i else i) (emailOverageInvoices d)\<rparr>"

definition paidAtOf :: "string option \<Rightarrow> js_instant option" where
  \<comment> \<open>\<open>input.paidAt ? new Date(input.paidAt) : null\<close>\<close>
  "paidAtOf p = (case p of None \<Rightarrow> None | Some s \<Rightarrow> if s = [] then None else Some (DateFromString s))"

definition markInvoice :: "webhook_input \<Rightarrow> email_invoice \<Rightarrow> email_invoice" where
  \<comment> \<open>the \<open>set\<close> clause of the invoice update\<close>
  "markInvoice inp i = i\<lparr>status := statusOf (in_status inp), paidAt := paidAtOf (in_paidAt inp)\<rparr>"

definition clearCharge :: "tenant \<Rightarrow> tenant" where
  \<comment> \<open>the \<open>set\<close> clause of the tenant update\<close>
  "clearCharge t = t\<lparr>emailOverageCharge := Some 0\<rparr>"

definition handleStripeWebhook :: "webhook_input \<Rightarrow> db \<Rightarrow> (error + unit) \<times> db" where
  "handleStripeWebhook inp d =
     (if \<not> connected d then (Inl (TRPCError INTERNAL_SERVER_ERROR ''Database not available''), d)
      else case findByStripeId (in_stripeInvoiceId inp) d of
        None \<Rightarrow> (Inl (TRPCError NOT_FOUND ''Invoice not found''), d)
      | Some invoice \<Rightarrow>
          (Inr (),
           if in_status inp = ev_paid
           then updateTenants clearCharge (inv_tenantId invoice)
                  (updateInvoices (markInvoice inp) (inv_id invoice) d)
           else updateInvoices (markInvoice inp) (inv_id invoice) d))"

section \<open>stripeWebhook\<close>

text \<open>
  The handlers read three properties of the event's invoice object: \<open>id\<close>,
  \<open>status_transition\<close> and \<open>payment_intent\<close>. \<open>status_transition\<close> is \<open>None\<close>
  when the object has no property of that name, and then reading its \<open>paid_at\<close>
  throws a \<open>TypeError\<close>; a \<open>paid_at\<close> of \<open>null\<close> multiplies to \<open>0\<close>. The lines
  written to the console are part of the outcome (their leading pictograph left out).
\<close>

record stripe_invoice =
  stripe_id :: string
  status_transition :: "int option option"
  payment_intent :: "string option"

record stripe_event =
  event_type :: string
  data_object :: stripe_invoice

datatype console_line = Log string | Warn string | ErrorLine string error

datatype webhook_ack = Reconciled string string | Subscription string

definition findSmsByStripeId :: "string \<Rightarrow> db \<Rightarrow> sms_invoice option" where
  "findSmsByStripeId sid d = find (\<lambda>i. sms_stripeInvoiceId i = Some sid) (smsOverageInvoices d)"

definition updateSmsInvoices :: "(sms_invoice \<Rightarrow> sms_invoice) \<Rightarrow> nat \<Rightarrow> db \<Rightarrow> db" where
  "updateSmsInvoices f key d =
     d\<lparr>smsOverageInvoices := map (\<lambda>i. if sms_id i = key then f i else i) (smsOverageInvoices d)\<rparr>"

definition orNull :: "string option \<Rightarrow> string option" where
  \<comment> \<open>\<open>invoice.payment_intent as string || null\<close>\<close>
  "orNull p = (case p of None \<Rightarrow> None | Some s \<Rightarrow> if s = [] then None else Some s)"

definition paidAtMillis :: "int option \<Rightarrow> js_instant" where
  \<comment> \<open>\<open>new Date(invoice.status_transition.paid_at! * 1000)\<close>\<close>
  "paidAtMillis paid_at = DateFromMillis ((case paid_at of None \<Rightarrow> 0 | Some secs \<Rightarrow> secs) * 1000)"

definition markPaid :: "stripe_invoice \<Rightarrow> int option \<Rightarrow> email_invoice \<Rightarrow> email_invoice" where
  "markPaid invoice paid_at i =
     i\<lparr>status := paid, paidAt := Some (paidAtMillis paid_at),
       stripePaymentIntentId := orNull (payment_intent invoice)\<rparr>"

definition markSmsPaid :: "int option \<Rightarrow> sms_invoice \<Rightarrow> sms_invoice" where
  "markSmsPaid paid_at i = i\<lparr>sms_status := paid, sms_paidAt := Some (paidAtMillis paid_at)\<rparr>"

definition markFailed :: "email_invoice \<Rightarrow> email_invoice" where
  "markFailed i = i\<lparr>status := failed\<rparr>"

definition markSmsFailed :: "sms_invoice \<Rightarrow> sms_invoice" where
  "markSmsFailed i = i\<lparr>sms_status := failed\<rparr>"

definition handleInvoicePaymentSucceeded ::
  "stripe_invoice \<Rightarrow> db \<Rightarrow> (error + webhook_ack option) \<times> db \<times> console_line list" where
  "handleInvoicePaymentSucceeded invoice d =
     (if \<not> connected d then (Inl (Error ''Database not available''), d, [])
      else case status_transition invoice of
        None \<Rightarrow> (Inl TypeError, d, [])
      | Some paid_at \<Rightarrow>
          (case findByStripeId (stripe_id invoice) d of
             Some emailInvoice \<Rightarrow>
               (Inr (Some (Reconciled ''email'' (invoiceNumber emailInvoice))),
                updateInvoices (markPaid invoice paid_at) (inv_id emailInvoice) d,
                [Log (''Email overage invoice '' @ invoiceNumber emailInvoice @ '' marked as paid'')])
           | None \<Rightarrow>
               (case findSmsByStripeId (stripe_id invoice) d of
                  Some smsInvoice \<Rightarrow>
                    (Inr (Some (Reconciled ''sms'' (sms_invoiceNumber smsInvoice))),
                     updateSmsInvoices (markSmsPaid paid_at) (sms_id smsInvoice) d,
                     [Log (''SMS overage invoice '' @ sms_invoiceNumber smsInvoice @ '' marked as paid'')])
                | None \<Rightarrow>
                    (Inr None, d,
                     [Warn (''No invoice found for Stripe invoice '' @ stripe_id invoice)]))))"

definition handleInvoicePaymentFailed ::
  "stripe_invoice \<Rightarrow> db \<Rightarrow> (error + webhook_ack option) \<times> db \<times> console_line list" where
  "handleInvoicePaymentFailed invoice d =
     (if \<not> connected d then (Inl (Error ''Database not available''), d, [])
      else case findByStripeId (stripe_id invoice) d of
        Some emailInvoice \<Rightarrow>
          (Inr (Some (Reconciled ''email'' (invoiceNumber emailInvoice))),
           updateInvoices markFailed (inv_id emailInvoice) d,
           [Log (''Email overage invoice '' @ invoiceNumber emailInvoice @ '' marked as failed'')])
      | None \<Rightarrow>
          (case findSmsByStripeId (stripe_id invoice) d of
             Some smsInvoice \<Rightarrow>
               (Inr (Some (Reconciled ''sms'' (sms_invoiceNumber smsInvoice))),
                updateSmsInvoices markSmsFailed (sms_id smsInvoice) d,
                [Log (''SMS overage invoice '' @ sms_invoiceNumber smsInvoice @ '' marked as failed'')])
           | None \<Rightarrow>
               (Inr None, d,
                [Warn (''No invoice found for Stripe invoice '' @ stripe_id invoice)])))"

definition rethrow ::
  "string \<Rightarrow> (error + webhook_ack option) \<times> db \<times> console_line list
     \<Rightarrow> (error + webhook_ack option) \<times> db \<times> console_line list" where
  \<comment> \<open>the \<open>catch\<close> block: the error is written to the console and thrown again\<close>
  "rethrow ty r =
     (case r of
        (Inl e, d, out) \<Rightarrow> (Inl e, d, out @ [ErrorLine (''Error handling webhook event '' @ ty @ '':'') e])
      | (Inr a, d, out) \<Rightarrow> (Inr a, d, out))"

definition webhookEvent ::
  "stripe_event \<Rightarrow> db \<Rightarrow> (error + webhook_ack option) \<times> db \<times> console_line list" where
  \<comment> \<open>\<open>handleStripeWebhook\<close> of stripeWebhook.ts\<close>
  "webhookEvent event d =
     (case rethrow (event_type event)
             (if event_type event = ''invoice.payment_succeeded''
              then handleInvoicePaymentSucceeded (data_object event) d
              else if event_type event = ''invoice.payment_failed''
              then handleInvoicePaymentFailed (data_object event) d
              else if event_type event \<in> {''customer.subscription.created'',
                        ''customer.subscription.updated'', ''customer.subscription.deleted''}
              then (Inr (Some (Subscription (event_type event))), d,
                    [Log (''Subscription event received: '' @ event_type event)])
              else (Inr None, d, [Log (''Unhandled event type: '' @ event_type event)]))
      of (r, d', out) \<Rightarrow> (r, d', Log (''Received Stripe webhook: '' @ event_type event) # out))"

section \<open>Predicates of the statements\<close>



definition effectiveLimit :: "tenant \<Rightarrow> int" where
  \<comment> \<open>the configured limit, or 500 when it is \<open>null\<close> or \<open>0\<close>\<close>
  "effectiveLimit t = or_int (emailMonthlyLimit t) 500"

definition storedSent :: "tenant \<Rightarrow> int" where
  \<comment> \<open>the stored counter, \<open>null\<close> counting as \<open>0\<close>\<close>
  "storedSent t = or_int (emailsSentThisMonth t) 0"

definition snapshotUsed :: "js_date \<Rightarrow> tenant \<Rightarrow> int" where
  \<comment> \<open>the counter of the snapshot that \<open>getUsage\<close> reports: \<open>0\<close> when it resets\<close>
  "snapshotUsed now t = (if needsReset now (currentMonthStart t) then 0 else storedSent t)"

definition returnedView :: "js_date \<Rightarrow> tenant \<Rightarrow> usage_view" where
  \<comment> \<open>the object \<open>getUsage\<close> returns for the row it has read\<close>
  "returnedView now t = (if needsReset now (currentMonthStart t) then resetView t else currentView t)"

definition halfway :: "int \<Rightarrow> int \<Rightarrow> bool" where
  \<comment> \<open>\<open>100 * u / l\<close> lies exactly halfway between two whole numbers\<close>
  "halfway u l = ((200 * u + l) mod (2 * l) = 0)"

definition withLimit :: "int option \<Rightarrow> tenant \<Rightarrow> tenant" where
  "withLimit l t = t\<lparr>emailMonthlyLimit := l\<rparr>"

definition withRate :: "decimal2 option \<Rightarrow> tenant \<Rightarrow> tenant" where
  "withRate r t = t\<lparr>emailOverageRate := r\<rparr>"

definition setLimit :: "int option \<Rightarrow> string \<Rightarrow> db \<Rightarrow> db" where
  \<comment> \<open>the database with the tenant's configured limit replaced\<close>
  "setLimit l tenantId d = updateTenants (withLimit l) tenantId d"

definition setRate :: "decimal2 option \<Rightarrow> string \<Rightarrow> db \<Rightarrow> db" where
  \<comment> \<open>the database with the tenant's configured overage rate replaced\<close>
  "setRate r tenantId d = updateTenants (withRate r) tenantId d"

definition deliverAll :: "webhook_input list \<Rightarrow> db \<Rightarrow> db" where
  \<comment> \<open>a sequence of payment events, handled one after the other\<close>
  "deliverAll evs d = fold (\<lambda>ev d'. snd (handleStripeWebhook ev d')) evs d"

definition statusStep :: "email_invoice \<Rightarrow> email_invoice \<Rightarrow> bool" where
  \<comment> \<open>what events can do to a row: keep its status, or make it \<open>paid\<close> or \<open>failed\<close>\<close>
  "statusStep i j = (inv_id j = inv_id i \<and> (status j = status i \<or> status j = paid \<or> status j = failed))"

section \<open>A sample database\<close>

definition acme :: tenant where
  "acme =
     \<lparr>tenant_id = ''acme-salon-01'', tenant_name = ''Acme Salon'', tenant_email = None,
      emailMonthlyLimit = Some 500, emailsSentThisMonth = Some 507, emailOverageCharge = Some 70,
      emailOverageRate = Some 10,
      currentMonthStart = Some \<lparr>getFullYear = 2025, getMonth = 1, getDate = 1\<rparr>,
      subscriptionPlan = None, vatRate = Some 2500, currency = None, stripeCustomerId = None\<rparr>"

definition shop :: db where
  "shop =
     \<lparr>connected = True, tenants = [acme], emailOverageInvoices = [], smsOverageInvoices = [],
      emailUsageLogs = [], invoiceSeq = 0\<rparr>"

definition mar15 :: js_date where
  "mar15 = \<lparr>getFullYear = 2025, getMonth = 2, getDate = 15\<rparr>"


definition apr02 :: js_date where
  "apr02 = \<lparr>getFullYear = 2025, getMonth = 3, getDate = 2\<rparr>"

definition sampleIsEmail :: "string \<Rightarrow> bool" where
  \<comment> \<open>stands for the library's check: it accepts the address of the sample, as the
      library does, and is asked about no other string\<close>
  "sampleIsEmail s = (s = ''kari@example.no'')"

definition welcomeMail :: track_input where
  "welcomeMail =
     \<lparr>in_emailType = ''welcome'', in_recipientEmail = ''kari@example.no'', in_subject = None\<rparr>"

definition febInvoice :: email_invoice where
  "febInvoice =
     \<lparr>inv_id = 1, inv_tenantId = ''acme-salon-01'', invoiceNumber = ''INV-202502-ACME-SAL'',
      billingPeriodStart = ''2025-02-01'', billingPeriodEnd = ''2025-02-28'',
      emailsOverLimit = 7, inv_overageRate = 10, subtotal = 70, inv_vatRate = 2500,
      vatAmount = 17, totalAmount = 88, inv_currency = ''NOK'', status = pending,
      dueDate = ''2025-03-30'', stripeInvoiceId = Some ''in_1Feb'', stripePaymentIntentId = None,
      paidAt = None\<rparr>"

definition billed :: db where
  "billed = shop\<lparr>emailOverageInvoices := [febInvoice], invoiceSeq := 1\<rparr>"

definition paidEvent :: webhook_input where
  "paidEvent =
     \<lparr>in_stripeInvoiceId = ''in_1Feb'', in_status = ev_paid, in_paidAt = Some ''2025-03-02T10:00:00Z''\<rparr>"

definition failedEvent :: webhook_input where
  "failedEvent = \<lparr>in_stripeInvoiceId = ''in_1Feb'', in_status = ev_failed, in_paidAt = None\<rparr>"

definition strayEvent :: webhook_input where
  "strayEvent = \<lparr>in_stripeInvoiceId = ''in_test_0'', in_status = ev_paid, in_paidAt = None\<rparr>"

definition stripeFailed :: stripe_event where
  "stripeFailed =
     \<lparr>event_type = ''invoice.payment_failed'',
      data_object = \<lparr>stripe_id = ''in_1Feb'', status_transition = None, payment_intent = None\<rparr>\<rparr>"

definition stripePaid :: stripe_event where
  "stripePaid =
     \<lparr>event_type = ''invoice.payment_succeeded'',
      data_object = \<lparr>stripe_id = ''in_1Feb'', status_transition = Some (Some 1740909600),
                      payment_intent = Some ''pi_1Feb''\<rparr>\<rparr>"

definition strayFailed :: stripe_event where
  "strayFailed =
     \<lparr>event_type = ''invoice.payment_failed'',
      data_object = \<lparr>stripe_id = ''in_test_0'', status_transition = None, payment_intent = None\<rparr>\<rparr>"

definition strayPaid :: stripe_event where
  "strayPaid =
     \<lparr>event_type = ''invoice.payment_succeeded'',
      data_object = \<lparr>stripe_id = ''in_test_0'', status_transition = Some (Some 1740909600),
                      payment_intent = None\<rparr>\<rparr>"

definition febPeriod :: invoice_input where
  "febPeriod =
     \<lparr>in_tenantId = ''acme-salon-01'', in_billingPeriodStart = ''2025-02-01'',
      in_billingPeriodEnd = ''2025-02-28''\<rparr>"

definition sampleRuntime :: js_runtime where
  "sampleRuntime =
     \<lparr>newDate = (\<lambda>s. if s = ''2025-02-28''
                        then Some \<lparr>getFullYear = 2025, getMonth = 1, getDate = 28\<rparr> else None),
      dueDateISO = (\<lambda>dt. ''2025-03-30'')\<rparr>"

definition afterPayment :: db where
  "afterPayment = snd (handleStripeWebhook paidEvent billed)"

definition afterSend :: db where
  "afterSend = snd (trackEmailSend sampleIsEmail ''acme-salon-01'' welcomeMail afterPayment)"

definition busy :: tenant where
  \<comment> \<open>the example of the specification: limit 500, 620 sent, rate 0.10, VAT 25\<close>
  "busy = acme\<lparr>tenant_id := ''busy-barber-07'', emailsSentThisMonth := Some 620\<rparr>"

definition busyShop :: db where
  "busyShop = shop\<lparr>tenants := [busy]\<rparr>"

definition busyPeriod :: invoice_input where
  "busyPeriod = febPeriod\<lparr>in_tenantId := ''busy-barber-07''\<rparr>"

definition zeroPlan :: tenant where
  "zeroPlan =
     acme\<lparr>tenant_id := ''zero-plan-02'', emailMonthlyLimit := Some 0, emailsSentThisMonth := Some 10,
          emailOverageCharge := Some 0,
          currentMonthStart := Some \<lparr>getFullYear = 2025, getMonth = 2, getDate = 1\<rparr>\<rparr>"

definition smallPlan :: tenant where
  "smallPlan =
     zeroPlan\<lparr>tenant_id := ''small-plan-03'', emailMonthlyLimit := Some 40,
              emailsSentThisMonth := Some 23\<rparr>"

definition marchShop :: db where
  "marchShop = shop\<lparr>tenants := [zeroPlan, smallPlan]\<rparr>"

definition quarterPlan :: tenant where
  \<comment> \<open>the example of the specification: limit 500 and 375 sent\<close>
  "quarterPlan =
     zeroPlan\<lparr>tenant_id := ''quarter-plan-05'', emailMonthlyLimit := Some 500,
              emailsSentThisMonth := Some 375\<rparr>"

definition quarterShop :: db where
  "quarterShop = shop\<lparr>tenants := [quarterPlan]\<rparr>"

definition unsetPlan :: tenant where
  \<comment> \<open>no limit and no rate configured, 510 sent in the current month\<close>
  "unsetPlan =
     zeroPlan\<lparr>tenant_id := ''unset-plan-04'', emailMonthlyLimit := None,
              emailsSentThisMonth := Some 510, emailOverageRate := None\<rparr>"

definition unsetShop :: db where
  "unsetShop = shop\<lparr>tenants := [unsetPlan]\<rparr>"

definition unsetPeriod :: invoice_input where
  "unsetPeriod = febPeriod\<lparr>in_tenantId := ''unset-plan-04''\<rparr>"

definition twoSends :: "request list" where
  "twoSends = [called ''acme-salon-01'' welcomeMail, called ''acme-salon-01'' welcomeMail]"

section \<open>The rounding of binary64 arithmetic\<close>

text \<open>
  What makes \<open>fl\<close> the rounding to nearest: the exponent taken for a value brackets
  it, the result is within half a unit in the last place, integers below \<open>2^53\<close> are
  kept, and the textbook values come out.
\<close>

lemma pow2_pos [simp]: "0 < pow2 e"
  by (simp add: pow2_def)

lemma pow2_nonzero [simp]: "pow2 e \<noteq> 0"
  by (simp add: pow2_def)

lemma pow2_nonneg [simp]: "0 \<le> pow2 e"
  by (simp add: pow2_def)

lemma pow2_Suc: "pow2 (e + 1) = 2 * pow2 e"
proof (cases "0 \<le> e")
  case True
  then show ?thesis by (simp add: pow2_def nat_add_distrib)
next
  case False
  then have "nat (- e) = Suc (nat (- (e + 1)))" by simp
  with False show ?thesis
    by (cases "e = -1") (simp_all add: pow2_def)
qed

lemma ilog2_bounds:
  assumes "x \<noteq> 0"
  shows "pow2 (ilog2 x) \<le> \<bar>x\<bar> \<and> \<bar>x\<bar> < pow2 (ilog2 x + 1)"
proof (cases "1 \<le> \<bar>x\<bar>")
  case True
  define n where "n = \<lfloor>\<bar>x\<bar>\<rfloor>"
  have n: "0 < n" "of_int n \<le> \<bar>x\<bar>" "\<bar>x\<bar> < of_int n + 1"
    using True floor_correct [of "\<bar>x\<bar>"] by (simp_all add: n_def)
  from bitlen_bounds [OF n(1)] have b: "2 ^ nat (bitlen n - 1) \<le> n" "n < 2 ^ nat (bitlen n)"
    by simp_all
  have k: "1 \<le> bitlen n"
    using n(1) bitlen_eq_zero_iff [of n] bitlen_nonneg [of n] by linarith
  have e: "ilog2 x = bitlen n - 1"
    using True by (simp add: ilog2_def n_def)
  have "(2::rat) ^ nat (bitlen n - 1) \<le> of_int n"
    using b(1) by (metis of_int_le_iff of_int_numeral of_int_power)
  from order_trans [OF this n(2)] have lo: "pow2 (ilog2 x) \<le> \<bar>x\<bar>"
    using k by (simp add: e pow2_def)
  have "n + 1 \<le> 2 ^ nat (bitlen n)"
    using b(2) by simp
  then have "(of_int (n + 1) :: rat) \<le> of_int (2 ^ nat (bitlen n))"
    by (simp only: of_int_le_iff)
  then have "\<bar>x\<bar> < 2 ^ nat (bitlen n)"
    using n(3) by simp
  then have "\<bar>x\<bar> < pow2 (ilog2 x + 1)"
    using k by (simp add: e pow2_def)
  with lo show ?thesis by simp
next
  case False
  define y where "y = 1 / \<bar>x\<bar>"
  define m where "m = \<lceil>y\<rceil> - 1"
  have x: "0 < \<bar>x\<bar>" "\<bar>x\<bar> < 1"
    using assms False by simp_all
  then have y: "1 < y"
    by (simp add: y_def)
  have m: "0 < m" "of_int m < y" "y \<le> of_int m + 1"
    using y by (simp_all add: m_def less_ceiling_iff) linarith+
  from bitlen_bounds [OF m(1)] have b: "2 ^ nat (bitlen m - 1) \<le> m" "m < 2 ^ nat (bitlen m)"
    by simp_all
  have k: "1 \<le> bitlen m"
    using m(1) bitlen_eq_zero_iff [of m] bitlen_nonneg [of m] by linarith
  have e: "ilog2 x = - bitlen m"
    using False by (simp add: ilog2_def m_def y_def)
  have "m + 1 \<le> 2 ^ nat (bitlen m)"
    using b(2) by simp
  then have "(of_int (m + 1) :: rat) \<le> of_int (2 ^ nat (bitlen m))"
    by (simp only: of_int_le_iff)
  then have "y \<le> 2 ^ nat (bitlen m)"
    using m(3) by simp
  then have "1 / \<bar>x\<bar> \<le> 2 ^ nat (bitlen m)"
    by (simp add: y_def)
  then have "1 \<le> 2 ^ nat (bitlen m) * \<bar>x\<bar>"
    using x(1) by (simp add: pos_divide_le_eq)
  then have lo: "pow2 (ilog2 x) \<le> \<bar>x\<bar>"
    using k by (simp add: e pow2_def pos_divide_le_eq mult.commute)
  have "(2::rat) ^ nat (bitlen m - 1) \<le> of_int m"
    using b(1) by (metis of_int_le_iff of_int_numeral of_int_power)
  from order_le_less_trans [OF this m(2)] have "2 ^ nat (bitlen m - 1) < 1 / \<bar>x\<bar>"
    by (simp add: y_def)
  then have "2 ^ nat (bitlen m - 1) * \<bar>x\<bar> < 1"
    using x(1) by (simp add: pos_less_divide_eq)
  then have hi: "\<bar>x\<bar> < 1 / 2 ^ nat (bitlen m - 1)"
    by (simp add: pos_less_divide_eq mult.commute)
  have "pow2 (ilog2 x + 1) = 1 / 2 ^ nat (bitlen m - 1)"
  proof (cases "bitlen m = 1")
    case True
    then show ?thesis by (simp add: e pow2_def)
  next
    case False
    with k have "\<not> 0 \<le> - bitlen m + 1" "nat (- (- bitlen m + 1)) = nat (bitlen m - 1)"
      by simp_all
    then show ?thesis by (simp add: e pow2_def)
  qed
  with lo hi show ?thesis by simp
qed

lemma roundTiesToEven_near: "\<bar>of_int (roundTiesToEven y) - y\<bar> \<le> 1 / 2"
proof -
  have "of_int \<lfloor>y\<rfloor> \<le> y" "y < of_int \<lfloor>y\<rfloor> + 1"
    using floor_correct [of y] by simp_all
  then show ?thesis
    unfolding roundTiesToEven_def Let_def
    by (simp add: abs_if) linarith
qed

lemma roundTiesToEven_of_int [simp]: "roundTiesToEven (of_int n) = n"
  by (simp add: roundTiesToEven_def)

lemma fl_nearest:
  assumes "x \<noteq> 0"
  shows "\<bar>fl x - x\<bar> \<le> pow2 (max (ilog2 x) (- 1022) - 52) / 2"
proof -
  let ?u = "pow2 (max (ilog2 x) (- 1022) - 52)"
  have u: "0 < ?u" by simp
  have u0: "?u \<noteq> 0"
    by simp
  have "fl x - x = (of_int (roundTiesToEven (x / ?u)) - x / ?u) * ?u"
    using assms u0 by (simp add: fl_def Let_def algebra_simps)
  moreover have "\<bar>?u\<bar> = ?u"
    using u by (rule abs_of_pos)
  ultimately have "\<bar>fl x - x\<bar> = \<bar>of_int (roundTiesToEven (x / ?u)) - x / ?u\<bar> * ?u"
    by (simp only: abs_mult)
  also have "\<dots> \<le> 1 / 2 * ?u"
    using roundTiesToEven_near [of "x / ?u"] u by (intro mult_right_mono) simp_all
  finally show ?thesis by simp
qed

lemma pow2_power_int: "pow2 e = power_int 2 e"
  by (simp add: pow2_def power_int_def field_simps)

lemma pow2_add: "pow2 (a + b) = pow2 a * pow2 b"
  by (simp add: pow2_power_int power_int_add)

lemma pow2_mono: "a \<le> b \<Longrightarrow> pow2 a \<le> pow2 b"
  by (simp add: pow2_power_int power_int_increasing)

lemma pow2_less_D: "pow2 a < pow2 b \<Longrightarrow> a < b"
  using pow2_mono [of b a] by (cases "a < b") simp_all

lemma ilog2_ge:
  assumes "pow2 q \<le> \<bar>x\<bar>"
  shows "q \<le> ilog2 x"
proof -
  have "x \<noteq> 0"
  proof
    assume "x = 0"
    with assms have "pow2 q \<le> 0" by simp
    moreover have "0 < pow2 q" by simp
    ultimately show False by linarith
  qed
  from ilog2_bounds [OF this] assms have "pow2 q < pow2 (ilog2 x + 1)"
    by simp
  from pow2_less_D [OF this] show ?thesis by simp
qed

lemma ilog2_less:
  assumes "x \<noteq> 0" and "\<bar>x\<bar> < pow2 q"
  shows "ilog2 x < q"
proof -
  from ilog2_bounds [OF assms(1)] assms(2) have "pow2 (ilog2 x) < pow2 q"
    by simp
  then show ?thesis by (rule pow2_less_D)
qed

lemma fl_relative:
  assumes "pow2 (- 1022) \<le> \<bar>x\<bar>"
  shows "\<bar>fl x - x\<bar> \<le> \<bar>x\<bar> * unit_roundoff"
proof -
  have x: "x \<noteq> 0"
  proof
    assume "x = 0"
    with assms have "pow2 (- 1022) \<le> 0" by simp
    moreover have "0 < pow2 (- 1022)" by simp
    ultimately show False by linarith
  qed
  have e: "- 1022 \<le> ilog2 x"
    using assms by (rule ilog2_ge)
  have "pow2 (ilog2 x - 52) = pow2 (ilog2 x) * pow2 (- 52)"
    using pow2_add [of "ilog2 x" "- 52"] by simp
  also have "pow2 (- 52) = 1 / 2 ^ 52"
    by (simp add: pow2_def)
  finally have u: "pow2 (max (ilog2 x) (- 1022) - 52) = pow2 (ilog2 x) / 2 ^ 52"
    using e by (simp add: max_def)
  have "\<bar>fl x - x\<bar> \<le> pow2 (ilog2 x) / 2 ^ 52 / 2"
    using fl_nearest [OF x] by (simp only: u)
  also have "\<dots> = pow2 (ilog2 x) / 2 ^ 53"
    by simp
  also have "\<dots> \<le> \<bar>x\<bar> / 2 ^ 53"
    using ilog2_bounds [OF x] by (simp add: divide_right_mono)
  finally show ?thesis
    by (simp add: unit_roundoff_def)
qed

lemma fl_of_int:
  assumes "\<bar>n\<bar> < 2 ^ 53"
  shows "fl (of_int n) = of_int n"
proof (cases "n = 0")
  case True
  then show ?thesis by (simp add: fl_def)
next
  case False
  let ?x = "of_int n :: rat"
  have x: "?x \<noteq> 0"
    using False by simp
  have "1 \<le> \<bar>n\<bar>"
    using False by linarith
  then have "(1::rat) \<le> of_int \<bar>n\<bar>"
    by (simp only: of_int_1_le_iff)
  then have "1 \<le> \<bar>?x\<bar>"
    by simp
  then have "pow2 0 \<le> \<bar>?x\<bar>"
    by (simp add: pow2_def)
  then have lo: "0 \<le> ilog2 ?x"
    by (rule ilog2_ge)
  have "\<bar>?x\<bar> < pow2 53"
    using assms by (simp add: pow2_def flip: of_int_abs)
  with x have hi: "ilog2 ?x < 53"
    by (rule ilog2_less)
  define k where "k = nat (52 - ilog2 ?x)"
  have u: "pow2 (max (ilog2 ?x) (- 1022) - 52) = 1 / 2 ^ k"
    using lo hi by (simp add: max_def pow2_def k_def)
  have "?x / (1 / 2 ^ k) = of_int (n * 2 ^ k)"
    by simp
  then have "of_int (roundTiesToEven (?x / (1 / 2 ^ k))) * (1 / 2 ^ k) = ?x"
    by (simp only: roundTiesToEven_of_int) simp
  then show ?thesis
    using x by (simp add: fl_def Let_def u)
qed

lemma fl_one_tenth: "fl (1 / 10) = 3602879701896397 / 36028797018963968"
  by code_simp

lemma one_tenth_plus_two_tenths: "num_add (fl (1 / 10)) (fl (2 / 10)) = fl (3 / 10) + 1 / 2 ^ 54"
  by code_simp

lemma fl_beyond_53_bits: "fl 9007199254740993 = 9007199254740992"
  by code_simp

lemma unit_roundoff_pos: "0 < unit_roundoff"
  by (simp add: unit_roundoff_def)

lemma fl_bounds:
  assumes "pow2 (- 1022) \<le> x"
  shows "x - x * unit_roundoff \<le> fl x \<and> fl x \<le> x + x * unit_roundoff"
proof -
  have "0 < pow2 (- 1022)" by simp
  with assms have x: "0 < x" by linarith
  then have "pow2 (- 1022) \<le> \<bar>x\<bar>"
    using assms by simp
  from fl_relative [OF this] x have "\<bar>fl x - x\<bar> \<le> x * unit_roundoff"
    by simp
  then show ?thesis
    by linarith
qed

lemma tiny_le_hundredth: "pow2 (- 1022) \<le> 1 / 128"
proof -
  have "pow2 (- 1022) \<le> pow2 (- 7)"
    by (rule pow2_mono) simp
  then show ?thesis by (simp add: pow2_def)
qed

lemma floor_half_eq:
  fixes x :: rat
  assumes "\<bar>x - of_int c\<bar> < 1 / 2"
  shows "\<lfloor>x + 1 / 2\<rfloor> = c"
proof (rule floor_unique)
  show "of_int c \<le> x + 1 / 2"
    using assms by linarith
  show "x + 1 / 2 < of_int c + 1"
    using assms by linarith
qed

lemma toFixed2_parseFloat:
  assumes "0 \<le> c" and "c < 2 ^ 52"
  shows "toFixed2 (parseFloat c) = c"
proof (cases "c = 0")
  case True
  have "\<lfloor>(1::rat) / 2\<rfloor> = 0"
    by (rule floor_unique) simp_all
  with True show ?thesis by (simp add: toFixed2_def parseFloat_def fl_def)
next
  case False
  define x :: rat where "x = of_int c / 100"
  have c1: "(1::rat) \<le> of_int c"
    using assms(1) False by simp
  then have "1 / 128 \<le> x"
    by (simp add: x_def)
  with tiny_le_hundredth have lo: "pow2 (- 1022) \<le> x"
    by linarith
  have chi: "(of_int c :: rat) < 2 ^ 52"
    using assms(2) by (metis of_int_less_iff of_int_numeral of_int_power)
  note b = fl_bounds [OF lo]
  have xc: "x * 100 = of_int c"
    by (simp add: x_def)
  have "of_int c * unit_roundoff < 2 ^ 52 * unit_roundoff"
    using chi unit_roundoff_pos by (simp only: mult_strict_right_mono)
  also have "2 ^ 52 * unit_roundoff = 1 / 2"
    by (simp add: unit_roundoff_def)
  finally have "of_int c * unit_roundoff < 1 / 2" .
  moreover have "x * unit_roundoff * 100 = of_int c * unit_roundoff"
    by (simp add: x_def)
  ultimately have e: "x * unit_roundoff * 100 < 1 / 2"
    by (simp only:)
  have xu: "0 \<le> x * unit_roundoff"
    using c1 unit_roundoff_pos by (simp add: x_def)
  have small: "x * unit_roundoff \<le> x"
  proof -
    have "unit_roundoff \<le> 1" by (simp add: unit_roundoff_def)
    moreover have "0 \<le> x" using c1 by (simp add: x_def)
    ultimately show ?thesis by (simp add: mult_left_le)
  qed
  have pos: "\<not> fl x < 0"
    using b small by linarith
  have "\<bar>fl x * 100 - of_int c\<bar> < 1 / 2"
    using b e xc by linarith
  then have "\<lfloor>fl x * 100 + 1 / 2\<rfloor> = c"
    by (rule floor_half_eq)
  with pos show ?thesis
    by (simp add: toFixed2_def parseFloat_def x_def)
qed

lemma tiny_le_2_61: "pow2 (- 1022) \<le> 1 / 2 ^ 61"
proof -
  have "pow2 (- 1022) \<le> pow2 (- 61)"
    by (rule pow2_mono) simp
  then show ?thesis by (simp add: pow2_def)
qed

lemma unit_roundoff_le_half: "unit_roundoff \<le> 1 / 2"
  by (simp add: unit_roundoff_def)

lemma fl_scaled:
  assumes k: "1 \<le> k" and x: "1 / 2 ^ 60 \<le> x"
  shows "\<bar>fl (k * fl x) - k * x\<bar> \<le> k * x * unit_roundoff * 3 \<and> 0 \<le> fl (k * fl x)"
proof -
  define a where "a = x * unit_roundoff"
  define p where "p = k * fl x"
  define c where "c = p * unit_roundoff"
  have x0: "0 < x"
  proof -
    have "(0::rat) < 1 / 2 ^ 60" by simp
    with x show ?thesis by linarith
  qed
  have "1 / 2 ^ 61 \<le> x"
  proof -
    have "(1::rat) / 2 ^ 61 \<le> 1 / 2 ^ 60" by simp
    with x show ?thesis by linarith
  qed
  with tiny_le_2_61 have "pow2 (- 1022) \<le> x"
    by linarith
  from fl_bounds [OF this] have r: "x - a \<le> fl x" "fl x \<le> x + a"
    by (simp_all add: a_def)
  have a: "0 \<le> a" "a \<le> x / 2"
  proof -
    show "0 \<le> a"
      using x0 unit_roundoff_pos by (simp add: a_def)
    have "x * unit_roundoff \<le> x * (1 / 2)"
      using x0 unit_roundoff_le_half by (simp only: mult_left_mono less_imp_le)
    then show "a \<le> x / 2"
      by (simp add: a_def)
  qed
  have k0: "0 \<le> k"
    using k by linarith
  have pl: "k * (x - a) \<le> p" and pu: "p \<le> k * (x + a)"
    using r k0 by (simp_all add: p_def mult_left_mono)
  have kx: "x / 2 \<le> k * (x - a)"
  proof -
    have "1 * (x - a) \<le> k * (x - a)"
      using k a x0 by (intro mult_right_mono) linarith+
    then have "x - a \<le> k * (x - a)"
      by simp
    with a show ?thesis by linarith
  qed
  have "1 / 2 ^ 61 \<le> x / 2"
    using x by simp
  with tiny_le_2_61 kx pl have "pow2 (- 1022) \<le> p"
    by linarith
  from fl_bounds [OF this] have s: "p - c \<le> fl p" "fl p \<le> p + c"
    by (simp_all add: c_def)
  have pl': "k * x - k * a \<le> p" and pu': "p \<le> k * x + k * a"
    using pl pu by (simp_all add: algebra_simps)
  have ka0: "0 \<le> k * a" "k * a \<le> k * x / 2"
  proof -
    show "0 \<le> k * a"
      using k0 a(1) by simp
    have "k * a \<le> k * (x / 2)"
      using k0 a(2) by (rule mult_left_mono [rotated])
    then show "k * a \<le> k * x / 2" by simp
  qed
  have p0: "0 \<le> p"
    using pl kx x0 by linarith
  have c: "0 \<le> c" "c \<le> k * a * 2"
  proof -
    show "0 \<le> c"
      using p0 unit_roundoff_pos by (simp add: c_def)
    have "p \<le> k * x * 2"
      using pu' ka0 by linarith
    then have "p * unit_roundoff \<le> k * x * 2 * unit_roundoff"
      using unit_roundoff_pos by (simp only: mult_right_mono less_imp_le)
    then show "c \<le> k * a * 2"
      by (simp add: c_def a_def algebra_simps)
  qed
  have "\<bar>fl p - k * x\<bar> \<le> k * a * 3"
    using s pl' pu' c by linarith
  moreover have "k * a * 3 = k * x * unit_roundoff * 3"
    by (simp add: a_def)
  moreover have "0 \<le> fl p"
  proof -
    have "c \<le> p"
    proof -
      have "p * unit_roundoff \<le> p * 1"
        using p0 unit_roundoff_le_half by (intro mult_left_mono) linarith+
      then show ?thesis by (simp add: c_def)
    qed
    with s show ?thesis by linarith
  qed
  ultimately show ?thesis
    by (simp add: p_def)
qed

lemma floor_half: "\<lfloor>(1::rat) / 2\<rfloor> = 0"
  by (rule floor_unique) simp_all

lemma num_of_int_exact:
  assumes "\<bar>n\<bar> < 2 ^ 53"
  shows "num_of_int n = of_int n"
  using assms by (simp add: num_of_int_def fl_of_int)

lemma num_sub_exact:
  assumes "\<bar>a - b\<bar> < 2 ^ 53"
  shows "num_sub (of_int a) (of_int b) = of_int (a - b)"
  using fl_of_int [OF assms] by (simp add: num_sub_def)

lemma num_add_one_exact:
  assumes "\<bar>n + 1\<bar> < 2 ^ 53"
  shows "num_add (of_int n) 1 = of_int (n + 1)"
  using fl_of_int [OF assms] by (simp add: num_add_def)

lemma max_of_int_rat: "max 0 (of_int n :: rat) = of_int (max 0 n)"
  by (simp add: max_def)

lemma int_of_num_of_int [simp]: "int_of_num (of_int n) = n"
  by (simp add: int_of_num_def)

lemma counter_stays_at_2_53:
  "int_of_num (num_add (num_of_int 9007199254740992) 1) = 9007199254740992"
  by code_simp

lemma percentOf_zero_used: "percentOf 0 l = 0"
  by (simp add: percentOf_def num_div_def num_mul_def fl_def Math_round_def floor_half)

lemma percent_double:
  assumes "0 < u" and "0 < l" and "l < 2 ^ 53"
  shows "\<bar>num_mul (num_div (of_int u) (of_int l)) 100 - 100 * of_int u / of_int l\<bar>
         \<le> 100 * of_int u / of_int l * unit_roundoff * 3"
proof -
  define x :: rat where "x = of_int u / of_int l"
  have l0: "(0::rat) < of_int l" and u1: "(1::rat) \<le> of_int u"
    using assms by simp_all
  have "(of_int l :: rat) < 2 ^ 53"
    using assms(3) by (metis of_int_less_iff of_int_numeral of_int_power)
  then have "(of_int l :: rat) \<le> 2 ^ 60"
    by simp
  then have "1 / 2 ^ 60 \<le> 1 / (of_int l :: rat)"
    using l0 by (simp add: frac_le)
  also have "1 / of_int l \<le> x"
    using l0 u1 by (simp add: x_def divide_right_mono)
  finally have x: "1 / 2 ^ 60 \<le> x" .
  from fl_scaled [of 100 x, OF _ x]
  have "\<bar>fl (100 * fl x) - 100 * x\<bar> \<le> 100 * x * unit_roundoff * 3"
    by simp
  then show ?thesis
    by (simp add: num_mul_def num_div_def x_def mult.commute)
qed

lemma percentOf_not_halfway:
  assumes "0 \<le> u" and "u < 2 ^ 43" and "0 < l" and "l < 2 ^ 53" and "\<not> halfway u l"
  shows "percentOf (of_int u) (of_int l) = round_half_up (100 * of_int u / of_int l)"
proof (cases "u = 0")
  case True
  then show ?thesis
    by (simp add: percentOf_zero_used round_half_up_def floor_half)
next
  case False
  with assms(1) have u: "0 < u" by simp
  define r where "r = num_mul (num_div (of_int u) (of_int l)) 100"
  define v :: rat where "v = 100 * of_int u / of_int l"
  define w :: rat where "w = 1 / (2 * of_int l)"
  define m where "m = 200 * u + l"
  define q where "q = m div (2 * l)"
  define k where "k = m mod (2 * l)"
  define a :: rat where "a = of_int k * w"
  define c :: rat where "c = 600 * of_int u * unit_roundoff"
  have l0: "(0::rat) < of_int l"
    using assms(3) by simp
  have w0: "0 < w"
    using l0 by (simp add: w_def)
  have lw: "2 * of_int l * w = 1"
    using l0 by (simp add: w_def)
  have k0: "k \<noteq> 0"
    using assms(5) by (simp add: halfway_def k_def m_def)
  have "0 \<le> k" and "k < 2 * l"
    using assms(3) by (simp_all add: k_def)
  with k0 have k1: "1 \<le> k" and k2: "k \<le> 2 * l - 1"
    by simp_all
  have "(1::rat) \<le> of_int k"
    using k1 by simp
  then have "1 * w \<le> of_int k * w"
    using w0 by (simp only: mult_right_mono less_imp_le)
  then have a1: "w \<le> a"
    by (simp add: a_def)
  have "(of_int k :: rat) \<le> of_int (2 * l - 1)"
    using k2 by (simp only: of_int_le_iff)
  then have "of_int k * w \<le> of_int (2 * l - 1) * w"
    using w0 by (simp only: mult_right_mono less_imp_le)
  also have "of_int (2 * l - 1) * w = 2 * of_int l * w - w"
    by (simp add: algebra_simps)
  finally have a2: "a \<le> 1 - w"
    using lw by (simp add: a_def)
  have "m = q * (2 * l) + k"
    by (simp only: q_def k_def div_mult_mod_eq)
  then have "(of_int m :: rat) = of_int (q * (2 * l) + k)"
    by simp
  then have "(of_int m :: rat) * w = of_int q * (2 * of_int l * w) + of_int k * w"
    by (simp add: algebra_simps)
  then have mw: "of_int m * w = of_int q + a"
    using lw by (simp add: a_def)
  have "of_int m * w = v + 1 / 2"
    using l0 by (simp add: m_def w_def v_def field_simps)
  with mw have vq: "v + 1 / 2 = of_int q + a"
    by simp
  have "(of_int u :: rat) < 2 ^ 43"
    using assms(2) by (metis of_int_less_iff of_int_numeral of_int_power)
  then have "of_int u * unit_roundoff \<le> 2 ^ 43 * unit_roundoff"
    using unit_roundoff_pos by (simp only: mult_right_mono less_imp_le)
  also have "2 ^ 43 * unit_roundoff = 1 / 1024"
    by (simp add: unit_roundoff_def)
  finally have "of_int u * unit_roundoff \<le> 1 / 1024" .
  then have c1: "c < 1"
    by (simp add: c_def)
  have "c * w < 1 * w"
    using c1 w0 by (simp only: mult_strict_right_mono)
  then have cw: "c * w < w"
    by simp
  have "v * unit_roundoff * 3 = c * w"
    using l0 by (simp add: v_def c_def w_def field_simps)
  with percent_double [OF u assms(3,4)] have "\<bar>r - v\<bar> \<le> c * w"
    by (simp only: r_def v_def)
  with cw have rv: "\<bar>r - v\<bar> < w"
    by linarith
  have "of_int q \<le> r + 1 / 2" and "r + 1 / 2 < of_int q + 1"
    using rv vq a1 a2 by linarith+
  then have "\<lfloor>r + 1 / 2\<rfloor> = q"
    by (simp only: floor_unique)
  moreover have "of_int q \<le> v + 1 / 2" and "v + 1 / 2 < of_int q + 1"
    using vq a1 a2 w0 by linarith+
  then have "\<lfloor>v + 1 / 2\<rfloor> = q"
    by (simp only: floor_unique)
  ultimately show ?thesis
    using assms(3) by (simp add: percentOf_def Math_round_def round_half_up_def r_def v_def)
qed

lemma stored_product_exact:
  assumes "1 \<le> n" and "0 \<le> c" and "n * c < 2 ^ 50"
  shows "toFixed2 (num_mul (of_int n) (parseFloat c)) = n * c"
proof (cases "c = 0")
  case True
  then show ?thesis
    by (simp add: toFixed2_def parseFloat_def num_mul_def fl_def floor_half)
next
  case False
  define x :: rat where "x = of_int c / 100"
  define s where "s = fl (of_int n * fl x)"
  have c1: "(1::rat) \<le> of_int c"
    using assms(2) False by simp
  then have "1 / 100 \<le> x"
    by (simp add: x_def)
  moreover have "(1::rat) / 2 ^ 60 \<le> 1 / 100"
    by simp
  ultimately have x: "1 / 2 ^ 60 \<le> x"
    by linarith
  have n1: "(1::rat) \<le> of_int n"
    using assms(1) by simp
  from fl_scaled [OF n1 x]
  have b: "\<bar>s - of_int n * x\<bar> \<le> of_int n * x * unit_roundoff * 3" and pos: "0 \<le> s"
    by (simp_all add: s_def)
  have nx: "of_int n * x * 100 = of_int (n * c)"
    by (simp add: x_def)
  have "(of_int (n * c) :: rat) < 2 ^ 50"
    using assms(3) by (metis of_int_less_iff of_int_numeral of_int_power)
  then have "of_int (n * c) * unit_roundoff \<le> 2 ^ 50 * unit_roundoff"
    using unit_roundoff_pos by (simp only: mult_right_mono less_imp_le)
  also have "2 ^ 50 * unit_roundoff = 1 / 8"
    by (simp add: unit_roundoff_def)
  finally have e: "of_int (n * c) * unit_roundoff \<le> 1 / 8" .
  have "of_int n * x * unit_roundoff * 3 * 100 = of_int (n * c) * unit_roundoff * 3"
    using nx by (simp add: algebra_simps)
  with e have "of_int n * x * unit_roundoff * 3 * 100 \<le> 3 / 8"
    by linarith
  with b nx have "\<bar>s * 100 - of_int (n * c)\<bar> < 1 / 2"
    by linarith
  then have "\<lfloor>s * 100 + 1 / 2\<rfloor> = n * c"
    by (rule floor_half_eq)
  with pos show ?thesis
    by (simp add: toFixed2_def parseFloat_def num_mul_def x_def s_def)
qed

section \<open>Lookups after updates\<close>

lemma find_map_update:
  assumes "\<And>t. tenant_id (f t) = tenant_id t"
  shows "find (\<lambda>t. tenant_id t = k) (map (\<lambda>t. if tenant_id t = k then f t else t) xs)
         = map_option f (find (\<lambda>t. tenant_id t = k) xs)"
  by (induction xs) (simp_all add: assms)

lemma findTenant_updateTenants:
  assumes "\<And>t. tenant_id (f t) = tenant_id t"
  shows "findTenant k (updateTenants f k d) = map_option f (findTenant k d)"
  using find_map_update [of f k "tenants d", OF assms]
  by (simp add: findTenant_def updateTenants_def)

lemma connected_updateTenants [simp]: "connected (updateTenants f k d) = connected d"
  by (simp add: updateTenants_def)

lemma tenant_id_resetCounters [simp]: "tenant_id (resetCounters now t) = tenant_id t"
  by (simp add: resetCounters_def)

lemma tenant_id_countSend [simp]: "tenant_id (countSend t row) = tenant_id row"
  by (simp add: countSend_def)

lemma findTenant_insertLog [simp]: "findTenant k (insertLog l d) = findTenant k d"
  by (simp add: findTenant_def insertLog_def)

lemma currentMonthStart_countSend [simp]: "currentMonthStart (countSend t row) = currentMonthStart row"
  by (simp add: countSend_def)

lemma sentOf_exact:
  assumes "\<bar>or_int (emailsSentThisMonth t) 0\<bar> < 2 ^ 53"
  shows "sentOf t = of_int (or_int (emailsSentThisMonth t) 0)"
  using assms by (simp only: sentOf_def num_of_int_exact)

lemma limitOf_exact:
  assumes "\<bar>or_int (emailMonthlyLimit t) 500\<bar> < 2 ^ 53"
  shows "limitOf t = of_int (or_int (emailMonthlyLimit t) 500)"
  using assms by (simp only: limitOf_def num_of_int_exact)

lemma usedAfterSend_exact:
  assumes "\<bar>or_int (emailsSentThisMonth t) 0\<bar> < 2 ^ 53 - 1"
  shows "usedAfterSend t = of_int (or_int (emailsSentThisMonth t) 0 + 1)"
proof -
  from assms have a: "\<bar>or_int (emailsSentThisMonth t) 0\<bar> < 2 ^ 53"
    and b: "\<bar>or_int (emailsSentThisMonth t) 0 + 1\<bar> < 2 ^ 53"
    by simp_all
  show ?thesis
    by (simp only: usedAfterSend_def sentOf_exact [OF a] num_add_one_exact [OF b])
qed

lemma trackEmailSend_found:
  assumes "isEmail (in_recipientEmail inp)" and "connected d" and "findTenant tenantId d = Some t"
  shows "trackEmailSend isEmail tenantId inp d
         = (Inr (sendResult t), insertLog (sendLog tenantId inp t) (updateTenants (countSend t) tenantId d))"
  using assms by (simp add: trackEmailSend_def)

lemma trackEmailSend_period_starts:
  "map currentMonthStart (tenants (snd (trackEmailSend isEmail tenantId inp d)))
   = map currentMonthStart (tenants d)"
  by (simp add: trackEmailSend_def insertLog_def updateTenants_def o_def split: option.splits)

section \<open>getUsage\<close>




section \<open>trackEmailSend\<close>

text \<open>
  C10. \<open>trackEmailSend\<close> makes no period check and leaves the stored period start of
  every row as it was, whatever the call does. Even when the stored period start is
  stale for the clock (so that \<open>getUsage\<close> would reset), a call with a valid input adds
  one to the stored counter and the overage cost to the stored charge: the result's
  \<open>totalUsed\<close> and the counter written are the number \<open>(emailsSentThisMonth || 0) + 1\<close>,
  which is the stored counter plus one for every counter below \<open>2^53 - 1\<close> in magnitude.
\<close>

theorem trackEmailSend_ignores_period:
  assumes "connected d" and "findTenant tenantId d = Some t"
    and "needsReset now (currentMonthStart t)"
    and "isEmail (in_recipientEmail inp)"
  shows "fst (trackEmailSend isEmail tenantId inp d) = Inr (sendResult t)
       \<and> totalUsed (sendResult t) = usedAfterSend t
       \<and> findTenant tenantId (snd (trackEmailSend isEmail tenantId inp d)) = Some (countSend t t)
       \<and> emailsSentThisMonth (countSend t t) = Some (int_of_num (usedAfterSend t))
       \<and> (\<bar>or_int (emailsSentThisMonth t) 0\<bar> < 2 ^ 53 - 1
            \<longrightarrow> totalUsed (sendResult t) = of_int (or_int (emailsSentThisMonth t) 0 + 1)
              \<and> emailsSentThisMonth (countSend t t) = Some (or_int (emailsSentThisMonth t) 0 + 1))
       \<and> emailOverageCharge (countSend t t)
           = Some (toFixed2 (num_add (parseFloat (or_dec (emailOverageCharge t) 0)) (sendOverageCost t)))
       \<and> currentMonthStart (countSend t t) = currentMonthStart t
       \<and> map currentMonthStart (tenants (snd (trackEmailSend isEmail tenantId inp d)))
           = map currentMonthStart (tenants d)"
proof -
  note r = trackEmailSend_found [where isEmail = isEmail and inp = inp, OF assms(4,1,2)]
  have a: "fst (trackEmailSend isEmail tenantId inp d) = Inr (sendResult t)"
    by (simp add: r)
  have b: "totalUsed (sendResult t) = usedAfterSend t"
    by (simp add: sendResult_def)
  have c: "findTenant tenantId (snd (trackEmailSend isEmail tenantId inp d)) = Some (countSend t t)"
    using assms(2) by (simp add: r findTenant_updateTenants)
  have e: "emailsSentThisMonth (countSend t t) = Some (int_of_num (usedAfterSend t))"
    by (simp add: countSend_def)
  have f: "\<bar>or_int (emailsSentThisMonth t) 0\<bar> < 2 ^ 53 - 1
            \<longrightarrow> totalUsed (sendResult t) = of_int (or_int (emailsSentThisMonth t) 0 + 1)
              \<and> emailsSentThisMonth (countSend t t) = Some (or_int (emailsSentThisMonth t) 0 + 1)"
    by (simp add: sendResult_def countSend_def usedAfterSend_exact int_of_num_def)
  have g: "emailOverageCharge (countSend t t)
           = Some (toFixed2 (num_add (parseFloat (or_dec (emailOverageCharge t) 0)) (sendOverageCost t)))"
    by (simp add: countSend_def)
  have h: "currentMonthStart (countSend t t) = currentMonthStart t"
    by simp
  show ?thesis
    by (intro conjI) (fact a b c e f g h trackEmailSend_period_starts)+
qed

theorem trackEmailSend_ignores_period_witness:
  "connected shop \<and> findTenant ''acme-salon-01'' shop = Some acme
   \<and> needsReset mar15 (currentMonthStart acme)
   \<and> sampleIsEmail (in_recipientEmail welcomeMail)
   \<and> \<bar>or_int (emailsSentThisMonth acme) 0\<bar> < 2 ^ 53 - 1
   \<and> totalUsed (sendResult acme) = 508
   \<and> emailsSentThisMonth (countSend acme acme) = Some 508
   \<and> currentMonthStart (countSend acme acme) = Some \<lparr>getFullYear = 2025, getMonth = 1, getDate = 1\<rparr>
   \<and> findTenant ''acme-salon-01'' (snd (trackEmailSend sampleIsEmail ''acme-salon-01'' welcomeMail shop))
       = Some (countSend acme acme)"
proof -
  have h1: "connected shop" and h2: "findTenant ''acme-salon-01'' shop = Some acme"
    and h3: "needsReset mar15 (currentMonthStart acme)"
    and h4: "sampleIsEmail (in_recipientEmail welcomeMail)"
    by (simp_all add: shop_def acme_def mar15_def findTenant_def needsReset_def monthsDiff_def
        sampleIsEmail_def welcomeMail_def)
  have s: "or_int (emailsSentThisMonth acme) 0 = 507"
    and c: "currentMonthStart acme = Some \<lparr>getFullYear = 2025, getMonth = 1, getDate = 1\<rparr>"
    by (simp_all add: acme_def or_int_def)
  have b: "\<bar>or_int (emailsSentThisMonth acme) 0\<bar> < 2 ^ 53 - 1"
    by (simp add: s)
  note T = trackEmailSend_ignores_period [where isEmail = sampleIsEmail and inp = welcomeMail, OF h1 h2 h3 h4]
  from T b have "totalUsed (sendResult acme) = of_int (or_int (emailsSentThisMonth acme) 0 + 1)"
    and "emailsSentThisMonth (countSend acme acme) = Some (or_int (emailsSentThisMonth acme) 0 + 1)"
    by blast+
  then have "totalUsed (sendResult acme) = 508" and "emailsSentThisMonth (countSend acme acme) = Some 508"
    by (simp_all add: s)
  moreover from T have "currentMonthStart (countSend acme acme) = currentMonthStart acme"
    and "findTenant ''acme-salon-01'' (snd (trackEmailSend sampleIsEmail ''acme-salon-01'' welcomeMail shop))
       = Some (countSend acme acme)"
    by blast+
  ultimately show ?thesis
    using h1 h2 h3 h4 b c by simp
qed

section \<open>The payment handlers\<close>

lemma find_map_keep:
  assumes "\<And>x. P (g x) = P x"
  shows "find P (map g xs) = map_option g (find P xs)"
  by (induction xs) (simp_all add: assms)

lemma connected_updateInvoices [simp]: "connected (updateInvoices f k d) = connected d"
  by (simp add: updateInvoices_def)

lemma tenants_updateInvoices [simp]: "tenants (updateInvoices f k d) = tenants d"
  by (simp add: updateInvoices_def)

lemma invoices_updateTenants [simp]:
  "emailOverageInvoices (updateTenants f k d) = emailOverageInvoices d"
  by (simp add: updateTenants_def)

lemma findByStripeId_updateTenants [simp]:
  "findByStripeId sid (updateTenants f k d) = findByStripeId sid d"
  by (simp add: findByStripeId_def)

lemma findByStripeId_updateInvoices:
  assumes "\<And>i. stripeInvoiceId (f i) = stripeInvoiceId i"
  shows "findByStripeId sid (updateInvoices f k d)
         = map_option (\<lambda>i. if inv_id i = k then f i else i) (findByStripeId sid d)"
  unfolding findByStripeId_def updateInvoices_def
  by (simp add: find_map_keep assms)

lemma updateInvoices_twice:
  assumes "\<And>i. inv_id (f i) = inv_id i" and "\<And>i. f (f i) = f i"
  shows "updateInvoices f k (updateInvoices f k d) = updateInvoices f k d"
  by (simp add: updateInvoices_def assms)

lemma updateTenants_twice:
  assumes "\<And>t. tenant_id (f t) = tenant_id t" and "\<And>t. f (f t) = f t"
  shows "updateTenants f k (updateTenants f k d) = updateTenants f k d"
  by (simp add: updateTenants_def assms)

lemma updateInvoices_updateTenants:
  "updateInvoices f k (updateTenants g k' d) = updateTenants g k' (updateInvoices f k d)"
  by (simp add: updateInvoices_def updateTenants_def)

lemma markInvoice_simps [simp]:
  "inv_id (markInvoice inp i) = inv_id i"
  "inv_tenantId (markInvoice inp i) = inv_tenantId i"
  "stripeInvoiceId (markInvoice inp i) = stripeInvoiceId i"
  "status (markInvoice inp i) = statusOf (in_status inp)"
  "markInvoice inp (markInvoice inp i) = markInvoice inp i"
  by (simp_all add: markInvoice_def)

lemma clearCharge_simps [simp]:
  "tenant_id (clearCharge t) = tenant_id t"
  "clearCharge (clearCharge t) = clearCharge t"
  "emailOverageCharge (clearCharge t) = Some 0"
  by (simp_all add: clearCharge_def)

lemma handleStripeWebhook_found:
  assumes "connected d" and "findByStripeId (in_stripeInvoiceId inp) d = Some invoice"
  shows "handleStripeWebhook inp d
         = (Inr (),
            if in_status inp = ev_paid
            then updateTenants clearCharge (inv_tenantId invoice) (updateInvoices (markInvoice inp) (inv_id invoice) d)
            else updateInvoices (markInvoice inp) (inv_id invoice) d)"
  using assms by (simp add: handleStripeWebhook_def)

lemma handleStripeWebhook_again:
  assumes "connected d" and "findByStripeId (in_stripeInvoiceId inp) d = Some invoice"
  shows "handleStripeWebhook inp (snd (handleStripeWebhook inp d))
         = (Inr (), snd (handleStripeWebhook inp d))"
proof -
  let ?d1 = "updateInvoices (markInvoice inp) (inv_id invoice) d"
  have f1: "findByStripeId (in_stripeInvoiceId inp) ?d1 = Some (markInvoice inp invoice)"
    using assms(2) by (simp add: findByStripeId_updateInvoices)
  have c1: "connected ?d1"
    using assms(1) by simp
  have tw: "updateInvoices (markInvoice inp) (inv_id invoice) ?d1 = ?d1"
    by (simp add: updateInvoices_twice)
  show ?thesis
  proof (cases "in_status inp = ev_paid")
    case False
    then have a: "snd (handleStripeWebhook inp d) = ?d1"
      using assms by (simp add: handleStripeWebhook_found)
    show ?thesis
      using False c1 f1 tw by (simp add: a handleStripeWebhook_found [of ?d1 inp "markInvoice inp invoice"])
  next
    case True
    let ?d2 = "updateTenants clearCharge (inv_tenantId invoice) ?d1"
    have a: "snd (handleStripeWebhook inp d) = ?d2"
      using True assms by (simp add: handleStripeWebhook_found)
    have f2: "findByStripeId (in_stripeInvoiceId inp) ?d2 = Some (markInvoice inp invoice)"
      using f1 by simp
    have c2: "connected ?d2"
      using c1 by simp
    have "updateTenants clearCharge (inv_tenantId invoice) (updateInvoices (markInvoice inp) (inv_id invoice) ?d2) = ?d2"
      by (simp add: updateInvoices_updateTenants tw updateTenants_twice)
    then show ?thesis
      using True c2 f2 by (simp add: a handleStripeWebhook_found [of ?d2 inp "markInvoice inp invoice"])
  qed
qed

lemma markFailed_simps [simp]:
  "inv_id (markFailed i) = inv_id i"
  "stripeInvoiceId (markFailed i) = stripeInvoiceId i"
  "status (markFailed i) = failed"
  by (simp_all add: markFailed_def)

lemma markPaid_simps [simp]:
  "inv_id (markPaid ev p i) = inv_id i"
  "stripeInvoiceId (markPaid ev p i) = stripeInvoiceId i"
  "status (markPaid ev p i) = paid"
  by (simp_all add: markPaid_def)

lemma markPaid_more_simps [simp]:
  "invoiceNumber (markPaid ev p i) = invoiceNumber i"
  "markPaid ev p (markPaid ev p i) = markPaid ev p i"
  by (simp_all add: markPaid_def)

lemma tenants_handleInvoicePaymentSucceeded:
  "tenants (fst (snd (handleInvoicePaymentSucceeded ev d))) = tenants d"
  by (simp add: handleInvoicePaymentSucceeded_def updateSmsInvoices_def split: option.splits)

lemma handleInvoicePaymentSucceeded_found:
  assumes "connected d" and "status_transition ev = Some p"
    and "findByStripeId (stripe_id ev) d = Some invoice"
  shows "handleInvoicePaymentSucceeded ev d
         = (Inr (Some (Reconciled ''email'' (invoiceNumber invoice))),
            updateInvoices (markPaid ev p) (inv_id invoice) d,
            [Log (''Email overage invoice '' @ invoiceNumber invoice @ '' marked as paid'')])"
  using assms by (simp add: handleInvoicePaymentSucceeded_def)

lemma handleInvoicePaymentSucceeded_again:
  assumes "connected d" and "status_transition ev = Some p"
    and "findByStripeId (stripe_id ev) d = Some invoice"
  shows "handleInvoicePaymentSucceeded ev (fst (snd (handleInvoicePaymentSucceeded ev d)))
         = handleInvoicePaymentSucceeded ev d"
proof -
  let ?d1 = "updateInvoices (markPaid ev p) (inv_id invoice) d"
  have f1: "findByStripeId (stripe_id ev) ?d1 = Some (markPaid ev p invoice)"
    using assms(3) by (simp add: findByStripeId_updateInvoices)
  have c1: "connected ?d1"
    using assms(1) by simp
  have tw: "updateInvoices (markPaid ev p) (inv_id invoice) ?d1 = ?d1"
    by (simp add: updateInvoices_twice)
  have a: "fst (snd (handleInvoicePaymentSucceeded ev d)) = ?d1"
    by (simp add: handleInvoicePaymentSucceeded_found [OF assms])
  show ?thesis
    by (simp add: a handleInvoicePaymentSucceeded_found [OF c1 assms(2) f1]
        handleInvoicePaymentSucceeded_found [OF assms] tw)
qed

text \<open>
  C1 (as amended). For an invoice whose stored Stripe id is the event's,
  \<open>handleStripeWebhook\<close> does not look at the invoice's status. The event succeeds;
  the rows with the invoice's key take the event's status and \<open>paidAt\<close>, whatever their
  status was; a \<open>paid\<close> event sets the accrued charge of the invoice's tenant to
  \<open>"0.00"\<close>, and a \<open>failed\<close> event leaves the tenants alone. The same event delivered
  again, on the state the first delivery left, succeeds and leaves that state as it is.
  The handler of stripeWebhook.ts, for a succeeded payment whose invoice object has the
  \<open>status_transition\<close> property the handler reads, does not look at the status either:
  it returns the invoice's number and writes one line to the console, the rows with the
  invoice's key become \<open>paid\<close> with the event's time and payment intent, and the same
  event delivered again returns the same and leaves the state as it is. For no event
  does that handler write to the tenants: it never resets a charge.
\<close>

theorem handleStripeWebhook_without_status_check:
  assumes "connected d" and "findByStripeId (in_stripeInvoiceId inp) d = Some invoice"
  shows "fst (handleStripeWebhook inp d) = Inr ()
       \<and> emailOverageInvoices (snd (handleStripeWebhook inp d))
           = map (\<lambda>i. if inv_id i = inv_id invoice then markInvoice inp i else i) (emailOverageInvoices d)
       \<and> status (markInvoice inp invoice) = statusOf (in_status inp)
       \<and> paidAt (markInvoice inp invoice) = paidAtOf (in_paidAt inp)
       \<and> (in_status inp = ev_paid \<longrightarrow>
            tenants (snd (handleStripeWebhook inp d))
              = map (\<lambda>t. if tenant_id t = inv_tenantId invoice then clearCharge t else t) (tenants d)
            \<and> emailOverageCharge (clearCharge t) = Some 0)
       \<and> (in_status inp = ev_failed \<longrightarrow> tenants (snd (handleStripeWebhook inp d)) = tenants d)
       \<and> handleStripeWebhook inp (snd (handleStripeWebhook inp d))
           = (Inr (), snd (handleStripeWebhook inp d))
       \<and> (stripe_id ev = in_stripeInvoiceId inp \<and> status_transition ev = Some p \<longrightarrow>
            handleInvoicePaymentSucceeded ev d
              = (Inr (Some (Reconciled ''email'' (invoiceNumber invoice))),
                 updateInvoices (markPaid ev p) (inv_id invoice) d,
                 [Log (''Email overage invoice '' @ invoiceNumber invoice @ '' marked as paid'')])
            \<and> emailOverageInvoices (fst (snd (handleInvoicePaymentSucceeded ev d)))
                = map (\<lambda>i. if inv_id i = inv_id invoice then markPaid ev p i else i) (emailOverageInvoices d)
            \<and> markPaid ev p invoice
                = invoice\<lparr>status := paid, paidAt := Some (paidAtMillis p),
                          stripePaymentIntentId := orNull (payment_intent ev)\<rparr>
            \<and> handleInvoicePaymentSucceeded ev (fst (snd (handleInvoicePaymentSucceeded ev d)))
                = handleInvoicePaymentSucceeded ev d)
       \<and> tenants (fst (snd (handleInvoicePaymentSucceeded ev' d))) = tenants d"
proof -
  note f = handleStripeWebhook_found [OF assms]
  have a: "fst (handleStripeWebhook inp d) = Inr ()"
    by (simp add: f)
  have b: "emailOverageInvoices (snd (handleStripeWebhook inp d))
           = map (\<lambda>i. if inv_id i = inv_id invoice then markInvoice inp i else i) (emailOverageInvoices d)"
    by (simp add: f updateInvoices_def)
  have c: "status (markInvoice inp invoice) = statusOf (in_status inp)"
    by simp
  have c': "paidAt (markInvoice inp invoice) = paidAtOf (in_paidAt inp)"
    by (simp add: markInvoice_def)
  have e: "in_status inp = ev_paid \<longrightarrow>
            tenants (snd (handleStripeWebhook inp d))
              = map (\<lambda>t. if tenant_id t = inv_tenantId invoice then clearCharge t else t) (tenants d)
            \<and> emailOverageCharge (clearCharge t) = Some 0"
    by (simp add: f updateTenants_def)
  have g: "in_status inp = ev_failed \<longrightarrow> tenants (snd (handleStripeWebhook inp d)) = tenants d"
    by (simp add: f)
  have h: "stripe_id ev = in_stripeInvoiceId inp \<and> status_transition ev = Some p \<longrightarrow>
            handleInvoicePaymentSucceeded ev d
              = (Inr (Some (Reconciled ''email'' (invoiceNumber invoice))),
                 updateInvoices (markPaid ev p) (inv_id invoice) d,
                 [Log (''Email overage invoice '' @ invoiceNumber invoice @ '' marked as paid'')])
            \<and> emailOverageInvoices (fst (snd (handleInvoicePaymentSucceeded ev d)))
                = map (\<lambda>i. if inv_id i = inv_id invoice then markPaid ev p i else i) (emailOverageInvoices d)
            \<and> markPaid ev p invoice
                = invoice\<lparr>status := paid, paidAt := Some (paidAtMillis p),
                          stripePaymentIntentId := orNull (payment_intent ev)\<rparr>
            \<and> handleInvoicePaymentSucceeded ev (fst (snd (handleInvoicePaymentSucceeded ev d)))
                = handleInvoicePaymentSucceeded ev d"
  proof (intro impI, elim conjE)
    assume s: "stripe_id ev = in_stripeInvoiceId inp" and p: "status_transition ev = Some p"
    from assms(2) s have i: "findByStripeId (stripe_id ev) d = Some invoice"
      by simp
    note k = handleInvoicePaymentSucceeded_found [OF assms(1) p i]
    have "emailOverageInvoices (fst (snd (handleInvoicePaymentSucceeded ev d)))
                = map (\<lambda>i. if inv_id i = inv_id invoice then markPaid ev p i else i) (emailOverageInvoices d)"
      by (simp add: k updateInvoices_def)
    moreover have "markPaid ev p invoice
                = invoice\<lparr>status := paid, paidAt := Some (paidAtMillis p),
                          stripePaymentIntentId := orNull (payment_intent ev)\<rparr>"
      by (simp add: markPaid_def)
    ultimately show "handleInvoicePaymentSucceeded ev d
              = (Inr (Some (Reconciled ''email'' (invoiceNumber invoice))),
                 updateInvoices (markPaid ev p) (inv_id invoice) d,
                 [Log (''Email overage invoice '' @ invoiceNumber invoice @ '' marked as paid'')])
            \<and> emailOverageInvoices (fst (snd (handleInvoicePaymentSucceeded ev d)))
                = map (\<lambda>i. if inv_id i = inv_id invoice then markPaid ev p i else i) (emailOverageInvoices d)
            \<and> markPaid ev p invoice
                = invoice\<lparr>status := paid, paidAt := Some (paidAtMillis p),
                          stripePaymentIntentId := orNull (payment_intent ev)\<rparr>
            \<and> handleInvoicePaymentSucceeded ev (fst (snd (handleInvoicePaymentSucceeded ev d)))
                = handleInvoicePaymentSucceeded ev d"
      using k handleInvoicePaymentSucceeded_again [OF assms(1) p i] by blast
  qed
  show ?thesis
    by (intro conjI) (fact a b c c' e g h handleStripeWebhook_again [OF assms]
        tenants_handleInvoicePaymentSucceeded)+
qed

theorem handleStripeWebhook_without_status_check_witness:
  "connected afterPayment \<and> findByStripeId (in_stripeInvoiceId paidEvent) afterPayment = Some (markInvoice paidEvent febInvoice)
   \<and> status (markInvoice paidEvent febInvoice) = paid
   \<and> in_status paidEvent = ev_paid
   \<and> stripe_id (data_object stripePaid) = in_stripeInvoiceId paidEvent
   \<and> status_transition (data_object stripePaid) = Some (Some 1740909600)
   \<and> fst (handleStripeWebhook paidEvent afterPayment) = Inr ()
   \<and> tenants (snd (handleStripeWebhook paidEvent afterPayment))
       = map (\<lambda>t. if tenant_id t = ''acme-salon-01'' then clearCharge t else t) (tenants afterPayment)
   \<and> handleStripeWebhook paidEvent (snd (handleStripeWebhook paidEvent afterPayment))
           = (Inr (), snd (handleStripeWebhook paidEvent afterPayment))
   \<and> fst (handleInvoicePaymentSucceeded (data_object stripePaid) afterPayment)
       = Inr (Some (Reconciled ''email'' ''INV-202502-ACME-SAL''))
   \<and> handleInvoicePaymentSucceeded (data_object stripePaid)
        (fst (snd (handleInvoicePaymentSucceeded (data_object stripePaid) afterPayment)))
       = handleInvoicePaymentSucceeded (data_object stripePaid) afterPayment
   \<and> findByStripeId (in_stripeInvoiceId failedEvent) afterPayment = Some (markInvoice paidEvent febInvoice)
   \<and> in_status failedEvent = ev_failed
   \<and> fst (handleStripeWebhook failedEvent afterPayment) = Inr ()
   \<and> status (markInvoice failedEvent (markInvoice paidEvent febInvoice)) = failed
   \<and> tenants (snd (handleStripeWebhook failedEvent afterPayment)) = tenants afterPayment"
proof -
  have h1: "connected afterPayment"
    and h2: "findByStripeId (in_stripeInvoiceId paidEvent) afterPayment = Some (markInvoice paidEvent febInvoice)"
    by (simp_all add: afterPayment_def handleStripeWebhook_def billed_def shop_def febInvoice_def
        paidEvent_def findByStripeId_def updateInvoices_def updateTenants_def markInvoice_def)
  have s: "status (markInvoice paidEvent febInvoice) = paid" and e: "in_status paidEvent = ev_paid"
    by (simp_all add: paidEvent_def)
  have v: "stripe_id (data_object stripePaid) = in_stripeInvoiceId paidEvent"
    "status_transition (data_object stripePaid) = Some (Some 1740909600)"
    by (simp_all add: stripePaid_def paidEvent_def)
  have n: "invoiceNumber (markInvoice paidEvent febInvoice) = ''INV-202502-ACME-SAL''"
    "inv_tenantId (markInvoice paidEvent febInvoice) = ''acme-salon-01''"
    by (simp_all add: markInvoice_def febInvoice_def)
  note T = handleStripeWebhook_without_status_check
    [OF h1 h2, where ev = "data_object stripePaid" and p = "Some 1740909600"]
  from T have a: "fst (handleStripeWebhook paidEvent afterPayment) = Inr ()"
    and b: "handleStripeWebhook paidEvent (snd (handleStripeWebhook paidEvent afterPayment))
           = (Inr (), snd (handleStripeWebhook paidEvent afterPayment))"
    by blast+
  from T e have c: "tenants (snd (handleStripeWebhook paidEvent afterPayment))
       = map (\<lambda>t. if tenant_id t = inv_tenantId (markInvoice paidEvent febInvoice) then clearCharge t else t)
           (tenants afterPayment)"
    by blast
  from T v have k: "handleInvoicePaymentSucceeded (data_object stripePaid) afterPayment
              = (Inr (Some (Reconciled ''email'' (invoiceNumber (markInvoice paidEvent febInvoice)))),
                 updateInvoices (markPaid (data_object stripePaid) (Some 1740909600))
                   (inv_id (markInvoice paidEvent febInvoice)) afterPayment,
                 [Log (''Email overage invoice '' @ invoiceNumber (markInvoice paidEvent febInvoice)
                       @ '' marked as paid'')])"
    and l: "handleInvoicePaymentSucceeded (data_object stripePaid)
        (fst (snd (handleInvoicePaymentSucceeded (data_object stripePaid) afterPayment)))
       = handleInvoicePaymentSucceeded (data_object stripePaid) afterPayment"
    by blast+
  from k have m: "fst (handleInvoicePaymentSucceeded (data_object stripePaid) afterPayment)
       = Inr (Some (Reconciled ''email'' ''INV-202502-ACME-SAL''))"
    by (simp add: n)
  from c have c': "tenants (snd (handleStripeWebhook paidEvent afterPayment))
       = map (\<lambda>t. if tenant_id t = ''acme-salon-01'' then clearCharge t else t) (tenants afterPayment)"
    by (simp only: n)
  have h2': "findByStripeId (in_stripeInvoiceId failedEvent) afterPayment = Some (markInvoice paidEvent febInvoice)"
    using h2 by (simp add: failedEvent_def paidEvent_def)
  have e': "in_status failedEvent = ev_failed"
    by (simp add: failedEvent_def)
  note F = handleStripeWebhook_without_status_check [OF h1 h2']
  from F have fa: "fst (handleStripeWebhook failedEvent afterPayment) = Inr ()"
    and fb: "status (markInvoice failedEvent (markInvoice paidEvent febInvoice)) = statusOf (in_status failedEvent)"
    by blast+
  from fb have fb': "status (markInvoice failedEvent (markInvoice paidEvent febInvoice)) = failed"
    by (simp add: e')
  from F e' have fc: "tenants (snd (handleStripeWebhook failedEvent afterPayment)) = tenants afterPayment"
    by blast
  show ?thesis
    by (intro conjI) (fact h1 h2 s e v a b c' m l h2' e' fa fb' fc)+
qed

theorem second_paid_delivery_counterexample:
  "map status (emailOverageInvoices afterSend) = [paid]
   \<and> map emailOverageCharge (tenants afterSend) = [Some 10]
   \<and> fst (handleStripeWebhook paidEvent afterSend) = Inr ()
   \<and> map emailOverageCharge (tenants (snd (handleStripeWebhook paidEvent afterSend))) = [Some 0]
   \<and> snd (handleStripeWebhook paidEvent afterSend) \<noteq> afterSend"
proof -
  have a: "map status (emailOverageInvoices afterSend) = [paid]"
    by code_simp
  have b: "map emailOverageCharge (tenants afterSend) = [Some 10]"
    by code_simp
  have c: "fst (handleStripeWebhook paidEvent afterSend) = Inr ()"
    by code_simp
  have d: "map emailOverageCharge (tenants (snd (handleStripeWebhook paidEvent afterSend))) = [Some 0]"
    by code_simp
  from b d have "snd (handleStripeWebhook paidEvent afterSend) \<noteq> afterSend"
    by auto
  with a b c d show ?thesis
    by simp
qed

lemma status_after_update:
  "map status (emailOverageInvoices (updateInvoices f k d))
   = map (\<lambda>i. if inv_id i = k then status (f i) else status i) (emailOverageInvoices d)"
  by (simp add: updateInvoices_def)

lemma statusStep_refl: "list_all2 statusStep xs xs"
  by (simp add: list_all2_refl statusStep_def)

lemma statusStep_trans:
  "list_all2 statusStep xs ys \<Longrightarrow> list_all2 statusStep ys zs \<Longrightarrow> list_all2 statusStep xs zs"
proof (induction xs ys arbitrary: zs rule: list_all2_induct)
  case Nil
  then show ?case by simp
next
  case (Cons x xs y ys)
  then obtain z zs' where z: "zs = z # zs'" "statusStep y z" "list_all2 statusStep ys zs'"
    by (auto simp: list_all2_Cons1)
  have "statusStep x z"
    using Cons.hyps(1) z(2) by (auto simp: statusStep_def)
  with Cons.IH [OF z(3)] z(1) show ?case by simp
qed

lemma statusStep_map:
  assumes "\<And>i. inv_id (f i) = inv_id i" and "\<And>i. status (f i) = paid \<or> status (f i) = failed"
  shows "list_all2 statusStep xs (map (\<lambda>i. if inv_id i = k then f i else i) xs)"
  by (induction xs) (simp_all add: statusStep_def assms)

lemma statusOf_cases: "statusOf e = paid \<or> statusOf e = failed"
  by (cases e) simp_all

lemma statusStep_handleStripeWebhook:
  "list_all2 statusStep (emailOverageInvoices d) (emailOverageInvoices (snd (handleStripeWebhook inp d)))"
proof -
  have "list_all2 statusStep (emailOverageInvoices d)
          (map (\<lambda>i. if inv_id i = k then markInvoice inp i else i) (emailOverageInvoices d))" for k
    by (rule statusStep_map) (simp_all add: statusOf_cases)
  then show ?thesis
    by (simp add: handleStripeWebhook_def updateInvoices_def statusStep_refl split: option.splits)
qed

lemma statusStep_deliverAll:
  "list_all2 statusStep (emailOverageInvoices d) (emailOverageInvoices (deliverAll evs d))"
proof (induction evs arbitrary: d)
  case Nil
  then show ?case by (simp add: deliverAll_def statusStep_refl)
next
  case (Cons ev evs)
  have "deliverAll (ev # evs) d = deliverAll evs (snd (handleStripeWebhook ev d))"
    by (simp add: deliverAll_def)
  with statusStep_trans [OF statusStep_handleStripeWebhook Cons.IH] show ?case
    by simp
qed

text \<open>
  C2 (as amended). A payment event for an invoice whose stored Stripe id is the event's
  sets the status of the rows with that invoice's key to the event's status, \<open>paid\<close> or
  \<open>failed\<close>, whatever the status was before, and leaves the status of every other row
  unchanged; so does the handler of stripeWebhook.ts for a failed payment. Over any
  sequence of events every row keeps its key and either keeps its status or ends
  \<open>paid\<close> or \<open>failed\<close>: no event makes a row \<open>pending\<close> or \<open>cancelled\<close>.
\<close>

theorem payment_event_overwrites_status:
  assumes "connected d" and "findByStripeId sid d = Some invoice"
  shows "(in_stripeInvoiceId inp = sid \<longrightarrow>
            map status (emailOverageInvoices (snd (handleStripeWebhook inp d)))
            = map (\<lambda>i. if inv_id i = inv_id invoice then statusOf (in_status inp) else status i)
                (emailOverageInvoices d))
       \<and> (statusOf (in_status inp) = paid \<or> statusOf (in_status inp) = failed)
       \<and> (stripe_id ev = sid \<longrightarrow>
            map status (emailOverageInvoices (fst (snd (handleInvoicePaymentFailed ev d))))
            = map (\<lambda>i. if inv_id i = inv_id invoice then failed else status i) (emailOverageInvoices d))
       \<and> list_all2 statusStep (emailOverageInvoices d) (emailOverageInvoices (deliverAll evs d))"
proof (intro conjI impI)
  assume "in_stripeInvoiceId inp = sid"
  with assms show "map status (emailOverageInvoices (snd (handleStripeWebhook inp d)))
            = map (\<lambda>i. if inv_id i = inv_id invoice then statusOf (in_status inp) else status i)
                (emailOverageInvoices d)"
    by (simp add: handleStripeWebhook_found status_after_update)
next
  assume "stripe_id ev = sid"
  with assms show "map status (emailOverageInvoices (fst (snd (handleInvoicePaymentFailed ev d))))
            = map (\<lambda>i. if inv_id i = inv_id invoice then failed else status i) (emailOverageInvoices d)"
    by (simp add: handleInvoicePaymentFailed_def status_after_update)
qed (simp_all add: statusOf_cases statusStep_deliverAll)

theorem payment_event_overwrites_status_witness:
  "connected afterPayment \<and> findByStripeId ''in_1Feb'' afterPayment = Some (markInvoice paidEvent febInvoice)
   \<and> in_stripeInvoiceId failedEvent = ''in_1Feb''
   \<and> map status (emailOverageInvoices afterPayment) = [paid]
   \<and> map status (emailOverageInvoices (snd (handleStripeWebhook failedEvent afterPayment))) = [failed]"
proof -
  have h1: "connected afterPayment"
    and h2: "findByStripeId ''in_1Feb'' afterPayment = Some (markInvoice paidEvent febInvoice)"
    by (simp_all add: afterPayment_def handleStripeWebhook_def billed_def shop_def febInvoice_def
        paidEvent_def findByStripeId_def updateInvoices_def updateTenants_def markInvoice_def)
  have e: "in_stripeInvoiceId failedEvent = ''in_1Feb''" "statusOf (in_status failedEvent) = failed"
    by (simp_all add: failedEvent_def)
  have s: "emailOverageInvoices afterPayment = [markInvoice paidEvent febInvoice]"
    by (simp add: afterPayment_def handleStripeWebhook_def billed_def shop_def febInvoice_def
        paidEvent_def findByStripeId_def updateInvoices_def updateTenants_def markInvoice_def)
  have p: "status (markInvoice paidEvent febInvoice) = paid"
    by (simp add: paidEvent_def)
  from payment_event_overwrites_status [OF h1 h2, of failedEvent] e
  have "map status (emailOverageInvoices (snd (handleStripeWebhook failedEvent afterPayment)))
        = map (\<lambda>i. if inv_id i = inv_id (markInvoice paidEvent febInvoice) then failed else status i)
            (emailOverageInvoices afterPayment)"
    by simp
  with h1 h2 e s p show ?thesis
    by simp
qed

theorem paid_invoice_becomes_failed_counterexample:
  "map status (emailOverageInvoices afterPayment) = [paid]
   \<and> fst (handleStripeWebhook failedEvent afterPayment) = Inr ()
   \<and> map status (emailOverageInvoices (snd (handleStripeWebhook failedEvent afterPayment))) = [failed]
   \<and> map status (emailOverageInvoices (fst (snd (webhookEvent stripeFailed afterPayment)))) = [failed]"
proof -
  have a: "map status (emailOverageInvoices afterPayment) = [paid]"
    by code_simp
  have b: "fst (handleStripeWebhook failedEvent afterPayment) = Inr ()"
    by code_simp
  have c: "map status (emailOverageInvoices (snd (handleStripeWebhook failedEvent afterPayment))) = [failed]"
    by code_simp
  have d: "map status (emailOverageInvoices (fst (snd (webhookEvent stripeFailed afterPayment)))) = [failed]"
    by code_simp
  from a b c d show ?thesis
    by simp
qed

text \<open>
  C8 (as amended). An event whose Stripe id is stored on no local invoice changes
  nothing in the database. The handlers of stripeWebhook.ts write a warning to the
  console and return \<open>null\<close> without an error (for a succeeded payment, when the event's
  invoice object has the \<open>status_transition\<close> property the handler reads). The
  \<open>handleStripeWebhook\<close> mutation of the billing router throws \<open>NOT_FOUND\<close> to its caller.
\<close>

theorem event_for_unknown_invoice:
  assumes "connected d" and "findByStripeId sid d = None" and "findSmsByStripeId sid d = None"
  shows "(in_stripeInvoiceId inp = sid \<longrightarrow>
            handleStripeWebhook inp d = (Inl (TRPCError NOT_FOUND ''Invoice not found''), d))
       \<and> (stripe_id ev = sid \<longrightarrow>
            handleInvoicePaymentFailed ev d
            = (Inr None, d, [Warn (''No invoice found for Stripe invoice '' @ sid)]))
       \<and> (stripe_id ev = sid \<and> status_transition ev \<noteq> None \<longrightarrow>
            handleInvoicePaymentSucceeded ev d
            = (Inr None, d, [Warn (''No invoice found for Stripe invoice '' @ sid)]))
       \<and> (stripe_id (data_object e) = sid \<and> event_type e = ''invoice.payment_failed'' \<longrightarrow>
            webhookEvent e d
            = (Inr None, d, [Log (''Received Stripe webhook: invoice.payment_failed''),
                             Warn (''No invoice found for Stripe invoice '' @ sid)]))
       \<and> (stripe_id (data_object e) = sid \<and> event_type e = ''invoice.payment_succeeded''
            \<and> status_transition (data_object e) \<noteq> None \<longrightarrow>
            webhookEvent e d
            = (Inr None, d, [Log (''Received Stripe webhook: invoice.payment_succeeded''),
                             Warn (''No invoice found for Stripe invoice '' @ sid)]))"
  using assms
  by (auto simp: handleStripeWebhook_def handleInvoicePaymentFailed_def
      handleInvoicePaymentSucceeded_def webhookEvent_def rethrow_def)

theorem event_for_unknown_invoice_witness:
  "connected billed \<and> findByStripeId ''in_test_0'' billed = None
   \<and> findSmsByStripeId ''in_test_0'' billed = None
   \<and> in_stripeInvoiceId strayEvent = ''in_test_0''
   \<and> stripe_id (data_object strayFailed) = ''in_test_0''
   \<and> event_type strayFailed = ''invoice.payment_failed''
   \<and> stripe_id (data_object strayPaid) = ''in_test_0''
   \<and> event_type strayPaid = ''invoice.payment_succeeded''
   \<and> status_transition (data_object strayPaid) \<noteq> None
   \<and> handleStripeWebhook strayEvent billed = (Inl (TRPCError NOT_FOUND ''Invoice not found''), billed)
   \<and> fst (webhookEvent strayFailed billed) = Inr None
   \<and> fst (snd (webhookEvent strayFailed billed)) = billed
   \<and> fst (webhookEvent strayPaid billed) = Inr None
   \<and> fst (snd (webhookEvent strayPaid billed)) = billed
   \<and> handleInvoicePaymentFailed (data_object strayFailed) billed
       = (Inr None, billed, [Warn (''No invoice found for Stripe invoice '' @ ''in_test_0'')])
   \<and> handleInvoicePaymentSucceeded (data_object strayPaid) billed
       = (Inr None, billed, [Warn (''No invoice found for Stripe invoice '' @ ''in_test_0'')])"
proof -
  have h1: "connected billed" and h2: "findByStripeId ''in_test_0'' billed = None"
    and h3: "findSmsByStripeId ''in_test_0'' billed = None"
    by (simp_all add: billed_def shop_def febInvoice_def findByStripeId_def findSmsByStripeId_def)
  have e: "in_stripeInvoiceId strayEvent = ''in_test_0''"
    "stripe_id (data_object strayFailed) = ''in_test_0''"
    "event_type strayFailed = ''invoice.payment_failed''"
    "stripe_id (data_object strayPaid) = ''in_test_0''"
    "event_type strayPaid = ''invoice.payment_succeeded''"
    "status_transition (data_object strayPaid) \<noteq> None"
    by (simp_all add: strayEvent_def strayFailed_def strayPaid_def)
  note T1 = event_for_unknown_invoice [OF h1 h2 h3, of strayEvent "data_object strayFailed" strayFailed]
  note T2 = event_for_unknown_invoice [OF h1 h2 h3, of strayEvent "data_object strayPaid" strayPaid]
  from T1 e have a: "handleStripeWebhook strayEvent billed = (Inl (TRPCError NOT_FOUND ''Invoice not found''), billed)"
    and b: "webhookEvent strayFailed billed
            = (Inr None, billed, [Log (''Received Stripe webhook: invoice.payment_failed''),
                             Warn (''No invoice found for Stripe invoice '' @ ''in_test_0'')])"
    and b': "handleInvoicePaymentFailed (data_object strayFailed) billed
       = (Inr None, billed, [Warn (''No invoice found for Stripe invoice '' @ ''in_test_0'')])"
    by blast+
  from T2 e have c: "webhookEvent strayPaid billed
            = (Inr None, billed, [Log (''Received Stripe webhook: invoice.payment_succeeded''),
                             Warn (''No invoice found for Stripe invoice '' @ ''in_test_0'')])"
    and c': "handleInvoicePaymentSucceeded (data_object strayPaid) billed
       = (Inr None, billed, [Warn (''No invoice found for Stripe invoice '' @ ''in_test_0'')])"
    by blast+
  from h1 h2 h3 e a b b' c c' show ?thesis
    by simp
qed

theorem unknown_invoice_not_found_counterexample:
  "findByStripeId (in_stripeInvoiceId strayEvent) billed = None
   \<and> fst (handleStripeWebhook strayEvent billed) = Inl (TRPCError NOT_FOUND ''Invoice not found'')"
  by (simp add: handleStripeWebhook_def billed_def shop_def febInvoice_def strayEvent_def
      findByStripeId_def)

section \<open>generateMonthlyInvoice\<close>

lemma find_append_new: "find P xs = None \<Longrightarrow> P x \<Longrightarrow> find P (xs @ [x]) = Some x"
  by (induction xs) (auto split: if_splits)

lemma generateMonthlyInvoice_exists:
  assumes "connected d" and "findTenant (in_tenantId inp) d = Some t"
    and "existingInvoice inp d = Some existing"
  shows "generateMonthlyInvoice rt inp d
         = (Inl (TRPCError CONFLICT ''Invoice already exists for this period''), d)"
  using assms by (simp add: generateMonthlyInvoice_def)

lemma generateMonthlyInvoice_Inr:
  assumes "fst (generateMonthlyInvoice rt inp d) = Inr r"
  obtains t date where "connected d" and "findTenant (in_tenantId inp) d = Some t"
    and "existingInvoice inp d = None"
    and "snd (generateMonthlyInvoice rt inp d)
         = insertInvoice (newInvoice rt inp t date (Suc (invoiceSeq d))) d"
  using assms
  by (auto simp: generateMonthlyInvoice_def split: if_splits option.splits)

text \<open>
  C5. While an invoice for the tenant and the exact period start and end is stored,
  \<open>generateMonthlyInvoice\<close> for that tenant and period fails with \<open>CONFLICT\<close> and leaves
  the database as it is. In particular a second call after a successful one fails so:
  the first call appended one row, the second appends none.
\<close>

theorem generateMonthlyInvoice_second_call_conflicts:
  "(connected d \<and> findTenant (in_tenantId inp) d = Some t \<and> existingInvoice inp d = Some existing
     \<longrightarrow> generateMonthlyInvoice rt inp d
         = (Inl (TRPCError CONFLICT ''Invoice already exists for this period''), d))
   \<and> (fst (generateMonthlyInvoice rt inp d) = Inr r
     \<longrightarrow> length (emailOverageInvoices (snd (generateMonthlyInvoice rt inp d)))
           = Suc (length (emailOverageInvoices d))
       \<and> generateMonthlyInvoice rt inp (snd (generateMonthlyInvoice rt inp d))
         = (Inl (TRPCError CONFLICT ''Invoice already exists for this period''),
            snd (generateMonthlyInvoice rt inp d)))"
proof (intro conjI impI)
  assume "connected d \<and> findTenant (in_tenantId inp) d = Some t \<and> existingInvoice inp d = Some existing"
  then show "generateMonthlyInvoice rt inp d
         = (Inl (TRPCError CONFLICT ''Invoice already exists for this period''), d)"
    by (simp add: generateMonthlyInvoice_exists)
next
  assume ok: "fst (generateMonthlyInvoice rt inp d) = Inr r"
  then obtain t' date where c: "connected d" and ft: "findTenant (in_tenantId inp) d = Some t'"
    and none: "existingInvoice inp d = None"
    and after: "snd (generateMonthlyInvoice rt inp d)
         = insertInvoice (newInvoice rt inp t' date (Suc (invoiceSeq d))) d"
    by (rule generateMonthlyInvoice_Inr)
  let ?d' = "insertInvoice (newInvoice rt inp t' date (Suc (invoiceSeq d))) d"
  show "length (emailOverageInvoices (snd (generateMonthlyInvoice rt inp d)))
           = Suc (length (emailOverageInvoices d))"
    by (simp add: after insertInvoice_def)
  have c': "connected ?d'"
    using c by (simp add: insertInvoice_def)
  have ft': "findTenant (in_tenantId inp) ?d' = Some t'"
    using ft by (simp add: insertInvoice_def findTenant_def)
  have "existingInvoice inp ?d' = Some (newInvoice rt inp t' date (Suc (invoiceSeq d)))"
    using none unfolding existingInvoice_def
    by (simp add: insertInvoice_def find_append_new newInvoice_def)
  with c' ft' show "generateMonthlyInvoice rt inp (snd (generateMonthlyInvoice rt inp d))
         = (Inl (TRPCError CONFLICT ''Invoice already exists for this period''),
            snd (generateMonthlyInvoice rt inp d))"
    by (simp add: after generateMonthlyInvoice_exists)
qed

lemma overLimit_acme: "overLimit acme = 7"
  by code_simp

lemma overLimit_busy: "overLimit busy = 120"
  by code_simp

lemma generate_sample:
  "fst (generateMonthlyInvoice sampleRuntime febPeriod shop)
   = Inr \<lparr>res_invoiceId = 1,
          res_invoiceNumber = generateInvoiceNumber ''acme-salon-01'' \<lparr>getFullYear = 2025, getMonth = 1, getDate = 28\<rparr>,
          res_totalAmount = toFixed2 (totalAmountOf acme)\<rparr>"
proof -
  have "findTenant ''acme-salon-01'' shop = Some acme"
    by (simp add: findTenant_def shop_def acme_def)
  moreover have "overLimit acme = 7"
    by (rule overLimit_acme)
  moreover have "existingInvoice febPeriod shop = None"
    by (simp add: existingInvoice_def shop_def)
  moreover have "newDate sampleRuntime (in_billingPeriodEnd febPeriod)
                 = Some \<lparr>getFullYear = 2025, getMonth = 1, getDate = 28\<rparr>"
    by (simp add: sampleRuntime_def febPeriod_def)
  moreover have "connected shop" "invoiceSeq shop = 0" "in_tenantId febPeriod = ''acme-salon-01''"
    by (simp_all add: shop_def febPeriod_def)
  ultimately show ?thesis
    by (simp add: generateMonthlyInvoice_def)
qed

theorem generateMonthlyInvoice_second_call_conflicts_witness:
  "connected billed \<and> findTenant (in_tenantId febPeriod) billed = Some acme
   \<and> existingInvoice febPeriod billed = Some febInvoice
   \<and> generateMonthlyInvoice sampleRuntime febPeriod billed
       = (Inl (TRPCError CONFLICT ''Invoice already exists for this period''), billed)
   \<and> fst (generateMonthlyInvoice sampleRuntime febPeriod shop)
       = Inr \<lparr>res_invoiceId = 1,
          res_invoiceNumber = generateInvoiceNumber ''acme-salon-01'' \<lparr>getFullYear = 2025, getMonth = 1, getDate = 28\<rparr>,
          res_totalAmount = toFixed2 (totalAmountOf acme)\<rparr>
   \<and> generateMonthlyInvoice sampleRuntime febPeriod (snd (generateMonthlyInvoice sampleRuntime febPeriod shop))
       = (Inl (TRPCError CONFLICT ''Invoice already exists for this period''),
          snd (generateMonthlyInvoice sampleRuntime febPeriod shop))"
proof -
  have h: "connected billed \<and> findTenant (in_tenantId febPeriod) billed = Some acme
   \<and> existingInvoice febPeriod billed = Some febInvoice"
    by (simp add: billed_def shop_def febPeriod_def findTenant_def acme_def existingInvoice_def febInvoice_def)
  note T1 = generateMonthlyInvoice_second_call_conflicts
               [of billed febPeriod acme febInvoice sampleRuntime]
  note T2 = generateMonthlyInvoice_second_call_conflicts
               [of shop febPeriod acme febInvoice sampleRuntime
                  "\<lparr>res_invoiceId = 1,
          res_invoiceNumber = generateInvoiceNumber ''acme-salon-01'' \<lparr>getFullYear = 2025, getMonth = 1, getDate = 28\<rparr>,
          res_totalAmount = toFixed2 (totalAmountOf acme)\<rparr>"]
  from T1 h have a: "generateMonthlyInvoice sampleRuntime febPeriod billed
       = (Inl (TRPCError CONFLICT ''Invoice already exists for this period''), billed)"
    by blast
  from T2 generate_sample
  have b: "generateMonthlyInvoice sampleRuntime febPeriod (snd (generateMonthlyInvoice sampleRuntime febPeriod shop))
       = (Inl (TRPCError CONFLICT ''Invoice already exists for this period''),
          snd (generateMonthlyInvoice sampleRuntime febPeriod shop))"
    by blast
  from h a b generate_sample show ?thesis
    by simp
qed

lemma overLimit_exact:
  assumes "\<bar>or_int (emailsSentThisMonth t) 0\<bar> < 2 ^ 52" and "\<bar>or_int (emailMonthlyLimit t) 500\<bar> < 2 ^ 52"
  shows "overLimit t = of_int (max 0 (or_int (emailsSentThisMonth t) 0 - or_int (emailMonthlyLimit t) 500))"
proof -
  from assms have s: "\<bar>or_int (emailsSentThisMonth t) 0\<bar> < 2 ^ 53"
    and l: "\<bar>or_int (emailMonthlyLimit t) 500\<bar> < 2 ^ 53"
    and e: "\<bar>or_int (emailsSentThisMonth t) 0 - or_int (emailMonthlyLimit t) 500\<bar> < 2 ^ 53"
    by simp_all
  show ?thesis
    by (simp only: overLimit_def sentOf_exact [OF s] limitOf_exact [OF l] num_sub_exact [OF e]
        max_of_int_rat)
qed

lemma stored_rate_and_subtotal:
  assumes "overLimit t = of_int n" and "1 \<le> n" and "0 \<le> or_dec (emailOverageRate t) 10"
    and "n * or_dec (emailOverageRate t) 10 < 2 ^ 50"
  shows "inv_overageRate (newInvoice rt inp t date key) = or_dec (emailOverageRate t) 10"
    and "subtotal (newInvoice rt inp t date key) = n * or_dec (emailOverageRate t) 10"
proof -
  have "1 * or_dec (emailOverageRate t) 10 \<le> n * or_dec (emailOverageRate t) 10"
    using assms(2,3) by (rule mult_right_mono)
  with assms(4) have "or_dec (emailOverageRate t) 10 < 2 ^ 52"
    by simp
  with assms(3) show "inv_overageRate (newInvoice rt inp t date key) = or_dec (emailOverageRate t) 10"
    by (simp add: newInvoice_def toFixed2_parseFloat)
  show "subtotal (newInvoice rt inp t date key) = n * or_dec (emailOverageRate t) 10"
    using assms(2-4) by (simp add: newInvoice_def subtotalOf_def assms(1) stored_product_exact)
qed

lemma sample_vat_and_total: "vatAmountOf acme < 175 / 1000 \<and> totalAmountOf acme = 875 / 1000"
  by code_simp

text \<open>
  C7. The amounts \<open>generateMonthlyInvoice\<close> stores. For the example of the
  specification (limit 500, 620 sent, rate 0.10, VAT 25) the row holds 120 emails,
  subtotal 12.00, VAT 3.00 and total 15.00. For 507 sent it holds 7 emails, subtotal
  0.70, VAT 0.17 and total 0.88: the binary64 quotient for the VAT lies just below
  0.175 and is written as 0.17, the binary64 sum for the total is exactly 0.875, a tie
  that \<open>toFixed\<close> writes as 0.88, so the stored total is not the stored subtotal
  plus the stored VAT, and the stored VAT is not 0.175 rounded to two decimals.
\<close>

theorem stored_invoice_amounts:
  "map emailsOverLimit (emailOverageInvoices (snd (generateMonthlyInvoice sampleRuntime busyPeriod busyShop))) = [120]
   \<and> map subtotal (emailOverageInvoices (snd (generateMonthlyInvoice sampleRuntime busyPeriod busyShop))) = [1200]
   \<and> map vatAmount (emailOverageInvoices (snd (generateMonthlyInvoice sampleRuntime busyPeriod busyShop))) = [300]
   \<and> map totalAmount (emailOverageInvoices (snd (generateMonthlyInvoice sampleRuntime busyPeriod busyShop))) = [1500]
   \<and> map emailsOverLimit (emailOverageInvoices (snd (generateMonthlyInvoice sampleRuntime febPeriod shop))) = [7]
   \<and> map subtotal (emailOverageInvoices (snd (generateMonthlyInvoice sampleRuntime febPeriod shop))) = [70]
   \<and> map vatAmount (emailOverageInvoices (snd (generateMonthlyInvoice sampleRuntime febPeriod shop))) = [17]
   \<and> map totalAmount (emailOverageInvoices (snd (generateMonthlyInvoice sampleRuntime febPeriod shop))) = [88]
   \<and> round_half_up (7 * (10 / 100) * (2500 / 100) / 100 * 100) = 18"
proof -
  have busy: "snd (generateMonthlyInvoice sampleRuntime busyPeriod busyShop)
      = insertInvoice (newInvoice sampleRuntime busyPeriod busy \<lparr>getFullYear = 2025, getMonth = 1, getDate = 28\<rparr> 1) busyShop"
  proof -
    have "findTenant ''busy-barber-07'' busyShop = Some busy"
      by (simp add: findTenant_def busyShop_def busy_def)
    moreover have "overLimit busy = 120"
      by (rule overLimit_busy)
    moreover have "existingInvoice busyPeriod busyShop = None"
      by (simp add: existingInvoice_def busyShop_def shop_def)
    moreover have "newDate sampleRuntime (in_billingPeriodEnd busyPeriod)
                 = Some \<lparr>getFullYear = 2025, getMonth = 1, getDate = 28\<rparr>"
      by (simp add: sampleRuntime_def busyPeriod_def febPeriod_def)
    moreover have "connected busyShop" "invoiceSeq busyShop = 0" "in_tenantId busyPeriod = ''busy-barber-07''"
      by (simp_all add: busyShop_def shop_def busyPeriod_def)
    ultimately show ?thesis
      by (simp add: generateMonthlyInvoice_def)
  qed
  have acme: "snd (generateMonthlyInvoice sampleRuntime febPeriod shop)
      = insertInvoice (newInvoice sampleRuntime febPeriod acme \<lparr>getFullYear = 2025, getMonth = 1, getDate = 28\<rparr> 1) shop"
  proof -
    have "findTenant ''acme-salon-01'' shop = Some acme"
      by (simp add: findTenant_def shop_def acme_def)
    moreover have "overLimit acme = 7"
      by (rule overLimit_acme)
    moreover have "existingInvoice febPeriod shop = None"
      by (simp add: existingInvoice_def shop_def)
    moreover have "newDate sampleRuntime (in_billingPeriodEnd febPeriod)
                 = Some \<lparr>getFullYear = 2025, getMonth = 1, getDate = 28\<rparr>"
      by (simp add: sampleRuntime_def febPeriod_def)
    moreover have "connected shop" "invoiceSeq shop = 0" "in_tenantId febPeriod = ''acme-salon-01''"
      by (simp_all add: shop_def febPeriod_def)
    ultimately show ?thesis
      by (simp add: generateMonthlyInvoice_def)
  qed
  have n: "int_of_num (overLimit busy) = 120" "int_of_num (overLimit acme) = 7"
    by (simp_all add: overLimit_busy overLimit_acme int_of_num_def)
  have b1: "toFixed2 (subtotalOf busy) = 1200"
    by code_simp
  have b2: "toFixed2 (vatAmountOf busy) = 300"
    by code_simp
  have b3: "toFixed2 (totalAmountOf busy) = 1500"
    by code_simp
  have a1: "toFixed2 (subtotalOf acme) = 70"
    by code_simp
  have a2: "toFixed2 (vatAmountOf acme) = 17"
    by code_simp
  have a3: "toFixed2 (totalAmountOf acme) = 88"
    by code_simp
  have i: "round_half_up (7 * (10 / 100) * (2500 / 100) / 100 * 100) = 18"
    by (simp add: round_half_up_def)
  have e: "emailOverageInvoices busyShop = []" "emailOverageInvoices shop = []"
    by (simp_all add: busyShop_def shop_def)
  show ?thesis
    using i by (simp add: busy acme insertInvoice_def newInvoice_def e n b1 b2 b3 a1 a2 a3)
qed

section \<open>The usage view\<close>

lemma or_int_500_nonzero [simp]: "or_int x 500 \<noteq> 0"
  by (simp add: or_int_def split: option.splits)

lemma getUsage_found:
  assumes "connected d" and "findTenant tenantId d = Some t"
  shows "fst (getUsage tenantId now d) = Inr (returnedView now t)"
  using assms by (simp add: getUsage_def returnedView_def)

lemma resetView_fields:
  assumes "0 < effectiveLimit t" and "effectiveLimit t < 2 ^ 53"
  shows "limit (resetView t) = of_int (effectiveLimit t)"
    and "used (resetView t) = of_int 0"
    and "remaining (resetView t) = of_int (max 0 (effectiveLimit t - 0))"
    and "overageCount (resetView t) = of_int (max 0 (0 - effectiveLimit t))"
    and "percentUsed (resetView t) = round_half_up (100 * of_int 0 / of_int (effectiveLimit t))"
proof -
  from assms have "\<bar>or_int (emailMonthlyLimit t) 500\<bar> < 2 ^ 53"
    by (simp add: effectiveLimit_def)
  then have l: "limitOf t = of_int (effectiveLimit t)"
    by (simp only: limitOf_exact effectiveLimit_def)
  show "limit (resetView t) = of_int (effectiveLimit t)"
    by (simp add: resetView_def l)
  show "used (resetView t) = of_int 0"
    by (simp add: resetView_def)
  show "remaining (resetView t) = of_int (max 0 (effectiveLimit t - 0))"
    using assms(1) by (simp add: resetView_def l)
  show "overageCount (resetView t) = of_int (max 0 (0 - effectiveLimit t))"
    using assms(1) by (simp add: resetView_def)
  show "percentUsed (resetView t) = round_half_up (100 * of_int 0 / of_int (effectiveLimit t))"
    by (simp add: resetView_def round_half_up_def floor_half)
qed

lemma currentView_fields:
  assumes "0 < effectiveLimit t" and "effectiveLimit t < 2 ^ 53"
    and "0 \<le> storedSent t" and "storedSent t < 2 ^ 43"
  shows "limit (currentView t) = of_int (effectiveLimit t)"
    and "used (currentView t) = of_int (storedSent t)"
    and "remaining (currentView t) = of_int (max 0 (effectiveLimit t - storedSent t))"
    and "overageCount (currentView t) = of_int (max 0 (storedSent t - effectiveLimit t))"
    and "\<not> halfway (storedSent t) (effectiveLimit t) \<Longrightarrow>
         percentUsed (currentView t)
         = round_half_up (100 * of_int (storedSent t) / of_int (effectiveLimit t))"
proof -
  from assms(1,2) have "\<bar>or_int (emailMonthlyLimit t) 500\<bar> < 2 ^ 53"
    by (simp add: effectiveLimit_def)
  then have l: "limitOf t = of_int (effectiveLimit t)"
    by (simp only: limitOf_exact effectiveLimit_def)
  from assms(3,4) have "\<bar>or_int (emailsSentThisMonth t) 0\<bar> < 2 ^ 53"
    by (simp add: storedSent_def)
  then have u: "sentOf t = of_int (storedSent t)"
    by (simp only: sentOf_exact storedSent_def)
  from assms have d1: "\<bar>effectiveLimit t - storedSent t\<bar> < 2 ^ 53"
    and d2: "\<bar>storedSent t - effectiveLimit t\<bar> < 2 ^ 53"
    by simp_all
  show "limit (currentView t) = of_int (effectiveLimit t)"
    by (simp add: currentView_def Let_def l)
  show "used (currentView t) = of_int (storedSent t)"
    by (simp add: currentView_def Let_def u)
  have "remaining (currentView t) = max 0 (num_sub (of_int (effectiveLimit t)) (of_int (storedSent t)))"
    by (simp add: currentView_def Let_def l u)
  then show "remaining (currentView t) = of_int (max 0 (effectiveLimit t - storedSent t))"
    by (simp only: num_sub_exact [OF d1] max_of_int_rat)
  have "overageCount (currentView t) = max 0 (num_sub (of_int (storedSent t)) (of_int (effectiveLimit t)))"
    by (simp add: currentView_def Let_def l u)
  then show "overageCount (currentView t) = of_int (max 0 (storedSent t - effectiveLimit t))"
    by (simp only: num_sub_exact [OF d2] max_of_int_rat)
  assume h: "\<not> halfway (storedSent t) (effectiveLimit t)"
  have "percentUsed (currentView t) = percentOf (of_int (storedSent t)) (of_int (effectiveLimit t))"
    by (simp add: currentView_def Let_def l u)
  then show "percentUsed (currentView t)
         = round_half_up (100 * of_int (storedSent t) / of_int (effectiveLimit t))"
    by (simp only: percentOf_not_halfway [OF assms(3,4,1,2) h])
qed

lemma returnedView_fields:
  assumes "0 < effectiveLimit t" and "effectiveLimit t < 2 ^ 53"
    and "0 \<le> snapshotUsed now t" and "snapshotUsed now t < 2 ^ 43"
  shows "limit (returnedView now t) = of_int (effectiveLimit t)
       \<and> used (returnedView now t) = of_int (snapshotUsed now t)
       \<and> remaining (returnedView now t) = of_int (max 0 (effectiveLimit t - snapshotUsed now t))
       \<and> overageCount (returnedView now t) = of_int (max 0 (snapshotUsed now t - effectiveLimit t))
       \<and> (\<not> halfway (snapshotUsed now t) (effectiveLimit t) \<longrightarrow>
           percentUsed (returnedView now t)
           = round_half_up (100 * of_int (snapshotUsed now t) / of_int (effectiveLimit t)))"
proof (cases "needsReset now (currentMonthStart t)")
  case True
  then have v: "returnedView now t = resetView t" and s: "snapshotUsed now t = 0"
    by (simp_all add: returnedView_def snapshotUsed_def)
  show ?thesis
    unfolding v s using resetView_fields [OF assms(1,2)] by blast
next
  case False
  then have v: "returnedView now t = currentView t" and s: "snapshotUsed now t = storedSent t"
    by (simp_all add: returnedView_def snapshotUsed_def)
  from assms(3,4) have b: "0 \<le> storedSent t" "storedSent t < 2 ^ 43"
    by (simp_all only: s)
  show ?thesis
    unfolding v s using currentView_fields [OF assms(1,2) b] by blast
qed

lemma round_half_up_whole: "round_half_up (of_int n) = n"
  unfolding round_half_up_def by (rule floor_unique) simp_all

lemma percentUsed_on_a_tie:
  "halfway 23 40
   \<and> map_sum id percentUsed (fst (getUsage ''small-plan-03'' mar15 marchShop)) = Inr 57
   \<and> round_half_up (100 * 23 / 40) = 58"
proof -
  have "findTenant ''small-plan-03'' marchShop = Some smallPlan" and "connected marchShop"
    and "\<not> needsReset mar15 (currentMonthStart smallPlan)"
    by (simp_all add: marchShop_def shop_def findTenant_def zeroPlan_def smallPlan_def acme_def
        mar15_def needsReset_def monthsDiff_def)
  then have "fst (getUsage ''small-plan-03'' mar15 marchShop) = Inr (currentView smallPlan)"
    by (simp add: getUsage_def)
  moreover have "percentUsed (currentView smallPlan) = 57"
    by code_simp
  moreover have "round_half_up (100 * 23 / 40) = 58"
    by (simp add: round_half_up_def)
  moreover have "halfway 23 40"
    by (simp add: halfway_def)
  ultimately show ?thesis
    by simp
qed

text \<open>
  C6 (as amended). The view \<open>getUsage\<close> returns, after a reset as well as within the
  stored period, is computed against the effective limit, which is the configured limit,
  or 500 when that is \<open>null\<close> or \<open>0\<close>; the effective limit is never \<open>0\<close>. For a
  tenant whose effective limit is positive and below \<open>2^53\<close> and whose counter in the
  snapshot (\<open>0\<close> after a reset, the stored counter otherwise) is at least \<open>0\<close> and
  below \<open>2^43\<close>: \<open>limit\<close> is the effective limit, \<open>used\<close> the counter,
  \<open>remaining = max(0, limit - used)\<close>, \<open>overageCount = max(0, used - limit)\<close>, and
  \<open>percentUsed\<close> is \<open>100 * used / limit\<close> rounded to the nearest whole number
  whenever that quotient does not lie exactly halfway between two whole numbers (75
  for limit 500 and 375 used). In the per-tenant list of \<open>getAllTenantsUsage\<close>, which
  applies no default, \<open>percentUsed\<close> is \<open>0\<close> for a configured limit of \<open>null\<close> or
  \<open>0\<close>.
\<close>

theorem usage_view_of_effective_limit:
  "effectiveLimit t \<noteq> 0
   \<and> (emailMonthlyLimit t = None \<or> emailMonthlyLimit t = Some 0 \<longrightarrow>
        effectiveLimit t = 500 \<and> u_percentUsed (tenantUsage t) = 0)
   \<and> (connected d \<longrightarrow> fst (getAllTenantsUsage d) = Inr (map tenantUsage (tenants d)))
   \<and> (emailMonthlyLimit t = Some l \<and> l \<noteq> 0 \<longrightarrow> effectiveLimit t = l)
   \<and> (needsReset now (currentMonthStart t) \<longrightarrow> snapshotUsed now t = 0)
   \<and> (\<not> needsReset now (currentMonthStart t) \<longrightarrow> snapshotUsed now t = or_int (emailsSentThisMonth t) 0)
   \<and> (connected d \<and> findTenant tenantId d = Some t
       \<and> 0 < effectiveLimit t \<and> effectiveLimit t < 2 ^ 53
       \<and> 0 \<le> snapshotUsed now t \<and> snapshotUsed now t < 2 ^ 43
      \<longrightarrow> fst (getUsage tenantId now d) = Inr (returnedView now t)
        \<and> limit (returnedView now t) = of_int (effectiveLimit t)
        \<and> used (returnedView now t) = of_int (snapshotUsed now t)
        \<and> remaining (returnedView now t) = of_int (max 0 (effectiveLimit t - snapshotUsed now t))
        \<and> overageCount (returnedView now t) = of_int (max 0 (snapshotUsed now t - effectiveLimit t))
        \<and> (\<not> halfway (snapshotUsed now t) (effectiveLimit t) \<longrightarrow>
             percentUsed (returnedView now t)
             = round_half_up (100 * of_int (snapshotUsed now t) / of_int (effectiveLimit t)))
        \<and> (effectiveLimit t = 500 \<and> snapshotUsed now t = 375 \<longrightarrow> percentUsed (returnedView now t) = 75))"
proof -
  have a: "effectiveLimit t \<noteq> 0"
    by (simp add: effectiveLimit_def)
  have b: "emailMonthlyLimit t = None \<or> emailMonthlyLimit t = Some 0 \<longrightarrow>
        effectiveLimit t = 500 \<and> u_percentUsed (tenantUsage t) = 0"
    by (auto simp: effectiveLimit_def or_int_def tenantUsage_def adminPercentUsed_def)
  have c: "emailMonthlyLimit t = Some l \<and> l \<noteq> 0 \<longrightarrow> effectiveLimit t = l"
    by (simp add: effectiveLimit_def or_int_def)
  have c': "connected d \<longrightarrow> fst (getAllTenantsUsage d) = Inr (map tenantUsage (tenants d))"
    by (simp add: getAllTenantsUsage_def)
  have e: "needsReset now (currentMonthStart t) \<longrightarrow> snapshotUsed now t = 0"
    and f: "\<not> needsReset now (currentMonthStart t) \<longrightarrow> snapshotUsed now t = or_int (emailsSentThisMonth t) 0"
    by (simp_all add: snapshotUsed_def storedSent_def)
  have g: "connected d \<and> findTenant tenantId d = Some t
       \<and> 0 < effectiveLimit t \<and> effectiveLimit t < 2 ^ 53
       \<and> 0 \<le> snapshotUsed now t \<and> snapshotUsed now t < 2 ^ 43
      \<longrightarrow> fst (getUsage tenantId now d) = Inr (returnedView now t)
        \<and> limit (returnedView now t) = of_int (effectiveLimit t)
        \<and> used (returnedView now t) = of_int (snapshotUsed now t)
        \<and> remaining (returnedView now t) = of_int (max 0 (effectiveLimit t - snapshotUsed now t))
        \<and> overageCount (returnedView now t) = of_int (max 0 (snapshotUsed now t - effectiveLimit t))
        \<and> (\<not> halfway (snapshotUsed now t) (effectiveLimit t) \<longrightarrow>
             percentUsed (returnedView now t)
             = round_half_up (100 * of_int (snapshotUsed now t) / of_int (effectiveLimit t)))
        \<and> (effectiveLimit t = 500 \<and> snapshotUsed now t = 375 \<longrightarrow> percentUsed (returnedView now t) = 75)"
  proof (intro impI, elim conjE)
    assume h: "connected d" "findTenant tenantId d = Some t"
      and l: "0 < effectiveLimit t" "effectiveLimit t < 2 ^ 53"
      and u: "0 \<le> snapshotUsed now t" "snapshotUsed now t < 2 ^ 43"
    note v = returnedView_fields [OF l u]
    have p: "\<not> halfway (snapshotUsed now t) (effectiveLimit t) \<longrightarrow>
             percentUsed (returnedView now t)
             = round_half_up (100 * of_int (snapshotUsed now t) / of_int (effectiveLimit t))"
      using v by blast
    have q: "effectiveLimit t = 500 \<and> snapshotUsed now t = 375 \<longrightarrow> percentUsed (returnedView now t) = 75"
    proof (intro impI, elim conjE)
      assume k: "effectiveLimit t = 500" "snapshotUsed now t = 375"
      then have "\<not> halfway (snapshotUsed now t) (effectiveLimit t)"
        by (simp add: halfway_def)
      with p have "percentUsed (returnedView now t)
             = round_half_up (100 * of_int (snapshotUsed now t) / of_int (effectiveLimit t))"
        by blast
      also have "\<dots> = round_half_up (of_int 75)"
        by (simp add: k)
      also have "\<dots> = 75"
        by (rule round_half_up_whole)
      finally show "percentUsed (returnedView now t) = 75" .
    qed
    show "fst (getUsage tenantId now d) = Inr (returnedView now t)
        \<and> limit (returnedView now t) = of_int (effectiveLimit t)
        \<and> used (returnedView now t) = of_int (snapshotUsed now t)
        \<and> remaining (returnedView now t) = of_int (max 0 (effectiveLimit t - snapshotUsed now t))
        \<and> overageCount (returnedView now t) = of_int (max 0 (snapshotUsed now t - effectiveLimit t))
        \<and> (\<not> halfway (snapshotUsed now t) (effectiveLimit t) \<longrightarrow>
             percentUsed (returnedView now t)
             = round_half_up (100 * of_int (snapshotUsed now t) / of_int (effectiveLimit t)))
        \<and> (effectiveLimit t = 500 \<and> snapshotUsed now t = 375 \<longrightarrow> percentUsed (returnedView now t) = 75)"
      using getUsage_found [OF h] v q by blast
  qed
  show ?thesis
    by (intro conjI) (fact a b c c' e f g)+
qed

theorem usage_view_of_effective_limit_witness:
  "connected marchShop \<and> findTenant ''zero-plan-02'' marchShop = Some zeroPlan
   \<and> emailMonthlyLimit zeroPlan = Some 0
   \<and> \<not> needsReset mar15 (currentMonthStart zeroPlan)
   \<and> effectiveLimit zeroPlan = 500 \<and> snapshotUsed mar15 zeroPlan = 10
   \<and> \<not> halfway 10 500
   \<and> fst (getUsage ''zero-plan-02'' mar15 marchShop) = Inr (returnedView mar15 zeroPlan)
   \<and> limit (returnedView mar15 zeroPlan) = 500
   \<and> used (returnedView mar15 zeroPlan) = 10
   \<and> remaining (returnedView mar15 zeroPlan) = 490
   \<and> overageCount (returnedView mar15 zeroPlan) = 0
   \<and> percentUsed (returnedView mar15 zeroPlan) = 2
   \<and> connected shop \<and> findTenant ''acme-salon-01'' shop = Some acme
   \<and> needsReset mar15 (currentMonthStart acme)
   \<and> effectiveLimit acme = 500 \<and> snapshotUsed mar15 acme = 0
   \<and> used (returnedView mar15 acme) = 0
   \<and> remaining (returnedView mar15 acme) = 500
   \<and> percentUsed (returnedView mar15 acme) = 0
   \<and> fst (getAllTenantsUsage marchShop) = Inr (map tenantUsage (tenants marchShop))
   \<and> u_percentUsed (tenantUsage zeroPlan) = 0
   \<and> connected quarterShop \<and> findTenant ''quarter-plan-05'' quarterShop = Some quarterPlan
   \<and> effectiveLimit quarterPlan = 500 \<and> snapshotUsed mar15 quarterPlan = 375
   \<and> remaining (returnedView mar15 quarterPlan) = 125
   \<and> percentUsed (returnedView mar15 quarterPlan) = 75"
proof -
  have h1: "connected marchShop" and h2: "findTenant ''zero-plan-02'' marchShop = Some zeroPlan"
    and h3: "\<not> needsReset mar15 (currentMonthStart zeroPlan)"
    by (simp_all add: marchShop_def shop_def findTenant_def zeroPlan_def acme_def mar15_def
        needsReset_def monthsDiff_def)
  have z: "emailMonthlyLimit zeroPlan = Some 0" "or_int (emailsSentThisMonth zeroPlan) 0 = 10"
    by (simp_all add: zeroPlan_def or_int_def)
  have k1: "connected shop" and k2: "findTenant ''acme-salon-01'' shop = Some acme"
    and k3: "needsReset mar15 (currentMonthStart acme)"
    and k4: "emailMonthlyLimit acme = Some 500"
    by (simp_all add: shop_def acme_def mar15_def findTenant_def needsReset_def monthsDiff_def)
  have n: "\<not> halfway 10 500" "\<not> halfway 0 500"
    by (simp_all add: halfway_def)
  note T = usage_view_of_effective_limit
    [where t = zeroPlan and l = 0 and now = mar15 and d = marchShop and tenantId = "''zero-plan-02''"]
  note A = usage_view_of_effective_limit
    [where t = acme and l = 500 and now = mar15 and d = shop and tenantId = "''acme-salon-01''"]
  note Q = usage_view_of_effective_limit
    [where t = quarterPlan and l = 500 and now = mar15 and d = quarterShop
       and tenantId = "''quarter-plan-05''"]
  from T z(1) have l: "effectiveLimit zeroPlan = 500"
    by blast
  from T h3 z(2) have u: "snapshotUsed mar15 zeroPlan = 10"
    by simp
  from T h1 h2 have v: "fst (getUsage ''zero-plan-02'' mar15 marchShop) = Inr (returnedView mar15 zeroPlan)
        \<and> limit (returnedView mar15 zeroPlan) = of_int (effectiveLimit zeroPlan)
        \<and> used (returnedView mar15 zeroPlan) = of_int (snapshotUsed mar15 zeroPlan)
        \<and> remaining (returnedView mar15 zeroPlan)
            = of_int (max 0 (effectiveLimit zeroPlan - snapshotUsed mar15 zeroPlan))
        \<and> overageCount (returnedView mar15 zeroPlan)
            = of_int (max 0 (snapshotUsed mar15 zeroPlan - effectiveLimit zeroPlan))
        \<and> (\<not> halfway (snapshotUsed mar15 zeroPlan) (effectiveLimit zeroPlan) \<longrightarrow>
             percentUsed (returnedView mar15 zeroPlan)
             = round_half_up (100 * of_int (snapshotUsed mar15 zeroPlan) / of_int (effectiveLimit zeroPlan)))"
    by (simp add: l u)
  then have v': "fst (getUsage ''zero-plan-02'' mar15 marchShop) = Inr (returnedView mar15 zeroPlan)
        \<and> limit (returnedView mar15 zeroPlan) = 500
        \<and> used (returnedView mar15 zeroPlan) = 10
        \<and> remaining (returnedView mar15 zeroPlan) = 490
        \<and> overageCount (returnedView mar15 zeroPlan) = 0
        \<and> percentUsed (returnedView mar15 zeroPlan) = 2"
    using n round_half_up_whole [of 2] by (simp add: l u)
  from A k4 have l': "effectiveLimit acme = 500"
    by simp
  from A k3 have u': "snapshotUsed mar15 acme = 0"
    by blast
  from A k1 k2 have w: "used (returnedView mar15 acme) = of_int (snapshotUsed mar15 acme)
        \<and> remaining (returnedView mar15 acme)
            = of_int (max 0 (effectiveLimit acme - snapshotUsed mar15 acme))
        \<and> (\<not> halfway (snapshotUsed mar15 acme) (effectiveLimit acme) \<longrightarrow>
             percentUsed (returnedView mar15 acme)
             = round_half_up (100 * of_int (snapshotUsed mar15 acme) / of_int (effectiveLimit acme)))"
    by (simp add: l' u')
  then have w': "used (returnedView mar15 acme) = 0
        \<and> remaining (returnedView mar15 acme) = 500
        \<and> percentUsed (returnedView mar15 acme) = 0"
    using n round_half_up_whole [of 0] by (simp add: l' u')
  from T h1 have adm: "fst (getAllTenantsUsage marchShop) = Inr (map tenantUsage (tenants marchShop))"
    by blast
  from T z(1) have adm': "u_percentUsed (tenantUsage zeroPlan) = 0"
    by blast
  have q1: "connected quarterShop" and q2: "findTenant ''quarter-plan-05'' quarterShop = Some quarterPlan"
    and q3: "\<not> needsReset mar15 (currentMonthStart quarterPlan)"
    and q4: "emailMonthlyLimit quarterPlan = Some 500"
    and q5: "or_int (emailsSentThisMonth quarterPlan) 0 = 375"
    by (simp_all add: quarterShop_def shop_def findTenant_def quarterPlan_def zeroPlan_def acme_def
        mar15_def needsReset_def monthsDiff_def or_int_def)
  from Q q4 have ql: "effectiveLimit quarterPlan = 500"
    by simp
  from Q q3 q5 have qu: "snapshotUsed mar15 quarterPlan = 375"
    by simp
  from Q q1 q2 have "remaining (returnedView mar15 quarterPlan)
            = of_int (max 0 (effectiveLimit quarterPlan - snapshotUsed mar15 quarterPlan))
        \<and> (effectiveLimit quarterPlan = 500 \<and> snapshotUsed mar15 quarterPlan = 375 \<longrightarrow>
             percentUsed (returnedView mar15 quarterPlan) = 75)"
    by (simp add: ql qu)
  then have qv: "remaining (returnedView mar15 quarterPlan) = 125
        \<and> percentUsed (returnedView mar15 quarterPlan) = 75"
    by (simp add: ql qu)
  from h1 h2 h3 z(1) l u n(1) v' k1 k2 k3 l' u' w' adm adm' q1 q2 ql qu qv show ?thesis
    by simp
qed

theorem zero_limit_view_counterexample:
  "emailMonthlyLimit zeroPlan = Some 0 \<and> emailsSentThisMonth zeroPlan = Some 10
   \<and> fst (getUsage ''zero-plan-02'' mar15 marchShop)
       = Inr \<lparr>limit = 500, used = 10, remaining = 490, overageCount = 0, overageCharge = 0,
              overageRate = parseFloat 10, view_subscriptionPlan = ''basic'', percentUsed = 2\<rparr>
   \<and> max 0 (0 - 10) \<noteq> (490 :: int) \<and> max 0 (10 - 0) \<noteq> (0 :: int)"
proof -
  have t1: "findTenant ''zero-plan-02'' marchShop = Some zeroPlan"
    and c: "connected marchShop"
    and r1: "\<not> needsReset mar15 (currentMonthStart zeroPlan)"
    by (simp_all add: marchShop_def shop_def findTenant_def zeroPlan_def smallPlan_def acme_def
        mar15_def needsReset_def monthsDiff_def)
  have g1: "fst (getUsage ''zero-plan-02'' mar15 marchShop) = Inr (currentView zeroPlan)"
    using t1 c r1 by (simp add: getUsage_def)
  have v1: "currentView zeroPlan
       = \<lparr>limit = 500, used = 10, remaining = 490, overageCount = 0, overageCharge = 0,
              overageRate = parseFloat 10, view_subscriptionPlan = ''basic'', percentUsed = 2\<rparr>"
    by code_simp
  have f: "emailMonthlyLimit zeroPlan = Some 0" "emailsSentThisMonth zeroPlan = Some 10"
    by (simp_all add: zeroPlan_def)
  show ?thesis
    by (simp add: g1 v1 f)
qed

section \<open>Defaults\<close>

text \<open>
  Two ways \<open>w\<close> and \<open>w'\<close> of configuring a tenant row that the procedures cannot tell
  apart: what a procedure returns is the same, and what it writes differs only by the
  configuration itself.
\<close>

lemma updateTenants_absorb:
  assumes "\<And>t. tenant_id (w t) = tenant_id t" and "\<And>t. w' (w t) = w' t"
  shows "updateTenants w' k (updateTenants w k d) = updateTenants w' k d"
  by (simp add: updateTenants_def assms)

lemma updateTenants_commute:
  assumes "\<And>t. tenant_id (w t) = tenant_id t" and "\<And>t. tenant_id (g t) = tenant_id t"
    and "\<And>t. tenant_id (w' t) = tenant_id t"
    and "\<And>t. w' (w t) = w' t" and "\<And>t. w' (g t) = g (w' t)"
  shows "updateTenants w' k (updateTenants g k (updateTenants w k d))
         = updateTenants g k (updateTenants w' k d)"
proof -
  have "(\<lambda>t. if tenant_id t = k then w' t else t)
          \<circ> ((\<lambda>t. if tenant_id t = k then g t else t) \<circ> (\<lambda>t. if tenant_id t = k then w t else t))
        = (\<lambda>t. if tenant_id t = k then g t else t) \<circ> (\<lambda>t. if tenant_id t = k then w' t else t)"
    by (auto simp: fun_eq_iff assms)
  then show ?thesis
    by (simp add: updateTenants_def)
qed

lemma updateTenants_insertLog:
  "updateTenants f k (insertLog l d) = insertLog l (updateTenants f k d)"
  by (simp add: updateTenants_def insertLog_def)

lemma updateTenants_insertInvoice:
  "updateTenants f k (insertInvoice i d) = insertInvoice i (updateTenants f k d)"
  by (simp add: updateTenants_def insertInvoice_def)

lemma existingInvoice_updateTenants [simp]:
  "existingInvoice inp (updateTenants f k d) = existingInvoice inp d"
  by (simp add: existingInvoice_def)

lemma invoiceSeq_updateTenants [simp]: "invoiceSeq (updateTenants f k d) = invoiceSeq d"
  by (simp add: updateTenants_def)

lemma getUsage_same_configuration:
  assumes id: "\<And>t. tenant_id (w t) = tenant_id t" "\<And>t. tenant_id (w' t) = tenant_id t"
    and absorb: "\<And>t. w' (w t) = w' t"
    and comm: "\<And>t. w' (resetCounters now t) = resetCounters now (w' t)"
    and obs: "\<And>t. resetView (w t) = resetView (w' t)" "\<And>t. currentView (w t) = currentView (w' t)"
      "\<And>t. currentMonthStart (w t) = currentMonthStart (w' t)"
  shows "fst (getUsage k now (updateTenants w k d)) = fst (getUsage k now (updateTenants w' k d))
       \<and> updateTenants w' k (snd (getUsage k now (updateTenants w k d)))
           = snd (getUsage k now (updateTenants w' k d))"
proof (cases "findTenant k d")
  case None
  then show ?thesis
    by (simp add: getUsage_def findTenant_updateTenants id updateTenants_absorb absorb)
next
  case (Some t)
  have c: "updateTenants w' k (updateTenants (resetCounters now) k (updateTenants w k d))
         = updateTenants (resetCounters now) k (updateTenants w' k d)"
    by (rule updateTenants_commute) (simp_all add: id absorb comm)
  show ?thesis
    using Some
    by (simp add: getUsage_def findTenant_updateTenants id obs c updateTenants_absorb absorb)
qed

lemma trackEmailSend_same_configuration:
  assumes id: "\<And>t. tenant_id (w t) = tenant_id t" "\<And>t. tenant_id (w' t) = tenant_id t"
    and absorb: "\<And>t. w' (w t) = w' t"
    and comm: "\<And>t row. w' (countSend t row) = countSend t (w' row)"
    and obs: "\<And>t. sendResult (w t) = sendResult (w' t)" "\<And>t. sendLog k inp (w t) = sendLog k inp (w' t)"
      "\<And>t. countSend (w t) = countSend (w' t)"
  shows "fst (trackEmailSend isEmail k inp (updateTenants w k d))
           = fst (trackEmailSend isEmail k inp (updateTenants w' k d))
       \<and> updateTenants w' k (snd (trackEmailSend isEmail k inp (updateTenants w k d)))
           = snd (trackEmailSend isEmail k inp (updateTenants w' k d))"
proof (cases "findTenant k d")
  case None
  then show ?thesis
    by (simp add: trackEmailSend_def findTenant_updateTenants id updateTenants_absorb absorb)
next
  case (Some t)
  have c: "updateTenants w' k (updateTenants (countSend (w' t)) k (updateTenants w k d))
         = updateTenants (countSend (w' t)) k (updateTenants w' k d)"
    by (rule updateTenants_commute) (simp_all add: id absorb comm)
  show ?thesis
    using Some
    by (simp add: trackEmailSend_def findTenant_updateTenants id obs c updateTenants_insertLog
        updateTenants_absorb absorb)
qed

lemma generateMonthlyInvoice_same_configuration:
  assumes id: "\<And>t. tenant_id (w t) = tenant_id t" "\<And>t. tenant_id (w' t) = tenant_id t"
    and absorb: "\<And>t. w' (w t) = w' t"
    and obs: "\<And>t. overLimit (w t) = overLimit (w' t)" "\<And>t. totalAmountOf (w t) = totalAmountOf (w' t)"
      "\<And>t date key. newInvoice rt inp (w t) date key = newInvoice rt inp (w' t) date key"
  shows "fst (generateMonthlyInvoice rt inp (updateTenants w (in_tenantId inp) d))
           = fst (generateMonthlyInvoice rt inp (updateTenants w' (in_tenantId inp) d))
       \<and> updateTenants w' (in_tenantId inp) (snd (generateMonthlyInvoice rt inp (updateTenants w (in_tenantId inp) d)))
           = snd (generateMonthlyInvoice rt inp (updateTenants w' (in_tenantId inp) d))"
proof (cases "findTenant (in_tenantId inp) d")
  case None
  then show ?thesis
    by (simp add: generateMonthlyInvoice_def findTenant_updateTenants id updateTenants_absorb absorb)
next
  case (Some t)
  then show ?thesis
    by (simp add: generateMonthlyInvoice_def findTenant_updateTenants id obs updateTenants_insertInvoice
        updateTenants_absorb absorb split: option.splits)
qed

lemma or_int_defaulted: "l = None \<or> l = Some 0 \<Longrightarrow> or_int l 500 = or_int (Some 500) 500"
  by (auto simp: or_int_def)

lemma withLimit_simps [simp]:
  "tenant_id (withLimit l t) = tenant_id t"
  "withLimit l' (withLimit l t) = withLimit l' t"
  "withLimit l (resetCounters now t) = resetCounters now (withLimit l t)"
  "withLimit l (countSend x t) = countSend x (withLimit l t)"
  "currentMonthStart (withLimit l t) = currentMonthStart t"
  by (simp_all add: withLimit_def resetCounters_def countSend_def)

lemma withRate_simps [simp]:
  "tenant_id (withRate r t) = tenant_id t"
  "withRate r' (withRate r t) = withRate r' t"
  "withRate r (resetCounters now t) = resetCounters now (withRate r t)"
  "withRate r (countSend x t) = countSend x (withRate r t)"
  "currentMonthStart (withRate r t) = currentMonthStart t"
  by (simp_all add: withRate_def resetCounters_def countSend_def)

lemma limit_observations:
  assumes "l = None \<or> l = Some 0"
  shows "resetView (withLimit l t) = resetView (withLimit (Some 500) t)"
    and "currentView (withLimit l t) = currentView (withLimit (Some 500) t)"
    and "sendResult (withLimit l t) = sendResult (withLimit (Some 500) t)"
    and "sendLog k inp (withLimit l t) = sendLog k inp (withLimit (Some 500) t)"
    and "countSend (withLimit l t) = countSend (withLimit (Some 500) t)"
    and "overLimit (withLimit l t) = overLimit (withLimit (Some 500) t)"
    and "totalAmountOf (withLimit l t) = totalAmountOf (withLimit (Some 500) t)"
    and "newInvoice rt ginp (withLimit l t) date key = newInvoice rt ginp (withLimit (Some 500) t) date key"
  using or_int_defaulted [OF assms]
  by (simp_all add: withLimit_def resetView_def currentView_def sendResult_def sendLog_def
      countSend_def fun_eq_iff sendIsOverage_def sendOverageCost_def overLimit_def totalAmountOf_def
      vatAmountOf_def subtotalOf_def newInvoice_def limitOf_def sentOf_def usedAfterSend_def)

lemma rate_observations:
  shows "resetView (withRate None t) = resetView (withRate (Some 10) t)"
    and "currentView (withRate None t) = currentView (withRate (Some 10) t)"
    and "sendResult (withRate None t) = sendResult (withRate (Some 10) t)"
    and "sendLog k inp (withRate None t) = sendLog k inp (withRate (Some 10) t)"
    and "countSend (withRate None t) = countSend (withRate (Some 10) t)"
    and "overLimit (withRate None t) = overLimit (withRate (Some 10) t)"
    and "totalAmountOf (withRate None t) = totalAmountOf (withRate (Some 10) t)"
    and "newInvoice rt ginp (withRate None t) date key = newInvoice rt ginp (withRate (Some 10) t) date key"
  by (simp_all add: withRate_def resetView_def currentView_def sendResult_def sendLog_def
      countSend_def fun_eq_iff sendIsOverage_def sendOverageCost_def overLimit_def totalAmountOf_def
      vatAmountOf_def subtotalOf_def newInvoice_def or_dec_def limitOf_def sentOf_def usedAfterSend_def)

text \<open>
  What the three procedures compute for a tenant whose configured limit is \<open>null\<close> or
  \<open>0\<close>, and for one whose rate is not set.
\<close>

lemma limitOf_default:
  assumes "emailMonthlyLimit t = None \<or> emailMonthlyLimit t = Some 0"
  shows "limitOf t = of_int 500"
proof -
  from assms have "or_int (emailMonthlyLimit t) 500 = 500"
    by (auto simp: or_int_def)
  then have "limitOf t = num_of_int 500"
    by (simp add: limitOf_def)
  also have "\<dots> = of_int 500"
    by (rule num_of_int_exact) simp
  finally show ?thesis .
qed

lemma sentOf_stored:
  assumes "\<bar>storedSent t\<bar> < 2 ^ 52"
  shows "sentOf t = of_int (storedSent t)"
proof -
  from assms have "\<bar>or_int (emailsSentThisMonth t) 0\<bar> < 2 ^ 53"
    by (simp add: storedSent_def)
  then show ?thesis
    by (simp only: sentOf_exact storedSent_def)
qed

lemma usedAfterSend_stored:
  assumes "\<bar>storedSent t\<bar> < 2 ^ 52"
  shows "usedAfterSend t = of_int (storedSent t + 1)"
proof -
  from assms have "\<bar>or_int (emailsSentThisMonth t) 0\<bar> < 2 ^ 53 - 1"
    by (simp add: storedSent_def)
  then show ?thesis
    by (simp only: usedAfterSend_exact storedSent_def)
qed

lemma default_limit_view:
  assumes "emailMonthlyLimit t = None \<or> emailMonthlyLimit t = Some 0"
  shows "limit (returnedView now t) = 500"
    and "needsReset now (currentMonthStart t) \<Longrightarrow>
         remaining (returnedView now t) = 500 \<and> overageCount (returnedView now t) = 0"
    and "\<not> needsReset now (currentMonthStart t) \<Longrightarrow> \<bar>storedSent t\<bar> < 2 ^ 52 \<Longrightarrow>
         used (returnedView now t) = of_int (storedSent t)
         \<and> remaining (returnedView now t) = of_int (max 0 (500 - storedSent t))
         \<and> overageCount (returnedView now t) = of_int (max 0 (storedSent t - 500))"
proof -
  note l = limitOf_default [OF assms]
  show "limit (returnedView now t) = 500"
    by (simp add: returnedView_def resetView_def currentView_def Let_def l)
  show "needsReset now (currentMonthStart t) \<Longrightarrow>
         remaining (returnedView now t) = 500 \<and> overageCount (returnedView now t) = 0"
    by (simp add: returnedView_def resetView_def l)
  assume n: "\<not> needsReset now (currentMonthStart t)" and b: "\<bar>storedSent t\<bar> < 2 ^ 52"
  note u = sentOf_stored [OF b]
  from b have d1: "\<bar>500 - storedSent t\<bar> < 2 ^ 53" and d2: "\<bar>storedSent t - 500\<bar> < 2 ^ 53"
    by simp_all
  have v: "returnedView now t = currentView t"
    using n by (simp add: returnedView_def)
  have "used (currentView t) = of_int (storedSent t)"
    by (simp add: currentView_def Let_def u)
  moreover have "remaining (currentView t) = max 0 (num_sub (of_int 500) (of_int (storedSent t)))"
    by (simp only: currentView_def Let_def l u usage_view.simps)
  then have "remaining (currentView t) = of_int (max 0 (500 - storedSent t))"
    by (simp only: num_sub_exact [OF d1] max_of_int_rat)
  moreover have "overageCount (currentView t) = max 0 (num_sub (of_int (storedSent t)) (of_int 500))"
    by (simp only: currentView_def Let_def l u usage_view.simps)
  then have "overageCount (currentView t) = of_int (max 0 (storedSent t - 500))"
    by (simp only: num_sub_exact [OF d2] max_of_int_rat)
  ultimately show "used (returnedView now t) = of_int (storedSent t)
         \<and> remaining (returnedView now t) = of_int (max 0 (500 - storedSent t))
         \<and> overageCount (returnedView now t) = of_int (max 0 (storedSent t - 500))"
    by (simp only: v simp_thms)
qed

lemma default_rate_view:
  assumes "emailOverageRate t = None"
  shows "overageRate (returnedView now t) = parseFloat 10"
  using assms by (simp add: returnedView_def resetView_def currentView_def Let_def or_dec_def)

lemma default_limit_send:
  assumes "emailMonthlyLimit t = None \<or> emailMonthlyLimit t = Some 0" and "\<bar>storedSent t\<bar> < 2 ^ 52"
  shows "res_isOverage (sendResult t) = (500 < storedSent t + 1)"
    and "totalUsed (sendResult t) = of_int (storedSent t + 1)"
    and "res_remaining (sendResult t) = of_int (max 0 (500 - (storedSent t + 1)))"
    and "emailsSentThisMonth (countSend t row) = Some (storedSent t + 1)"
    and "isOverage (sendLog k inp t) = (500 < storedSent t + 1)"
proof -
  note l = limitOf_default [OF assms(1)]
  note u = usedAfterSend_stored [OF assms(2)]
  from assms(2) have d: "\<bar>500 - (storedSent t + 1)\<bar> < 2 ^ 53"
    by simp
  have o: "sendIsOverage t = (500 < storedSent t + 1)"
    by (simp only: sendIsOverage_def l u of_int_less_iff)
  show "res_isOverage (sendResult t) = (500 < storedSent t + 1)"
    by (simp add: sendResult_def o)
  show "isOverage (sendLog k inp t) = (500 < storedSent t + 1)"
    by (simp add: sendLog_def o)
  show "totalUsed (sendResult t) = of_int (storedSent t + 1)"
    by (simp only: sendResult_def u track_result.simps)
  have "res_remaining (sendResult t) = max 0 (num_sub (of_int 500) (of_int (storedSent t + 1)))"
    by (simp only: sendResult_def l u track_result.simps)
  then show "res_remaining (sendResult t) = of_int (max 0 (500 - (storedSent t + 1)))"
    by (simp only: num_sub_exact [OF d] max_of_int_rat)
  have "emailsSentThisMonth (countSend t row) = Some (int_of_num (of_int (storedSent t + 1)))"
    by (simp add: countSend_def u)
  then show "emailsSentThisMonth (countSend t row) = Some (storedSent t + 1)"
    by (simp only: int_of_num_of_int)
qed

lemma toFixed2_zero: "toFixed2 0 = 0"
  by (simp add: toFixed2_def floor_half)

lemma default_rate_send:
  assumes "emailOverageRate t = None"
  shows "res_overageCost (sendResult t) = (if res_isOverage (sendResult t) then parseFloat 10 else 0)"
    and "overageCost (sendLog k inp t) = (if isOverage (sendLog k inp t) then 10 else 0)"
proof -
  have "toFixed2 (parseFloat 10) = 10"
    by (rule toFixed2_parseFloat) simp_all
  then show "overageCost (sendLog k inp t) = (if isOverage (sendLog k inp t) then 10 else 0)"
    using assms by (simp add: sendLog_def sendOverageCost_def or_dec_def toFixed2_zero)
  show "res_overageCost (sendResult t) = (if res_isOverage (sendResult t) then parseFloat 10 else 0)"
    using assms by (simp add: sendResult_def sendOverageCost_def or_dec_def)
qed

lemma default_limit_overLimit:
  assumes "emailMonthlyLimit t = None \<or> emailMonthlyLimit t = Some 0" and "\<bar>storedSent t\<bar> < 2 ^ 52"
  shows "overLimit t = of_int (max 0 (storedSent t - 500))"
proof -
  note l = limitOf_default [OF assms(1)]
  note u = sentOf_stored [OF assms(2)]
  from assms(2) have d: "\<bar>storedSent t - 500\<bar> < 2 ^ 53"
    by simp
  show ?thesis
    by (simp only: overLimit_def l u num_sub_exact [OF d] max_of_int_rat)
qed

lemma default_limit_invoice:
  assumes "connected d" and "findTenant (in_tenantId ginp) d = Some t"
    and "existingInvoice ginp d = None"
    and "emailMonthlyLimit t = None \<or> emailMonthlyLimit t = Some 0" and "\<bar>storedSent t\<bar> < 2 ^ 52"
  shows "storedSent t \<le> 500 \<Longrightarrow>
         generateMonthlyInvoice rt ginp d = (Inl (TRPCError BAD_REQUEST ''No overage to bill''), d)"
    and "500 < storedSent t \<Longrightarrow> newDate rt (in_billingPeriodEnd ginp) = Some date \<Longrightarrow>
         generateMonthlyInvoice rt ginp d
         = (Inr \<lparr>res_invoiceId = Suc (invoiceSeq d),
                 res_invoiceNumber = generateInvoiceNumber (in_tenantId ginp) date,
                 res_totalAmount = toFixed2 (totalAmountOf t)\<rparr>,
            insertInvoice (newInvoice rt ginp t date (Suc (invoiceSeq d))) d)"
    and "500 < storedSent t \<Longrightarrow>
         emailsOverLimit (newInvoice rt ginp t date key) = storedSent t - 500"
    and "500 < storedSent t \<Longrightarrow> emailOverageRate t = None \<Longrightarrow> (storedSent t - 500) * 10 < 2 ^ 50 \<Longrightarrow>
         inv_overageRate (newInvoice rt ginp t date key) = 10
         \<and> subtotal (newInvoice rt ginp t date key) = (storedSent t - 500) * 10"
proof -
  note o = default_limit_overLimit [OF assms(4,5)]
  show "storedSent t \<le> 500 \<Longrightarrow>
         generateMonthlyInvoice rt ginp d = (Inl (TRPCError BAD_REQUEST ''No overage to bill''), d)"
    using assms(1-3) by (simp add: generateMonthlyInvoice_def o)
  show "500 < storedSent t \<Longrightarrow> newDate rt (in_billingPeriodEnd ginp) = Some date \<Longrightarrow>
         generateMonthlyInvoice rt ginp d
         = (Inr \<lparr>res_invoiceId = Suc (invoiceSeq d),
                 res_invoiceNumber = generateInvoiceNumber (in_tenantId ginp) date,
                 res_totalAmount = toFixed2 (totalAmountOf t)\<rparr>,
            insertInvoice (newInvoice rt ginp t date (Suc (invoiceSeq d))) d)"
    using assms(1-3) by (simp add: generateMonthlyInvoice_def o)
  show "500 < storedSent t \<Longrightarrow>
         emailsOverLimit (newInvoice rt ginp t date key) = storedSent t - 500"
    by (simp add: newInvoice_def o int_of_num_def)
  assume p: "500 < storedSent t" and r: "emailOverageRate t = None"
    and b: "(storedSent t - 500) * 10 < 2 ^ 50"
  from p have o': "overLimit t = of_int (storedSent t - 500)"
    by (simp add: o)
  from r have r': "or_dec (emailOverageRate t) 10 = 10"
    by (simp add: or_dec_def)
  from p have "1 \<le> storedSent t - 500"
    by simp
  from stored_rate_and_subtotal [OF o' this, of rt ginp date key] b
  show "inv_overageRate (newInvoice rt ginp t date key) = 10
         \<and> subtotal (newInvoice rt ginp t date key) = (storedSent t - 500) * 10"
    by (simp add: r')
qed

lemma default_view_facts:
  assumes "l = None \<or> l = Some 0"
  shows "connected d \<and> findTenant k d = Some t \<and> emailMonthlyLimit t = l \<longrightarrow>
            fst (getUsage k now d) = Inr (returnedView now t)
            \<and> limit (returnedView now t) = 500
            \<and> (needsReset now (currentMonthStart t) \<longrightarrow>
                 remaining (returnedView now t) = 500 \<and> overageCount (returnedView now t) = 0)
            \<and> (\<not> needsReset now (currentMonthStart t) \<and> \<bar>storedSent t\<bar> < 2 ^ 52 \<longrightarrow>
                 used (returnedView now t) = of_int (storedSent t)
                 \<and> remaining (returnedView now t) = of_int (max 0 (500 - storedSent t))
                 \<and> overageCount (returnedView now t) = of_int (max 0 (storedSent t - 500)))
            \<and> (emailOverageRate t = None \<longrightarrow> overageRate (returnedView now t) = parseFloat 10)"
proof (intro impI, elim conjE)
  assume h: "connected d" "findTenant k d = Some t" and "emailMonthlyLimit t = l"
  with assms have c: "emailMonthlyLimit t = None \<or> emailMonthlyLimit t = Some 0"
    by simp
  show "fst (getUsage k now d) = Inr (returnedView now t)
            \<and> limit (returnedView now t) = 500
            \<and> (needsReset now (currentMonthStart t) \<longrightarrow>
                 remaining (returnedView now t) = 500 \<and> overageCount (returnedView now t) = 0)
            \<and> (\<not> needsReset now (currentMonthStart t) \<and> \<bar>storedSent t\<bar> < 2 ^ 52 \<longrightarrow>
                 used (returnedView now t) = of_int (storedSent t)
                 \<and> remaining (returnedView now t) = of_int (max 0 (500 - storedSent t))
                 \<and> overageCount (returnedView now t) = of_int (max 0 (storedSent t - 500)))
            \<and> (emailOverageRate t = None \<longrightarrow> overageRate (returnedView now t) = parseFloat 10)"
    using getUsage_found [OF h, of now] default_limit_view [OF c, of now] default_rate_view [of t now]
    by blast
qed

lemma default_send_facts:
  assumes "l = None \<or> l = Some 0"
  shows "connected d \<and> findTenant k d = Some t \<and> emailMonthlyLimit t = l
          \<and> isEmail (in_recipientEmail inp) \<and> \<bar>storedSent t\<bar> < 2 ^ 52 \<longrightarrow>
            trackEmailSend isEmail k inp d
              = (Inr (sendResult t), insertLog (sendLog k inp t) (updateTenants (countSend t) k d))
            \<and> res_isOverage (sendResult t) = (500 < storedSent t + 1)
            \<and> totalUsed (sendResult t) = of_int (storedSent t + 1)
            \<and> res_remaining (sendResult t) = of_int (max 0 (500 - (storedSent t + 1)))
            \<and> findTenant k (snd (trackEmailSend isEmail k inp d)) = Some (countSend t t)
            \<and> emailsSentThisMonth (countSend t t) = Some (storedSent t + 1)
            \<and> emailOverageCharge (countSend t t)
                = Some (toFixed2 (num_add (parseFloat (or_dec (emailOverageCharge t) 0))
                                          (res_overageCost (sendResult t))))
            \<and> isOverage (sendLog k inp t) = (500 < storedSent t + 1)
            \<and> (emailOverageRate t = None \<longrightarrow>
                 res_overageCost (sendResult t) = (if 500 < storedSent t + 1 then parseFloat 10 else 0)
                 \<and> overageCost (sendLog k inp t) = (if 500 < storedSent t + 1 then 10 else 0))"
proof (intro impI, elim conjE)
  assume h: "connected d" "findTenant k d = Some t" and "emailMonthlyLimit t = l"
    and e: "isEmail (in_recipientEmail inp)" and b: "\<bar>storedSent t\<bar> < 2 ^ 52"
  with assms have c: "emailMonthlyLimit t = None \<or> emailMonthlyLimit t = Some 0"
    by simp
  note r = trackEmailSend_found [where isEmail = isEmail and inp = inp, OF e h]
  note s = default_limit_send [OF c b]
  have f: "findTenant k (snd (trackEmailSend isEmail k inp d)) = Some (countSend t t)"
    using h(2) by (simp add: r findTenant_updateTenants)
  have p: "emailOverageRate t = None \<longrightarrow>
                 res_overageCost (sendResult t) = (if 500 < storedSent t + 1 then parseFloat 10 else 0)
                 \<and> overageCost (sendLog k inp t) = (if 500 < storedSent t + 1 then 10 else 0)"
    using default_rate_send(1) [of t] default_rate_send(2) [of t k inp] by (simp only: s(1,5)) blast
  have g: "emailOverageCharge (countSend t t)
                = Some (toFixed2 (num_add (parseFloat (or_dec (emailOverageCharge t) 0))
                                          (res_overageCost (sendResult t))))"
    by (simp add: countSend_def sendResult_def)
  show "trackEmailSend isEmail k inp d
              = (Inr (sendResult t), insertLog (sendLog k inp t) (updateTenants (countSend t) k d))
            \<and> res_isOverage (sendResult t) = (500 < storedSent t + 1)
            \<and> totalUsed (sendResult t) = of_int (storedSent t + 1)
            \<and> res_remaining (sendResult t) = of_int (max 0 (500 - (storedSent t + 1)))
            \<and> findTenant k (snd (trackEmailSend isEmail k inp d)) = Some (countSend t t)
            \<and> emailsSentThisMonth (countSend t t) = Some (storedSent t + 1)
            \<and> emailOverageCharge (countSend t t)
                = Some (toFixed2 (num_add (parseFloat (or_dec (emailOverageCharge t) 0))
                                          (res_overageCost (sendResult t))))
            \<and> isOverage (sendLog k inp t) = (500 < storedSent t + 1)
            \<and> (emailOverageRate t = None \<longrightarrow>
                 res_overageCost (sendResult t) = (if 500 < storedSent t + 1 then parseFloat 10 else 0)
                 \<and> overageCost (sendLog k inp t) = (if 500 < storedSent t + 1 then 10 else 0))"
    by (intro conjI) (fact r s f p g)+
qed

lemma default_invoice_facts:
  assumes "l = None \<or> l = Some 0"
  shows "connected d \<and> findTenant (in_tenantId ginp) d = Some t \<and> emailMonthlyLimit t = l
          \<and> existingInvoice ginp d = None \<and> \<bar>storedSent t\<bar> < 2 ^ 52 \<longrightarrow>
            (storedSent t \<le> 500 \<longrightarrow>
               generateMonthlyInvoice rt ginp d = (Inl (TRPCError BAD_REQUEST ''No overage to bill''), d))
            \<and> (500 < storedSent t \<and> newDate rt (in_billingPeriodEnd ginp) = Some date \<longrightarrow>
                 generateMonthlyInvoice rt ginp d
                 = (Inr \<lparr>res_invoiceId = Suc (invoiceSeq d),
                         res_invoiceNumber = generateInvoiceNumber (in_tenantId ginp) date,
                         res_totalAmount = toFixed2 (totalAmountOf t)\<rparr>,
                    insertInvoice (newInvoice rt ginp t date (Suc (invoiceSeq d))) d)
                 \<and> emailsOverLimit (newInvoice rt ginp t date (Suc (invoiceSeq d))) = storedSent t - 500
                 \<and> (emailOverageRate t = None \<and> (storedSent t - 500) * 10 < 2 ^ 50 \<longrightarrow>
                      inv_overageRate (newInvoice rt ginp t date (Suc (invoiceSeq d))) = 10
                      \<and> subtotal (newInvoice rt ginp t date (Suc (invoiceSeq d)))
                          = (storedSent t - 500) * 10))"
proof (intro impI, elim conjE)
  assume h: "connected d" "findTenant (in_tenantId ginp) d = Some t"
    and "emailMonthlyLimit t = l" and x: "existingInvoice ginp d = None"
    and b: "\<bar>storedSent t\<bar> < 2 ^ 52"
  with assms have c: "emailMonthlyLimit t = None \<or> emailMonthlyLimit t = Some 0"
    by simp
  note i = default_limit_invoice [OF h x c b]
  show "(storedSent t \<le> 500 \<longrightarrow>
               generateMonthlyInvoice rt ginp d = (Inl (TRPCError BAD_REQUEST ''No overage to bill''), d))
            \<and> (500 < storedSent t \<and> newDate rt (in_billingPeriodEnd ginp) = Some date \<longrightarrow>
                 generateMonthlyInvoice rt ginp d
                 = (Inr \<lparr>res_invoiceId = Suc (invoiceSeq d),
                         res_invoiceNumber = generateInvoiceNumber (in_tenantId ginp) date,
                         res_totalAmount = toFixed2 (totalAmountOf t)\<rparr>,
                    insertInvoice (newInvoice rt ginp t date (Suc (invoiceSeq d))) d)
                 \<and> emailsOverLimit (newInvoice rt ginp t date (Suc (invoiceSeq d))) = storedSent t - 500
                 \<and> (emailOverageRate t = None \<and> (storedSent t - 500) * 10 < 2 ^ 50 \<longrightarrow>
                      inv_overageRate (newInvoice rt ginp t date (Suc (invoiceSeq d))) = 10
                      \<and> subtotal (newInvoice rt ginp t date (Suc (invoiceSeq d)))
                          = (storedSent t - 500) * 10))"
    using i by blast
qed

text \<open>
  C9 (as amended). A tenant whose configured limit is \<open>null\<close> or \<open>0\<close> is served by
  \<open>getUsage\<close>, \<open>trackEmailSend\<close> and \<open>generateMonthlyInvoice\<close> as one whose limit is
  500, and a tenant with no overage rate as one with the rate 0.10: the three procedures
  return the same result for both configurations, and the databases they leave differ
  in the configured value only. What they compute, they compute against 500 and 0.10.
  For such a tenant with a stored counter below \<open>2^52\<close> in magnitude: the view of
  \<open>getUsage\<close> has the limit 500, \<open>remaining = max(0, 500 - used)\<close> and
  \<open>overageCount = max(0, used - 500)\<close> (500 and 0 after a reset), and the rate 0.10
  when none is set; a send with a valid recipient writes the stored counter plus one
  and is an overage exactly when that exceeds 500, at a cost of 0.10 when no rate is
  set, which is added to the accrued charge; a period not invoiced yet is refused with \<open>BAD_REQUEST\<close> when the counter does
  not exceed 500, and otherwise an invoice is stored for the emails beyond 500, at 0.10
  each when no rate is set. The per-tenant list of \<open>getAllTenantsUsage\<close> applies no
  default, and there the configurations do differ.
\<close>

theorem null_or_zero_limit_is_500:
  assumes "l = None \<or> l = Some 0"
  shows "fst (getUsage k now (setLimit l k d)) = fst (getUsage k now (setLimit (Some 500) k d))
       \<and> setLimit (Some 500) k (snd (getUsage k now (setLimit l k d)))
           = snd (getUsage k now (setLimit (Some 500) k d))
       \<and> fst (trackEmailSend isEmail k inp (setLimit l k d))
           = fst (trackEmailSend isEmail k inp (setLimit (Some 500) k d))
       \<and> setLimit (Some 500) k (snd (trackEmailSend isEmail k inp (setLimit l k d)))
           = snd (trackEmailSend isEmail k inp (setLimit (Some 500) k d))
       \<and> fst (generateMonthlyInvoice rt ginp (setLimit l (in_tenantId ginp) d))
           = fst (generateMonthlyInvoice rt ginp (setLimit (Some 500) (in_tenantId ginp) d))
       \<and> setLimit (Some 500) (in_tenantId ginp)
             (snd (generateMonthlyInvoice rt ginp (setLimit l (in_tenantId ginp) d)))
           = snd (generateMonthlyInvoice rt ginp (setLimit (Some 500) (in_tenantId ginp) d))
       \<and> fst (getUsage k now (setRate None k d)) = fst (getUsage k now (setRate (Some 10) k d))
       \<and> setRate (Some 10) k (snd (getUsage k now (setRate None k d)))
           = snd (getUsage k now (setRate (Some 10) k d))
       \<and> fst (trackEmailSend isEmail k inp (setRate None k d))
           = fst (trackEmailSend isEmail k inp (setRate (Some 10) k d))
       \<and> setRate (Some 10) k (snd (trackEmailSend isEmail k inp (setRate None k d)))
           = snd (trackEmailSend isEmail k inp (setRate (Some 10) k d))
       \<and> fst (generateMonthlyInvoice rt ginp (setRate None (in_tenantId ginp) d))
           = fst (generateMonthlyInvoice rt ginp (setRate (Some 10) (in_tenantId ginp) d))
       \<and> setRate (Some 10) (in_tenantId ginp)
             (snd (generateMonthlyInvoice rt ginp (setRate None (in_tenantId ginp) d)))
           = snd (generateMonthlyInvoice rt ginp (setRate (Some 10) (in_tenantId ginp) d))
       \<and> (connected d \<and> findTenant k d = Some t \<longrightarrow>
            map_sum id limit (fst (getUsage k now (setLimit l k d))) = Inr 500)
       \<and> (connected d \<and> findTenant k d = Some t \<and> emailMonthlyLimit t = l \<longrightarrow>
            fst (getUsage k now d) = Inr (returnedView now t)
            \<and> limit (returnedView now t) = 500
            \<and> (needsReset now (currentMonthStart t) \<longrightarrow>
                 remaining (returnedView now t) = 500 \<and> overageCount (returnedView now t) = 0)
            \<and> (\<not> needsReset now (currentMonthStart t) \<and> \<bar>storedSent t\<bar> < 2 ^ 52 \<longrightarrow>
                 used (returnedView now t) = of_int (storedSent t)
                 \<and> remaining (returnedView now t) = of_int (max 0 (500 - storedSent t))
                 \<and> overageCount (returnedView now t) = of_int (max 0 (storedSent t - 500)))
            \<and> (emailOverageRate t = None \<longrightarrow> overageRate (returnedView now t) = parseFloat 10))
       \<and> (connected d \<and> findTenant k d = Some t \<and> emailMonthlyLimit t = l
          \<and> isEmail (in_recipientEmail inp) \<and> \<bar>storedSent t\<bar> < 2 ^ 52 \<longrightarrow>
            trackEmailSend isEmail k inp d
              = (Inr (sendResult t), insertLog (sendLog k inp t) (updateTenants (countSend t) k d))
            \<and> res_isOverage (sendResult t) = (500 < storedSent t + 1)
            \<and> totalUsed (sendResult t) = of_int (storedSent t + 1)
            \<and> res_remaining (sendResult t) = of_int (max 0 (500 - (storedSent t + 1)))
            \<and> findTenant k (snd (trackEmailSend isEmail k inp d)) = Some (countSend t t)
            \<and> emailsSentThisMonth (countSend t t) = Some (storedSent t + 1)
            \<and> emailOverageCharge (countSend t t)
                = Some (toFixed2 (num_add (parseFloat (or_dec (emailOverageCharge t) 0))
                                          (res_overageCost (sendResult t))))
            \<and> isOverage (sendLog k inp t) = (500 < storedSent t + 1)
            \<and> (emailOverageRate t = None \<longrightarrow>
                 res_overageCost (sendResult t) = (if 500 < storedSent t + 1 then parseFloat 10 else 0)
                 \<and> overageCost (sendLog k inp t) = (if 500 < storedSent t + 1 then 10 else 0)))
       \<and> (connected d \<and> findTenant (in_tenantId ginp) d = Some t \<and> emailMonthlyLimit t = l
          \<and> existingInvoice ginp d = None \<and> \<bar>storedSent t\<bar> < 2 ^ 52 \<longrightarrow>
            (storedSent t \<le> 500 \<longrightarrow>
               generateMonthlyInvoice rt ginp d = (Inl (TRPCError BAD_REQUEST ''No overage to bill''), d))
            \<and> (500 < storedSent t \<and> newDate rt (in_billingPeriodEnd ginp) = Some date \<longrightarrow>
                 generateMonthlyInvoice rt ginp d
                 = (Inr \<lparr>res_invoiceId = Suc (invoiceSeq d),
                         res_invoiceNumber = generateInvoiceNumber (in_tenantId ginp) date,
                         res_totalAmount = toFixed2 (totalAmountOf t)\<rparr>,
                    insertInvoice (newInvoice rt ginp t date (Suc (invoiceSeq d))) d)
                 \<and> emailsOverLimit (newInvoice rt ginp t date (Suc (invoiceSeq d))) = storedSent t - 500
                 \<and> (emailOverageRate t = None \<and> (storedSent t - 500) * 10 < 2 ^ 50 \<longrightarrow>
                      inv_overageRate (newInvoice rt ginp t date (Suc (invoiceSeq d))) = 10
                      \<and> subtotal (newInvoice rt ginp t date (Suc (invoiceSeq d)))
                          = (storedSent t - 500) * 10)))"
proof -
  note lo = limit_observations [OF assms]
  have g1: "fst (getUsage k now (setLimit l k d)) = fst (getUsage k now (setLimit (Some 500) k d))
       \<and> setLimit (Some 500) k (snd (getUsage k now (setLimit l k d)))
           = snd (getUsage k now (setLimit (Some 500) k d))"
    unfolding setLimit_def
    by (rule getUsage_same_configuration) (simp_all add: lo)
  have t1: "fst (trackEmailSend isEmail k inp (setLimit l k d))
           = fst (trackEmailSend isEmail k inp (setLimit (Some 500) k d))
       \<and> setLimit (Some 500) k (snd (trackEmailSend isEmail k inp (setLimit l k d)))
           = snd (trackEmailSend isEmail k inp (setLimit (Some 500) k d))"
    unfolding setLimit_def
    by (rule trackEmailSend_same_configuration) (simp_all add: lo)
  have i1: "fst (generateMonthlyInvoice rt ginp (setLimit l (in_tenantId ginp) d))
           = fst (generateMonthlyInvoice rt ginp (setLimit (Some 500) (in_tenantId ginp) d))
       \<and> setLimit (Some 500) (in_tenantId ginp)
             (snd (generateMonthlyInvoice rt ginp (setLimit l (in_tenantId ginp) d)))
           = snd (generateMonthlyInvoice rt ginp (setLimit (Some 500) (in_tenantId ginp) d))"
    unfolding setLimit_def
    by (rule generateMonthlyInvoice_same_configuration) (simp_all add: lo)
  have g2: "fst (getUsage k now (setRate None k d)) = fst (getUsage k now (setRate (Some 10) k d))
       \<and> setRate (Some 10) k (snd (getUsage k now (setRate None k d)))
           = snd (getUsage k now (setRate (Some 10) k d))"
    unfolding setRate_def
    by (rule getUsage_same_configuration) (simp_all add: rate_observations)
  have t2: "fst (trackEmailSend isEmail k inp (setRate None k d))
           = fst (trackEmailSend isEmail k inp (setRate (Some 10) k d))
       \<and> setRate (Some 10) k (snd (trackEmailSend isEmail k inp (setRate None k d)))
           = snd (trackEmailSend isEmail k inp (setRate (Some 10) k d))"
    unfolding setRate_def
    by (rule trackEmailSend_same_configuration) (simp_all add: rate_observations)
  have i2: "fst (generateMonthlyInvoice rt ginp (setRate None (in_tenantId ginp) d))
           = fst (generateMonthlyInvoice rt ginp (setRate (Some 10) (in_tenantId ginp) d))
       \<and> setRate (Some 10) (in_tenantId ginp)
             (snd (generateMonthlyInvoice rt ginp (setRate None (in_tenantId ginp) d)))
           = snd (generateMonthlyInvoice rt ginp (setRate (Some 10) (in_tenantId ginp) d))"
    unfolding setRate_def
    by (rule generateMonthlyInvoice_same_configuration) (simp_all add: rate_observations)
  have v: "connected d \<and> findTenant k d = Some t \<longrightarrow>
            map_sum id limit (fst (getUsage k now (setLimit l k d))) = Inr 500"
  proof (intro impI, elim conjE)
    assume h: "connected d" "findTenant k d = Some t"
    have c: "connected (setLimit l k d)" and f: "findTenant k (setLimit l k d) = Some (withLimit l t)"
      using h by (simp_all add: setLimit_def findTenant_updateTenants)
    have "emailMonthlyLimit (withLimit l t) = None \<or> emailMonthlyLimit (withLimit l t) = Some 0"
      using assms by (simp add: withLimit_def)
    from getUsage_found [OF c f, of now] default_limit_view(1) [OF this, of now]
    show "map_sum id limit (fst (getUsage k now (setLimit l k d))) = Inr 500"
      by simp
  qed
  show ?thesis
    by (intro conjI)
      (fact g1 [THEN conjunct1] g1 [THEN conjunct2] t1 [THEN conjunct1] t1 [THEN conjunct2]
        i1 [THEN conjunct1] i1 [THEN conjunct2] g2 [THEN conjunct1] g2 [THEN conjunct2]
        t2 [THEN conjunct1] t2 [THEN conjunct2] i2 [THEN conjunct1] i2 [THEN conjunct2] v
        default_view_facts [OF assms] default_send_facts [OF assms] default_invoice_facts [OF assms])+
qed

theorem null_or_zero_limit_is_500_witness:
  "((None :: int option) = None \<or> (None :: int option) = Some 0)
   \<and> connected unsetShop \<and> findTenant ''unset-plan-04'' unsetShop = Some unsetPlan
   \<and> emailMonthlyLimit unsetPlan = None \<and> emailOverageRate unsetPlan = None
   \<and> storedSent unsetPlan = 510
   \<and> \<not> needsReset mar15 (currentMonthStart unsetPlan)
   \<and> sampleIsEmail (in_recipientEmail welcomeMail)
   \<and> in_tenantId unsetPeriod = ''unset-plan-04''
   \<and> existingInvoice unsetPeriod unsetShop = None
   \<and> newDate sampleRuntime (in_billingPeriodEnd unsetPeriod)
       = Some \<lparr>getFullYear = 2025, getMonth = 1, getDate = 28\<rparr>
   \<and> fst (getUsage ''unset-plan-04'' mar15 (setLimit None ''unset-plan-04'' unsetShop))
       = fst (getUsage ''unset-plan-04'' mar15 (setLimit (Some 500) ''unset-plan-04'' unsetShop))
   \<and> fst (getUsage ''unset-plan-04'' mar15 unsetShop) = Inr (returnedView mar15 unsetPlan)
   \<and> limit (returnedView mar15 unsetPlan) = 500
   \<and> used (returnedView mar15 unsetPlan) = 510
   \<and> remaining (returnedView mar15 unsetPlan) = 0
   \<and> overageCount (returnedView mar15 unsetPlan) = 10
   \<and> overageRate (returnedView mar15 unsetPlan) = parseFloat 10
   \<and> fst (trackEmailSend sampleIsEmail ''unset-plan-04'' welcomeMail unsetShop) = Inr (sendResult unsetPlan)
   \<and> res_isOverage (sendResult unsetPlan)
   \<and> totalUsed (sendResult unsetPlan) = 511
   \<and> res_remaining (sendResult unsetPlan) = 0
   \<and> res_overageCost (sendResult unsetPlan) = parseFloat 10
   \<and> emailsSentThisMonth (countSend unsetPlan unsetPlan) = Some 511
   \<and> overageCost (sendLog ''unset-plan-04'' welcomeMail unsetPlan) = 10
   \<and> snd (generateMonthlyInvoice sampleRuntime unsetPeriod unsetShop)
       = insertInvoice (newInvoice sampleRuntime unsetPeriod unsetPlan
                          \<lparr>getFullYear = 2025, getMonth = 1, getDate = 28\<rparr> 1) unsetShop
   \<and> emailsOverLimit (newInvoice sampleRuntime unsetPeriod unsetPlan
                          \<lparr>getFullYear = 2025, getMonth = 1, getDate = 28\<rparr> 1) = 10
   \<and> inv_overageRate (newInvoice sampleRuntime unsetPeriod unsetPlan
                          \<lparr>getFullYear = 2025, getMonth = 1, getDate = 28\<rparr> 1) = 10
   \<and> subtotal (newInvoice sampleRuntime unsetPeriod unsetPlan
                          \<lparr>getFullYear = 2025, getMonth = 1, getDate = 28\<rparr> 1) = 100
   \<and> needsReset apr02 (currentMonthStart unsetPlan)
   \<and> remaining (returnedView apr02 unsetPlan) = 500
   \<and> overageCount (returnedView apr02 unsetPlan) = 0
   \<and> (Some 0 = (None :: int option) \<or> Some (0 :: int) = Some 0)
   \<and> connected marchShop
   \<and> findTenant (in_tenantId (febPeriod\<lparr>in_tenantId := ''zero-plan-02''\<rparr>)) marchShop = Some zeroPlan
   \<and> emailMonthlyLimit zeroPlan = Some 0
   \<and> existingInvoice (febPeriod\<lparr>in_tenantId := ''zero-plan-02''\<rparr>) marchShop = None
   \<and> storedSent zeroPlan = 10
   \<and> generateMonthlyInvoice sampleRuntime (febPeriod\<lparr>in_tenantId := ''zero-plan-02''\<rparr>) marchShop
       = (Inl (TRPCError BAD_REQUEST ''No overage to bill''), marchShop)"
proof -
  let ?date = "\<lparr>getFullYear = 2025, getMonth = 1, getDate = 28\<rparr>"
  have h: "(None :: int option) = None \<or> (None :: int option) = Some 0"
    by simp
  have c: "connected unsetShop" and f: "findTenant ''unset-plan-04'' unsetShop = Some unsetPlan"
    and q: "invoiceSeq unsetShop = 0"
    by (simp_all add: unsetShop_def shop_def findTenant_def unsetPlan_def zeroPlan_def acme_def)
  have p: "emailMonthlyLimit unsetPlan = None" "emailOverageRate unsetPlan = None"
    "storedSent unsetPlan = 510"
    by (simp_all add: unsetPlan_def storedSent_def or_int_def)
  have n: "\<not> needsReset mar15 (currentMonthStart unsetPlan)"
    by (simp add: unsetPlan_def zeroPlan_def mar15_def needsReset_def monthsDiff_def)
  have e: "sampleIsEmail (in_recipientEmail welcomeMail)"
    by (simp add: sampleIsEmail_def welcomeMail_def)
  have g: "in_tenantId unsetPeriod = ''unset-plan-04''"
    "existingInvoice unsetPeriod unsetShop = None"
    "newDate sampleRuntime (in_billingPeriodEnd unsetPeriod) = Some ?date"
    by (simp_all add: unsetPeriod_def febPeriod_def existingInvoice_def unsetShop_def shop_def
        sampleRuntime_def)
  have f': "findTenant (in_tenantId unsetPeriod) unsetShop = Some unsetPlan"
    using f by (simp only: g(1))
  have b: "\<bar>storedSent unsetPlan\<bar> < 2 ^ 52" "500 < storedSent unsetPlan"
    "500 < storedSent unsetPlan + 1" "(storedSent unsetPlan - 500) * 10 < 2 ^ 50"
    by (simp_all add: p)
  note T = null_or_zero_limit_is_500
    [OF h, where isEmail = sampleIsEmail and k = "''unset-plan-04''" and inp = welcomeMail
       and d = unsetShop and t = unsetPlan and now = mar15 and rt = sampleRuntime
       and ginp = unsetPeriod and date = ?date]
  from T have r: "fst (getUsage ''unset-plan-04'' mar15 (setLimit None ''unset-plan-04'' unsetShop))
       = fst (getUsage ''unset-plan-04'' mar15 (setLimit (Some 500) ''unset-plan-04'' unsetShop))"
    by (rule conjunct1)
  from T c f p(1) have V: "fst (getUsage ''unset-plan-04'' mar15 unsetShop) = Inr (returnedView mar15 unsetPlan)
            \<and> limit (returnedView mar15 unsetPlan) = 500
            \<and> (needsReset mar15 (currentMonthStart unsetPlan) \<longrightarrow>
                 remaining (returnedView mar15 unsetPlan) = 500 \<and> overageCount (returnedView mar15 unsetPlan) = 0)
            \<and> (\<not> needsReset mar15 (currentMonthStart unsetPlan) \<and> \<bar>storedSent unsetPlan\<bar> < 2 ^ 52 \<longrightarrow>
                 used (returnedView mar15 unsetPlan) = of_int (storedSent unsetPlan)
                 \<and> remaining (returnedView mar15 unsetPlan) = of_int (max 0 (500 - storedSent unsetPlan))
                 \<and> overageCount (returnedView mar15 unsetPlan) = of_int (max 0 (storedSent unsetPlan - 500)))
            \<and> (emailOverageRate unsetPlan = None \<longrightarrow> overageRate (returnedView mar15 unsetPlan) = parseFloat 10)"
    by blast
  with n b(1) p(2) have V': "fst (getUsage ''unset-plan-04'' mar15 unsetShop) = Inr (returnedView mar15 unsetPlan)
            \<and> limit (returnedView mar15 unsetPlan) = 500
            \<and> used (returnedView mar15 unsetPlan) = 510
            \<and> remaining (returnedView mar15 unsetPlan) = 0
            \<and> overageCount (returnedView mar15 unsetPlan) = 10
            \<and> overageRate (returnedView mar15 unsetPlan) = parseFloat 10"
    by (simp add: p(3))
  from T c f p(1) e b(1) have S: "trackEmailSend sampleIsEmail ''unset-plan-04'' welcomeMail unsetShop
              = (Inr (sendResult unsetPlan), insertLog (sendLog ''unset-plan-04'' welcomeMail unsetPlan)
                   (updateTenants (countSend unsetPlan) ''unset-plan-04'' unsetShop))
            \<and> res_isOverage (sendResult unsetPlan) = (500 < storedSent unsetPlan + 1)
            \<and> totalUsed (sendResult unsetPlan) = of_int (storedSent unsetPlan + 1)
            \<and> res_remaining (sendResult unsetPlan) = of_int (max 0 (500 - (storedSent unsetPlan + 1)))
            \<and> findTenant ''unset-plan-04'' (snd (trackEmailSend sampleIsEmail ''unset-plan-04'' welcomeMail unsetShop))
                = Some (countSend unsetPlan unsetPlan)
            \<and> emailsSentThisMonth (countSend unsetPlan unsetPlan) = Some (storedSent unsetPlan + 1)
            \<and> emailOverageCharge (countSend unsetPlan unsetPlan)
                = Some (toFixed2 (num_add (parseFloat (or_dec (emailOverageCharge unsetPlan) 0))
                                          (res_overageCost (sendResult unsetPlan))))
            \<and> isOverage (sendLog ''unset-plan-04'' welcomeMail unsetPlan) = (500 < storedSent unsetPlan + 1)
            \<and> (emailOverageRate unsetPlan = None \<longrightarrow>
                 res_overageCost (sendResult unsetPlan)
                   = (if 500 < storedSent unsetPlan + 1 then parseFloat 10 else 0)
                 \<and> overageCost (sendLog ''unset-plan-04'' welcomeMail unsetPlan)
                   = (if 500 < storedSent unsetPlan + 1 then 10 else 0))"
    by blast
  with p(2) have S': "fst (trackEmailSend sampleIsEmail ''unset-plan-04'' welcomeMail unsetShop) = Inr (sendResult unsetPlan)
   \<and> res_isOverage (sendResult unsetPlan)
   \<and> totalUsed (sendResult unsetPlan) = 511
   \<and> res_remaining (sendResult unsetPlan) = 0
   \<and> res_overageCost (sendResult unsetPlan) = parseFloat 10
   \<and> emailsSentThisMonth (countSend unsetPlan unsetPlan) = Some 511
   \<and> overageCost (sendLog ''unset-plan-04'' welcomeMail unsetPlan) = 10"
    by (simp add: p(3))
  from T c f' p(1) g(2) b(1) have "500 < storedSent unsetPlan
          \<and> newDate sampleRuntime (in_billingPeriodEnd unsetPeriod) = Some ?date \<longrightarrow>
                 generateMonthlyInvoice sampleRuntime unsetPeriod unsetShop
                 = (Inr \<lparr>res_invoiceId = Suc (invoiceSeq unsetShop),
                         res_invoiceNumber = generateInvoiceNumber (in_tenantId unsetPeriod) ?date,
                         res_totalAmount = toFixed2 (totalAmountOf unsetPlan)\<rparr>,
                    insertInvoice (newInvoice sampleRuntime unsetPeriod unsetPlan ?date (Suc (invoiceSeq unsetShop))) unsetShop)
                 \<and> emailsOverLimit (newInvoice sampleRuntime unsetPeriod unsetPlan ?date (Suc (invoiceSeq unsetShop)))
                     = storedSent unsetPlan - 500
                 \<and> (emailOverageRate unsetPlan = None \<and> (storedSent unsetPlan - 500) * 10 < 2 ^ 50 \<longrightarrow>
                      inv_overageRate (newInvoice sampleRuntime unsetPeriod unsetPlan ?date (Suc (invoiceSeq unsetShop))) = 10
                      \<and> subtotal (newInvoice sampleRuntime unsetPeriod unsetPlan ?date (Suc (invoiceSeq unsetShop)))
                          = (storedSent unsetPlan - 500) * 10)"
    by blast
  with b(2,4) g(3) p(2) have I: "snd (generateMonthlyInvoice sampleRuntime unsetPeriod unsetShop)
       = insertInvoice (newInvoice sampleRuntime unsetPeriod unsetPlan ?date 1) unsetShop
   \<and> emailsOverLimit (newInvoice sampleRuntime unsetPeriod unsetPlan ?date 1) = 10
   \<and> inv_overageRate (newInvoice sampleRuntime unsetPeriod unsetPlan ?date 1) = 10
   \<and> subtotal (newInvoice sampleRuntime unsetPeriod unsetPlan ?date 1) = 100"
    by (simp add: q p(3))
  have n': "needsReset apr02 (currentMonthStart unsetPlan)"
    by (simp add: unsetPlan_def zeroPlan_def apr02_def needsReset_def monthsDiff_def)
  note R = null_or_zero_limit_is_500
    [OF h, where k = "''unset-plan-04''" and d = unsetShop and t = unsetPlan and now = apr02]
  from R c f p(1) n' have V'': "remaining (returnedView apr02 unsetPlan) = 500
      \<and> overageCount (returnedView apr02 unsetPlan) = 0"
    by blast
  let ?zp = "febPeriod\<lparr>in_tenantId := ''zero-plan-02''\<rparr>"
  have h': "Some 0 = (None :: int option) \<or> Some (0 :: int) = Some 0"
    by simp
  have zc: "connected marchShop" and zf: "findTenant (in_tenantId ?zp) marchShop = Some zeroPlan"
    and zl: "emailMonthlyLimit zeroPlan = Some 0" and zx: "existingInvoice ?zp marchShop = None"
    and zs: "storedSent zeroPlan = 10"
    by (simp_all add: marchShop_def shop_def findTenant_def zeroPlan_def acme_def febPeriod_def
        existingInvoice_def storedSent_def or_int_def)
  have zb: "\<bar>storedSent zeroPlan\<bar> < 2 ^ 52" "storedSent zeroPlan \<le> 500"
    by (simp_all add: zs)
  note Z = null_or_zero_limit_is_500
    [OF h', where d = marchShop and t = zeroPlan and rt = sampleRuntime and ginp = ?zp]
  from Z zc zf zl zx zb have zi: "generateMonthlyInvoice sampleRuntime ?zp marchShop
       = (Inl (TRPCError BAD_REQUEST ''No overage to bill''), marchShop)"
    by blast
  from h c f p n e g r V' S' I n' V'' h' zc zf zl zx zs zi show ?thesis
    by blast
qed

theorem admin_list_shows_configured_limit_counterexample:
  "emailMonthlyLimit zeroPlan = Some 0
   \<and> setLimit (Some 0) ''zero-plan-02'' marchShop = marchShop
   \<and> fst (getUsage ''zero-plan-02'' mar15 marchShop)
       = fst (getUsage ''zero-plan-02'' mar15 (setLimit (Some 500) ''zero-plan-02'' marchShop))
   \<and> map_sum id (map u_emailMonthlyLimit) (fst (getAllTenantsUsage marchShop)) = Inr [Some 0, Some 40]
   \<and> map_sum id (map u_percentUsed) (fst (getAllTenantsUsage marchShop)) = Inr [0, 57]
   \<and> map_sum id (map u_emailMonthlyLimit)
        (fst (getAllTenantsUsage (setLimit (Some 500) ''zero-plan-02'' marchShop))) = Inr [Some 500, Some 40]
   \<and> map_sum id (map u_percentUsed)
        (fst (getAllTenantsUsage (setLimit (Some 500) ''zero-plan-02'' marchShop))) = Inr [2, 57]
   \<and> fst (getAllTenantsUsage marchShop)
       \<noteq> fst (getAllTenantsUsage (setLimit (Some 500) ''zero-plan-02'' marchShop))"
proof -
  have a: "emailMonthlyLimit zeroPlan = Some 0"
    by (simp add: zeroPlan_def)
  have e: "setLimit (Some 0) ''zero-plan-02'' marchShop = marchShop"
    by (simp add: setLimit_def updateTenants_def marchShop_def shop_def zeroPlan_def smallPlan_def
        acme_def withLimit_def)
  have g: "fst (getUsage ''zero-plan-02'' mar15 marchShop)
       = fst (getUsage ''zero-plan-02'' mar15 (setLimit (Some 500) ''zero-plan-02'' marchShop))"
    by code_simp
  have b: "map_sum id (map u_emailMonthlyLimit) (fst (getAllTenantsUsage marchShop)) = Inr [Some 0, Some 40]"
    by code_simp
  have c: "map_sum id (map u_percentUsed) (fst (getAllTenantsUsage marchShop)) = Inr [0, 57]"
    by code_simp
  have b': "map_sum id (map u_emailMonthlyLimit)
        (fst (getAllTenantsUsage (setLimit (Some 500) ''zero-plan-02'' marchShop))) = Inr [Some 500, Some 40]"
    by code_simp
  have c': "map_sum id (map u_percentUsed)
        (fst (getAllTenantsUsage (setLimit (Some 500) ''zero-plan-02'' marchShop))) = Inr [2, 57]"
    by code_simp
  from b b' have n: "fst (getAllTenantsUsage marchShop)
       \<noteq> fst (getAllTenantsUsage (setLimit (Some 500) ''zero-plan-02'' marchShop))"
    by auto
  from a e g b c b' c' n show ?thesis
    by blast
qed

section \<open>Calls of trackEmailSend in flight\<close>

lemma three_steps:
  "track_step isEmail k inp (fst (track_step isEmail k inp (fst (track_step isEmail k inp Called d))
                            (snd (track_step isEmail k inp Called d))))
                    (snd (track_step isEmail k inp (fst (track_step isEmail k inp Called d))
                            (snd (track_step isEmail k inp Called d))))
   = (Returned (fst (trackEmailSend isEmail k inp d)), snd (trackEmailSend isEmail k inp d))"
  by (simp add: trackEmailSend_def split: option.splits)

lemma sched_step_at:
  "sched_step isEmail (length ps) (ps @ \<lparr>req_tenantId = k, req_input = inp, req_at = a\<rparr> # rest, d)
   = (ps @ \<lparr>req_tenantId = k, req_input = inp, req_at = fst (track_step isEmail k inp a d)\<rparr> # rest,
      snd (track_step isEmail k inp a d))"
  by (simp add: split_beta)

lemma one_turn:
  "run_schedule isEmail [length ps, length ps, length ps] (ps @ called k inp # rest, d)
   = (ps @ \<lparr>req_tenantId = k, req_input = inp,
             req_at = Returned (fst (trackEmailSend isEmail k inp d))\<rparr> # rest,
      snd (trackEmailSend isEmail k inp d))"
  unfolding run_schedule_def called_def
  by (simp only: fold_simps sched_step_at three_steps fst_conv snd_conv)

lemma run_schedule_append:
  "run_schedule isEmail (xs @ ys) c = run_schedule isEmail ys (run_schedule isEmail xs c)"
  by (simp add: run_schedule_def)

lemma calls_in_turn:
  "run_schedule isEmail (turns (length ps) (length inps)) (ps @ map (called k) inps, d)
   = (ps @ returnedInTurn isEmail k inps d, sendsInTurn isEmail k inps d)"
proof (induction inps arbitrary: ps d)
  case Nil
  then show ?case by (simp add: run_schedule_def sendsInTurn_def)
next
  case (Cons inp inps)
  let ?r = "\<lparr>req_tenantId = k, req_input = inp,
             req_at = Returned (fst (trackEmailSend isEmail k inp d))\<rparr>"
  let ?d = "snd (trackEmailSend isEmail k inp d)"
  have "run_schedule isEmail (turns (length ps) (length (inp # inps))) (ps @ map (called k) (inp # inps), d)
        = run_schedule isEmail (turns (Suc (length ps)) (length inps))
            (run_schedule isEmail [length ps, length ps, length ps]
               (ps @ called k inp # map (called k) inps, d))"
    by (simp add: run_schedule_append [symmetric])
  also have "\<dots> = run_schedule isEmail (turns (length (ps @ [?r])) (length inps))
                     ((ps @ [?r]) @ map (called k) inps, ?d)"
    by (simp add: one_turn)
  also have "\<dots> = ((ps @ [?r]) @ returnedInTurn isEmail k inps ?d, sendsInTurn isEmail k inps ?d)"
    by (rule Cons.IH)
  finally show ?case
    by (simp add: sendsInTurn_def)
qed

lemma trackEmailSend_counts:
  assumes "connected d" and "findTenant k d = Some t" and "isEmail (in_recipientEmail inp)"
    and "0 \<le> sentThisMonth k d" and "sentThisMonth k d + 1 < 2 ^ 53"
  shows "connected (snd (trackEmailSend isEmail k inp d))"
    and "findTenant k (snd (trackEmailSend isEmail k inp d)) = Some (countSend t t)"
    and "sentThisMonth k (snd (trackEmailSend isEmail k inp d)) = sentThisMonth k d + 1"
    and "fst (trackEmailSend isEmail k inp d) = Inr (sendResult t)"
proof -
  note r = trackEmailSend_found [where isEmail = isEmail and inp = inp, OF assms(3,1,2)]
  have s: "sentThisMonth k d = or_int (emailsSentThisMonth t) 0"
    using assms(2) by (simp add: sentThisMonth_def)
  from assms(4,5) have "\<bar>or_int (emailsSentThisMonth t) 0\<bar> < 2 ^ 53 - 1"
    by (simp add: s)
  note u = usedAfterSend_exact [OF this]
  have w: "emailsSentThisMonth (countSend t t) = Some (or_int (emailsSentThisMonth t) 0 + 1)"
    by (simp add: countSend_def u int_of_num_def)
  show "connected (snd (trackEmailSend isEmail k inp d))"
    using assms(1) by (simp add: r insertLog_def)
  show f: "findTenant k (snd (trackEmailSend isEmail k inp d)) = Some (countSend t t)"
    using assms(2) by (simp add: r findTenant_updateTenants)
  show "sentThisMonth k (snd (trackEmailSend isEmail k inp d)) = sentThisMonth k d + 1"
    by (simp add: sentThisMonth_def f w assms(2)) (simp add: or_int_def)
  show "fst (trackEmailSend isEmail k inp d) = Inr (sendResult t)"
    by (simp add: r)
qed

lemma sendsInTurn_counts:
  assumes "connected d" and "findTenant k d = Some t"
    and "list_all (\<lambda>inp. isEmail (in_recipientEmail inp)) inps"
    and "0 \<le> sentThisMonth k d" and "sentThisMonth k d + int (length inps) < 2 ^ 53"
  shows "sentThisMonth k (sendsInTurn isEmail k inps d) = sentThisMonth k d + int (length inps)
       \<and> list_all completed (returnedInTurn isEmail k inps d)"
  using assms
proof (induction inps arbitrary: d t)
  case Nil
  then show ?case by (simp add: sendsInTurn_def)
next
  case (Cons inp inps)
  from Cons.prems(3) have e: "isEmail (in_recipientEmail inp)"
    and es: "list_all (\<lambda>inp. isEmail (in_recipientEmail inp)) inps"
    by simp_all
  from Cons.prems(4,5) have b: "sentThisMonth k d + 1 < 2 ^ 53"
    by simp
  note s = trackEmailSend_counts
    [where isEmail = isEmail and inp = inp, OF Cons.prems(1,2) e Cons.prems(4) b]
  from Cons.prems(4,5) have b': "0 \<le> sentThisMonth k (snd (trackEmailSend isEmail k inp d))"
    "sentThisMonth k (snd (trackEmailSend isEmail k inp d)) + int (length inps) < 2 ^ 53"
    by (simp_all add: s(3))
  have "sendsInTurn isEmail k (inp # inps) d
        = sendsInTurn isEmail k inps (snd (trackEmailSend isEmail k inp d))"
    by (simp add: sendsInTurn_def)
  with Cons.IH [OF s(1) s(2) es b'] s(3) s(4) show ?case
    by (simp add: completed_def)
qed

lemma counter_at_2_53_does_not_advance:
  assumes "connected d" and "findTenant k d = Some t" and "isEmail (in_recipientEmail inp)"
    and "emailsSentThisMonth t = Some 9007199254740992"
  shows "sentThisMonth k (snd (trackEmailSend isEmail k inp d)) = sentThisMonth k d"
proof -
  note r = trackEmailSend_found [where isEmail = isEmail and inp = inp, OF assms(3,1,2)]
  have "or_int (emailsSentThisMonth t) 0 = 9007199254740992"
    by (simp add: assms(4) or_int_def)
  then have "int_of_num (usedAfterSend t) = 9007199254740992"
    by (simp add: usedAfterSend_def sentOf_def counter_stays_at_2_53)
  then have w: "emailsSentThisMonth (countSend t t) = Some 9007199254740992"
    by (simp add: countSend_def)
  have f: "findTenant k (snd (trackEmailSend isEmail k inp d)) = Some (countSend t t)"
    using assms(2) by (simp add: r findTenant_updateTenants)
  show ?thesis
    by (simp add: sentThisMonth_def f w assms(2,4))
qed

text \<open>
  C3 (as amended). \<open>trackEmailSend\<close> is a read of the tenant's row, an update that
  writes the counter computed from the row read, and an insert, with nothing that makes
  the three atomic. When \<open>N\<close> calls for a tenant, each with a recipient that passes
  the check of the input, run one after the other, each through its three steps before
  the next begins, and the stored counter is at least \<open>0\<close> and with \<open>N\<close> added still
  below \<open>2^53\<close>, then every call completes and the counter ends at its prior value
  plus \<open>N\<close>. (When calls overlap, increments can be lost.)
\<close>

theorem sends_in_turn_all_count:
  assumes "connected d" and "findTenant k d = Some t"
    and "list_all (\<lambda>inp. isEmail (in_recipientEmail inp)) inps"
    and "0 \<le> sentThisMonth k d" and "sentThisMonth k d + int (length inps) < 2 ^ 53"
  shows "run_schedule isEmail (turns 0 (length inps)) (map (called k) inps, d)
         = (returnedInTurn isEmail k inps d, sendsInTurn isEmail k inps d)
       \<and> list_all completed (returnedInTurn isEmail k inps d)
       \<and> sentThisMonth k (sendsInTurn isEmail k inps d) = sentThisMonth k d + int (length inps)"
  using calls_in_turn [of isEmail "[]" inps k d] sendsInTurn_counts [OF assms]
  by simp

theorem sends_in_turn_all_count_witness:
  "connected shop \<and> findTenant ''acme-salon-01'' shop = Some acme
   \<and> list_all (\<lambda>inp. sampleIsEmail (in_recipientEmail inp)) [welcomeMail, welcomeMail]
   \<and> 0 \<le> sentThisMonth ''acme-salon-01'' shop
   \<and> sentThisMonth ''acme-salon-01'' shop + int (length [welcomeMail, welcomeMail]) < 2 ^ 53
   \<and> sentThisMonth ''acme-salon-01'' shop = 507
   \<and> list_all completed (fst (run_schedule sampleIsEmail [0, 0, 0, 1, 1, 1] (twoSends, shop)))
   \<and> sentThisMonth ''acme-salon-01'' (snd (run_schedule sampleIsEmail [0, 0, 0, 1, 1, 1] (twoSends, shop))) = 509"
proof -
  have h1: "connected shop" and h2: "findTenant ''acme-salon-01'' shop = Some acme"
    by (simp_all add: shop_def findTenant_def acme_def)
  have h3: "list_all (\<lambda>inp. sampleIsEmail (in_recipientEmail inp)) [welcomeMail, welcomeMail]"
    by (simp add: sampleIsEmail_def welcomeMail_def)
  have p: "sentThisMonth ''acme-salon-01'' shop = 507"
    by (simp add: sentThisMonth_def h2) (simp add: acme_def or_int_def)
  have h4: "0 \<le> sentThisMonth ''acme-salon-01'' shop"
    and h5: "sentThisMonth ''acme-salon-01'' shop + int (length [welcomeMail, welcomeMail]) < 2 ^ 53"
    by (simp_all add: p)
  have t: "turns 0 (length [welcomeMail, welcomeMail]) = [0, 0, 0, 1, 1, 1]"
    by (simp add: numeral_2_eq_2)
  have m: "map (called ''acme-salon-01'') [welcomeMail, welcomeMail] = twoSends"
    by (simp add: twoSends_def)
  note T = sends_in_turn_all_count [where isEmail = sampleIsEmail, OF h1 h2 h3 h4 h5]
  from T have a: "list_all completed (fst (run_schedule sampleIsEmail [0, 0, 0, 1, 1, 1] (twoSends, shop)))"
    and b: "sentThisMonth ''acme-salon-01'' (snd (run_schedule sampleIsEmail [0, 0, 0, 1, 1, 1] (twoSends, shop)))
            = 507 + int (length [welcomeMail, welcomeMail])"
    unfolding t m by (simp_all add: p)
  from h1 h2 h3 h4 h5 p a b show ?thesis
    by simp
qed

theorem interleaved_sends_lose_an_increment_counterexample:
  "sentThisMonth ''acme-salon-01'' shop = 507
   \<and> list_all completed (fst (run_schedule sampleIsEmail [0, 1, 0, 1, 0, 1] (twoSends, shop)))
   \<and> sentThisMonth ''acme-salon-01'' (snd (run_schedule sampleIsEmail [0, 1, 0, 1, 0, 1] (twoSends, shop))) = 508
   \<and> length (emailUsageLogs (snd (run_schedule sampleIsEmail [0, 1, 0, 1, 0, 1] (twoSends, shop)))) = 2"
proof -
  have a: "sentThisMonth ''acme-salon-01'' shop = 507"
    by code_simp
  have b: "list_all completed (fst (run_schedule sampleIsEmail [0, 1, 0, 1, 0, 1] (twoSends, shop)))"
    by code_simp
  have c: "sentThisMonth ''acme-salon-01'' (snd (run_schedule sampleIsEmail [0, 1, 0, 1, 0, 1] (twoSends, shop))) = 508"
    by code_simp
  have d: "length (emailUsageLogs (snd (run_schedule sampleIsEmail [0, 1, 0, 1, 0, 1] (twoSends, shop)))) = 2"
    by code_simp
  from a b c d show ?thesis
    by simp
qed

end
